(* ===== verification/Prelude.thy ===== *)
theory Prelude
  imports Main "HOL-Library.Word" "HOL-Library.Code_Target_Numeral"
begin

text \<open>
  Vocabulary shared by every component of the development: the machine integers of the C++
  sources, byte strings, the error codes of \<^verbatim>\<open>include/flow_scheduler/error.hpp\<close> with the
  \<^verbatim>\<open>Status\<close> and \<^verbatim>\<open>Result\<close> types built on them, and the generic lemmas on words,
  lists and results that the component theories rely on.

  A \<^verbatim>\<open>Status\<close> is its \<^verbatim>\<open>ErrorCode\<close> (\<open>Ok\<close> is success, as in the source), a
  \<^verbatim>\<open>Result<T>\<close> is the sum \<open>error_code + 'a\<close>.  The free text of an error is a bounded
  diagnostic that no code path reads; it is not modelled.
\<close>

unbundle bit_operations_syntax

named_theorems word_facts \<open>facts that read machine integers as natural numbers\<close>
named_theorems result_simps \<open>simplification of fallible computations\<close>
named_theorems codec_simps \<open>round-trip equations of the byte codecs\<close>
named_theorems frame_simps \<open>what a state transition leaves untouched\<close>

section \<open>Machine integers and byte strings\<close>

type_synonym u8 = "8 word"
type_synonym u16 = "16 word"
type_synonym u32 = "32 word"
type_synonym u64 = "64 word"
type_synonym bytes = "u8 list"

abbreviation u64_max :: u64 where "u64_max \<equiv> - 1"

text \<open>A C++ string literal as the bytes it holds.\<close>

definition lit :: "string \<Rightarrow> bytes" where
  "lit s = map of_char s"

text \<open>\<^verbatim>\<open>std::to_string\<close> on an unsigned value: its decimal digits.\<close>

fun dec_nat :: "nat \<Rightarrow> bytes" where
  "dec_nat n = (if n < 10 then [48 + of_nat n] else dec_nat (n div 10) @ [48 + of_nat (n mod 10)])"

declare dec_nat.simps [simp del]

definition dec :: "'a::len word \<Rightarrow> bytes" where
  "dec w = dec_nat (unat w)"

lemma dec_nat_nonempty: "dec_nat n \<noteq> []"
  by (subst dec_nat.simps) simp

lemma unat_le_u64_max [word_facts]: "unat (x :: u64) \<le> 2 ^ 64 - 1"
  using unsigned_less [of x, where ?'a = nat] by simp

lemma unat_u64_max [word_facts]: "unat u64_max = 2 ^ 64 - 1"
  by (simp add: unsigned_minus_1_eq_mask mask_eq_exp_minus_1)

lemma unat_min [word_facts]: "unat (min a b) = min (unat a) (unat (b :: 'a::len word))"
  by (auto simp: min_def word_le_nat_alt)

lemma unat_sub_le [word_facts]:
  "b \<le> a \<Longrightarrow> unat (a - b) = unat a - unat (b :: 'a::len word)"
  by (simp add: unat_sub)

lemma word_sub_le_self: "b \<le> a \<Longrightarrow> a - b \<le> (a :: 'a::len word)"
  by (simp add: word_le_nat_alt unat_sub)

lemma word_pos_iff: "(0 < (x :: 'a::len word)) = (x \<noteq> 0)"
  by (simp add: word_neq_0_conv)

lemma word_one_le_iff: "1 \<le> x \<longleftrightarrow> x \<noteq> (0 :: 'a::len word)"
  by (simp add: word_le_nat_alt Suc_le_eq unat_gt_0)

lemma word_xor_cancel [simp]:
  "a XOR b = a XOR c \<longleftrightarrow> b = (c :: 'a::len word)"
  "b XOR a = c XOR a \<longleftrightarrow> b = (c :: 'a::len word)"
  by (metis xor.assoc xor.left_neutral xor_self_eq) (metis xor.assoc xor.right_neutral xor_self_eq)

lemma word_xor_eq_0_iff: "a XOR b = 0 \<longleftrightarrow> a = (b :: 'a::len word)"
  by (metis word_xor_cancel(1) xor_self_eq)

section \<open>Error codes, status and results\<close>

datatype (plugins only: code) error_code =
    Ok
  | InvalidArgument | OutOfRange | ArithmeticOverflow | Bounded | Unsupported | Internal
  | NotFound | AlreadyExists | UnknownFlow | UnknownSchedule | UnknownResource
  | UnknownReservation | UnknownAttempt | UnknownPolicy | UnknownWorker
  | StaleFlowGeneration | StalePathGeneration | StaleResourceGeneration
  | StaleReservationGeneration | StalePolicyGeneration | StaleQoSGeneration
  | StalePriorityGeneration | StaleScheduleGeneration | StaleEpoch | StaleAttempt
  | StaleAuthority | Fenced
  | InvalidState | NotReady | NotReleased | DependencyUnsatisfied | CapacityUnavailable
  | ReservationClosed | ReservationExhausted | DeadlinePassed | Cancelled | ZeroQuantum
  | ConcurrencyLimit | NotPreemptible | PreemptionThrottled
  | DuplicateCompletion | ContradictoryCompletion | CompletionForClosedAttempt
  | AmbiguousOutcome
  | CorruptData | Truncated | Oversized | SequenceGap | IoFailure | TransportFailure
  | PeerClosed | HandshakeRejected | ProtocolViolation | Busy


definition is_transient :: "error_code \<Rightarrow> bool" where
  "is_transient c \<longleftrightarrow> c \<in> {NotReady, NotReleased, DependencyUnsatisfied, CapacityUnavailable,
     ReservationClosed, ReservationExhausted, ConcurrencyLimit, PreemptionThrottled, Busy}"

definition is_staleness :: "error_code \<Rightarrow> bool" where
  "is_staleness c \<longleftrightarrow> c \<in> {StaleFlowGeneration, StalePathGeneration, StaleResourceGeneration,
     StaleReservationGeneration, StalePolicyGeneration, StaleQoSGeneration,
     StalePriorityGeneration, StaleScheduleGeneration, StaleEpoch, StaleAttempt,
     StaleAuthority, Fenced, CompletionForClosedAttempt}"

type_synonym status = error_code
type_synonym 'a result = "error_code + 'a"

text \<open>The macros \<^verbatim>\<open>FS_TRY_ASSIGN\<close> and \<^verbatim>\<open>FS_RETURN_IF_ERROR\<close>: propagate a failure.\<close>

definition try_assign :: "'a result \<Rightarrow> ('a \<Rightarrow> 'b result) \<Rightarrow> 'b result" where
  "try_assign r k = (case r of Inl e \<Rightarrow> Inl e | Inr x \<Rightarrow> k x)"

definition return_if_error :: "status \<Rightarrow> 'b result \<Rightarrow> 'b result" where
  "return_if_error c k = (if c \<noteq> Ok then Inl c else k)"

lemma try_assign_simps [simp, result_simps]:
  "try_assign (Inl e) k = Inl e"
  "try_assign (Inr x) k = k x"
  by (simp_all add: try_assign_def)

lemma return_if_error_simps [simp, result_simps]:
  "return_if_error Ok k = k"
  "c \<noteq> Ok \<Longrightarrow> return_if_error c k = Inl c"
  by (simp_all add: return_if_error_def)

lemma try_assign_eq_Inr [result_simps]:
  "try_assign r k = Inr y \<longleftrightarrow> (\<exists>x. r = Inr x \<and> k x = Inr y)"
  by (cases r) auto

lemma try_assign_eq_Inl [result_simps]:
  "try_assign r k = Inl e \<longleftrightarrow> r = Inl e \<or> (\<exists>x. r = Inr x \<and> k x = Inl e)"
  by (cases r) auto

lemma return_if_error_eq_Inr [result_simps]:
  "return_if_error c k = Inr y \<longleftrightarrow> c = Ok \<and> k = Inr y"
  by (auto simp: return_if_error_def)

text \<open>A run of guards \<^verbatim>\<open>if (condition) return failure(code);\<close> that ends in success.\<close>

fun guards :: "(bool \<times> error_code) list \<Rightarrow> status" where
  "guards [] = Ok"
| "guards ((condition, code) # rest) = (if condition then code else guards rest)"

text \<open>
  A stateful routine that returns a \<^verbatim>\<open>Status\<close> takes the state and returns the code with the
  state after it: what happened before an early return stays.  \<open>and_then\<close> is
  \<^verbatim>\<open>FS_RETURN_IF_ERROR(first); second\<close>.
\<close>

type_synonym 's action = "'s \<Rightarrow> status \<times> 's"

definition and_then :: "'s action \<Rightarrow> 's action \<Rightarrow> 's action" where
  "and_then f g s = (case f s of (code, s') \<Rightarrow> if code \<noteq> Ok then (code, s') else g s')"

definition check :: "status \<Rightarrow> 's action" where
  "check code s = (code, s)"

definition succeed :: "('s \<Rightarrow> 's) \<Rightarrow> 's action" where
  "succeed f s = (Ok, f s)"

definition fail_if :: "('s \<Rightarrow> bool) \<Rightarrow> error_code \<Rightarrow> 's action" where
  "fail_if condition code s = (if condition s then code else Ok, s)"

text \<open>A loop whose body may return early with an error.\<close>

fun for_each :: "('a \<Rightarrow> 's action) \<Rightarrow> 'a list \<Rightarrow> 's action" where
  "for_each f [] s = (Ok, s)"
| "for_each f (x # xs) s = and_then (f x) (for_each f xs) s"

lemma and_then_eq:
  "and_then f g s = (c, t) \<longleftrightarrow>
     (c \<noteq> Ok \<and> f s = (c, t)) \<or> (\<exists>u. f s = (Ok, u) \<and> g u = (c, t))"
  by (auto simp: and_then_def split: prod.splits)

lemma check_apply [simp]: "check c s = (c, s)"
  by (simp add: check_def)

lemma succeed_apply [simp]: "succeed f s = (Ok, f s)"
  by (simp add: succeed_def)

lemma fail_if_apply [simp]: "fail_if P c s = (if P s then c else Ok, s)"
  by (simp add: fail_if_def)

section \<open>Generic lemmas on lists\<close>

lemma fold_invariant:
  assumes "P s" and "\<And>x s. x \<in> set xs \<Longrightarrow> P s \<Longrightarrow> P (f x s)"
  shows "P (fold f xs s)"
  using assms by (induction xs arbitrary: s) auto

lemma fold_same:
  assumes "\<And>x s. x \<in> set xs \<Longrightarrow> g (f x s) = g s"
  shows "g (fold f xs s) = g s"
  using assms by (induction xs arbitrary: s) auto

lemma fold_rel:
  assumes refl: "\<And>s. R s s" and trans: "\<And>s t u. R s t \<Longrightarrow> R t u \<Longrightarrow> R s u"
    and step: "\<And>x s. x \<in> set xs \<Longrightarrow> R s (f x s)"
  shows "R s (fold f xs s)"
  using step
proof (induction xs arbitrary: s)
  case Nil
  then show ?case by (simp add: refl)
next
  case (Cons x xs)
  have "R s (f x s)" using Cons.prems by simp
  moreover have "R (f x s) (fold f xs (f x s))" using Cons by simp
  ultimately show ?case using trans by simp
qed

lemma fold_inj:
  assumes "\<And>x. x \<in> set xs \<Longrightarrow> inj (f x)" and "fold f xs s = fold f xs t"
  shows "s = t"
  using assms by (induction xs arbitrary: s t) (auto dest: injD)

end
