(* ===== verification/Checked.thy ===== *)
theory Checked
  imports Prelude
begin

text \<open>
  \<^verbatim>\<open>include/flow_scheduler/checked.hpp\<close>, \<^verbatim>\<open>src/checked.cpp\<close> and
  \<^verbatim>\<open>include/flow_scheduler/time.hpp\<close>: unsigned 64-bit arithmetic that reports overflow
  instead of wrapping, its saturating variants, and ticks.  The lemmas say that each guarded
  operation is the operation on natural numbers, with an error exactly where the natural result
  does not fit in 64 bits.  The wall clock behind \<^verbatim>\<open>SteadyClock\<close> is outside the program;
  every operation of the runtime that reads the clock takes the tick as an argument.
\<close>

section \<open>Checked arithmetic\<close>

definition checked_add :: "u64 \<Rightarrow> u64 \<Rightarrow> u64 result" where
  "checked_add a b = (if a > u64_max - b then Inl ArithmeticOverflow else Inr (a + b))"

definition checked_sub :: "u64 \<Rightarrow> u64 \<Rightarrow> u64 result" where
  "checked_sub a b = (if b > a then Inl ArithmeticOverflow else Inr (a - b))"

definition checked_mul :: "u64 \<Rightarrow> u64 \<Rightarrow> u64 result" where
  "checked_mul a b =
     (if a \<noteq> 0 \<and> b > u64_max div a then Inl ArithmeticOverflow else Inr (a * b))"

definition checked_add3 :: "u64 \<Rightarrow> u64 \<Rightarrow> u64 \<Rightarrow> u64 result" where
  "checked_add3 a b c = try_assign (checked_add a b) (\<lambda>partial. checked_add partial c)"

definition checked_mul3 :: "u64 \<Rightarrow> u64 \<Rightarrow> u64 \<Rightarrow> u64 result" where
  "checked_mul3 a b c = try_assign (checked_mul a b) (\<lambda>partial. checked_mul partial c)"

definition saturating_add :: "u64 \<Rightarrow> u64 \<Rightarrow> u64" where
  "saturating_add a b = (if u64_max - a < b then u64_max else a + b)"

definition saturating_sub :: "u64 \<Rightarrow> u64 \<Rightarrow> u64" where
  "saturating_sub a b = (if a < b then 0 else a - b)"

text \<open>\<^verbatim>\<open>checked_narrow<To>\<close> on unsigned source and target types.\<close>

definition checked_narrow :: "'a::len word \<Rightarrow> 'b::len word result" where
  "checked_narrow value =
     (if unat value > unat (- 1 :: 'b word) then Inl OutOfRange else Inr (ucast value))"

definition checked_next :: "u64 \<Rightarrow> u64 result" where
  "checked_next value = (if value = u64_max then Inl ArithmeticOverflow else Inr (value + 1))"

section \<open>Ticks\<close>

type_synonym ticks = u64

definition kNoDeadline :: ticks where "kNoDeadline = u64_max"
definition kReleasedImmediately :: ticks where "kReleasedImmediately = 0"
definition kNoWindowBound :: ticks where "kNoWindowBound = u64_max"

definition has_deadline :: "ticks \<Rightarrow> bool" where
  "has_deadline deadline \<longleftrightarrow> deadline \<noteq> kNoDeadline"

definition ticks_between :: "ticks \<Rightarrow> ticks \<Rightarrow> ticks" where
  "ticks_between earlier later = (if later < earlier then 0 else later - earlier)"

text \<open>\<^verbatim>\<open>SteadyClock\<close>, with the two readings of the platform clock as arguments.\<close>

definition steady_clock_now :: "ticks \<Rightarrow> ticks \<Rightarrow> ticks" where
  "steady_clock_now origin current = (if current \<ge> origin then current - origin else 0)"

section \<open>What the operations compute\<close>

lemma unat_u64_max_minus [word_facts]: "unat (u64_max - x) = 2 ^ 64 - 1 - unat x"
  using word_n1_ge [of x] by (simp add: unat_sub unat_u64_max)

lemma checked_add_nat:
  "checked_add a b =
     (if unat a + unat b < 2 ^ 64 then Inr (of_nat (unat a + unat b)) else Inl ArithmeticOverflow)"
  using unat_le_u64_max [of b]
  by (auto simp: checked_add_def word_less_nat_alt unat_u64_max_minus)

lemma checked_sub_nat:
  "checked_sub a b =
     (if unat b \<le> unat a then Inr (of_nat (unat a - unat b)) else Inl ArithmeticOverflow)"
  by (auto simp: checked_sub_def word_less_nat_alt of_nat_diff)

lemma mul_overflow_iff:
  fixes a b m :: nat
  assumes "0 < a"
  shows "m div a < b \<longleftrightarrow> m < a * b"
  using assms by (metis less_mult_imp_div_less div_less_iff_less_mult mult.commute)

lemma checked_mul_nat:
  "checked_mul a b =
     (if unat a * unat b < 2 ^ 64 then Inr (of_nat (unat a * unat b)) else Inl ArithmeticOverflow)"
proof (cases "a = 0")
  case False
  then have "0 < unat a" by (simp add: unat_gt_0)
  then have "b > u64_max div a \<longleftrightarrow> \<not> unat a * unat b < 2 ^ 64"
    by (simp add: word_less_nat_alt unat_div unat_u64_max mul_overflow_iff) linarith
  with False show ?thesis by (simp add: checked_mul_def)
qed (simp add: checked_mul_def)

lemma unat_of_nat_u64: "n < 2 ^ 64 \<Longrightarrow> unat (of_nat n :: u64) = n"
  by (simp add: unat_of_nat take_bit_nat_eq_self)

lemma checked_add3_nat:
  "checked_add3 a b c =
     (if unat a + unat b + unat c < 2 ^ 64 then Inr (of_nat (unat a + unat b + unat c))
      else Inl ArithmeticOverflow)"
  using unat_of_nat_u64 [of "unat a + unat b"]
  by (auto simp: checked_add3_def checked_add_nat)

lemma saturating_add_nat: "unat (saturating_add a b) = min (unat a + unat b) (2 ^ 64 - 1)"
  using unat_le_u64_max [of a]
  by (auto simp: saturating_add_def word_less_nat_alt unat_u64_max_minus unat_u64_max
      unat_plus_if')

lemma saturating_sub_nat: "unat (saturating_sub a b) = unat a - unat b"
  by (auto simp: saturating_sub_def word_less_nat_alt unat_sub word_le_nat_alt)

lemma ticks_between_nat: "unat (ticks_between a b) = unat b - unat a"
  by (auto simp: ticks_between_def word_less_nat_alt unat_sub word_le_nat_alt)

lemmas checked_nat = checked_add_nat checked_sub_nat checked_mul_nat checked_add3_nat
lemmas saturating_nat = saturating_add_nat saturating_sub_nat ticks_between_nat
declare saturating_nat [word_facts]

lemma saturating_add_ge: "a \<le> saturating_add a b"
  using unat_le_u64_max [of a] by (simp add: word_le_nat_alt saturating_add_nat)

lemma saturating_sub_le: "saturating_sub a b \<le> a"
  by (simp add: word_le_nat_alt saturating_sub_nat)

lemma checked_next_nat:
  "checked_next v = Inr w \<longleftrightarrow> unat w = unat v + 1"
proof -
  have "unat (v + 1) = unat v + 1" if "v \<noteq> u64_max"
    using that by (metis add.commute unatSuc Suc_eq_plus1 add_0 add.left_inverse eq_neg_iff_add_eq_0)
  moreover have "unat w \<noteq> unat v + 1" if "v = u64_max"
    using that unat_le_u64_max [of w] by (simp add: unat_u64_max)
  moreover have "v \<noteq> u64_max \<Longrightarrow> unat w = unat v + 1 \<Longrightarrow> w = v + 1"
    using calculation(1) by (metis word_unat_eq_iff)
  ultimately show ?thesis by (auto simp: checked_next_def)
qed

end
