(* ===== verification/Identity.thy ===== *)
theory Identity
  imports Checked
begin

text \<open>
  \<^verbatim>\<open>include/flow_scheduler/identity.hpp\<close> and \<^verbatim>\<open>src/identity.cpp\<close>: strong identity types.
  The class template \<^verbatim>\<open>Id<Tag>\<close> is one phantom-typed datatype, so that identities of two
  families do not mix in the model either; the comparison operators of the template are its
  instance of \<open>linorder\<close>.  Zero is the unbound identity of every family.
\<close>

section \<open>Identities\<close>

datatype 'tag ident = Ident (id_value: u64)

datatype flow_tag = FlowTag
datatype schedule_tag = ScheduleTag
datatype attempt_tag = DispatchAttemptTag
datatype resource_tag = ResourceTag
datatype path_tag = PathTag
datatype reservation_tag = ReservationTag
datatype priority_class_tag = PriorityClassTag
datatype qos_class_tag = QoSClassTag
datatype policy_tag = PolicyTag
datatype epoch_tag = FabricEpochTag
datatype worker_tag = WorkerTag
datatype boot_tag = BootTag
datatype generation_tag = GenerationTag
datatype fairness_group_tag = FairnessGroupTag
datatype trace_tag = TraceTag

type_synonym flow_id = "flow_tag ident"
type_synonym schedule_id = "schedule_tag ident"
type_synonym attempt_id = "attempt_tag ident"
type_synonym resource_id = "resource_tag ident"
type_synonym path_id = "path_tag ident"
type_synonym reservation_id = "reservation_tag ident"
type_synonym priority_class_id = "priority_class_tag ident"
type_synonym qos_class_id = "qos_class_tag ident"
type_synonym policy_id = "policy_tag ident"
type_synonym fabric_epoch = "epoch_tag ident"
type_synonym worker_id = "worker_tag ident"
type_synonym boot_id = "boot_tag ident"
type_synonym generation = "generation_tag ident"
type_synonym fairness_group_id = "fairness_group_tag ident"
type_synonym trace_id = "trace_tag ident"

abbreviation unbound :: "'tag ident" where "unbound \<equiv> Ident 0"

definition id_valid :: "'tag ident \<Rightarrow> bool" where
  "id_valid i \<longleftrightarrow> id_value i \<noteq> 0"

instantiation ident :: (type) linorder
begin

definition less_ident :: "'a ident \<Rightarrow> 'a ident \<Rightarrow> bool" where
  "less_ident a b \<longleftrightarrow> id_value a < id_value b"

definition less_eq_ident :: "'a ident \<Rightarrow> 'a ident \<Rightarrow> bool" where
  "less_eq_ident a b \<longleftrightarrow> id_value a \<le> id_value b"

instance
  by standard (auto simp: less_eq_ident_def less_ident_def ident.expand)

end

text \<open>\<^verbatim>\<open>advance\<close>: the next identity of a family, or an error when the counter is exhausted.\<close>

definition advance :: "'tag ident \<Rightarrow> 'tag ident result" where
  "advance current = try_assign (checked_next (id_value current)) (\<lambda>v. Inr (Ident v))"

definition id_text :: "string \<Rightarrow> 'tag ident \<Rightarrow> bytes" where
  "id_text family i = lit family @ lit ''#'' @ dec (id_value i)"

section \<open>Provenance\<close>

datatype provenance_origin =
  OriginUnknown | OriginExternal | OriginInternal | OriginRecovered | OriginSynthetic

record provenance =
  pv_origin :: provenance_origin
  pv_sequence :: u64
  pv_digest :: u64

definition established :: "provenance \<Rightarrow> bool" where
  "established p \<longleftrightarrow> pv_origin p \<noteq> OriginUnknown"

definition authoritative :: "provenance \<Rightarrow> bool" where
  "authoritative p \<longleftrightarrow> pv_origin p = OriginExternal \<or> pv_origin p = OriginInternal"

fun origin_text :: "provenance_origin \<Rightarrow> string" where
  "origin_text OriginUnknown = ''unknown''"
| "origin_text OriginExternal = ''external''"
| "origin_text OriginInternal = ''internal''"
| "origin_text OriginRecovered = ''recovered''"
| "origin_text OriginSynthetic = ''synthetic''"

definition provenance_text :: "provenance \<Rightarrow> bytes" where
  "provenance_text p =
     lit (origin_text (pv_origin p)) @ lit ''/seq='' @ dec (pv_sequence p)
     @ lit ''/digest='' @ dec (pv_digest p)"

section \<open>Facts on identities\<close>

lemma Ident_less_iff [simp]: "Ident a < Ident b \<longleftrightarrow> a < b"
  by (simp add: less_ident_def)

lemma Ident_le_iff [simp]: "Ident a \<le> Ident b \<longleftrightarrow> a \<le> b"
  by (simp add: less_eq_ident_def)

lemma id_valid_iff: "id_valid i \<longleftrightarrow> i \<noteq> unbound"
  by (cases i) (simp add: id_valid_def)

lemma unbound_least [simp]: "unbound \<le> i"
  by (simp add: less_eq_ident_def)

lemma advance_greater: "advance i = Inr j \<Longrightarrow> i < j \<and> id_valid j"
  by (auto simp: advance_def try_assign_eq_Inr checked_next_nat less_ident_def
      word_less_nat_alt id_valid_def)

lemma advance_next: "advance i = Inr j \<Longrightarrow> k < j \<longleftrightarrow> k \<le> i"
  by (auto simp: advance_def try_assign_eq_Inr checked_next_nat less_ident_def less_eq_ident_def
      word_less_nat_alt word_le_nat_alt)

lemma advance_fails_iff: "advance i = Inl e \<longleftrightarrow> id_value i = u64_max \<and> e = ArithmeticOverflow"
  by (auto simp: advance_def try_assign_eq_Inl checked_next_def)

end
