(* ===== verification/Hash.thy ===== *)
theory Hash
  imports Identity
begin

text \<open>
  \<^verbatim>\<open>include/flow_scheduler/hash.hpp\<close> and \<^verbatim>\<open>src/hash.cpp\<close>: CRC-32C over a table, FNV-1a digests
  folded in little-endian byte order, the SplitMix64 mixer and the generator built on it.  The
  table-driven CRC is proved equal to the bit-serial division it caches and to detect every change
  of one byte; a digest separates any two byte strings that differ in one byte; the mixer is a
  bijection, from which the rejection loop of the generator terminates.
\<close>

section \<open>CRC-32C\<close>

text \<open>One turn of the inner loop of \<^verbatim>\<open>make_crc32c_table\<close>.\<close>

definition crc_bit :: "u32 \<Rightarrow> u32" where
  "crc_bit crc = drop_bit 1 crc XOR (if crc AND 1 \<noteq> 0 then 0x82F63B78 else 0)"

definition make_crc32c_table :: "u32 list" where
  "make_crc32c_table = map (\<lambda>index. (crc_bit ^^ 8) (of_nat index)) [0..<256]"

definition kCrc32cTable :: "u32 list" where
  "kCrc32cTable = make_crc32c_table"

definition crc_step :: "u8 \<Rightarrow> u32 \<Rightarrow> u32" where
  "crc_step byte crc =
     kCrc32cTable ! unat ((crc XOR ucast byte) AND 0xFF) XOR drop_bit 8 crc"

definition crc32c_extend :: "u32 \<Rightarrow> bytes \<Rightarrow> u32" where
  "crc32c_extend seed data = fold crc_step data (seed XOR 0xFFFFFFFF) XOR 0xFFFFFFFF"

definition crc32c :: "bytes \<Rightarrow> u32" where
  "crc32c data = crc32c_extend 0 data"

text \<open>The bit-serial definition of the same checksum: shift each byte through the divisor.\<close>

definition crc_step_serial :: "u8 \<Rightarrow> u32 \<Rightarrow> u32" where
  "crc_step_serial byte crc = (crc_bit ^^ 8) (crc XOR ucast byte)"

definition crc32c_serial :: "bytes \<Rightarrow> u32" where
  "crc32c_serial data = fold crc_step_serial data 0xFFFFFFFF XOR 0xFFFFFFFF"

section \<open>FNV-1a and the digest builder\<close>

definition kFnvOffset :: u64 where "kFnvOffset = 0xCBF29CE484222325"
definition kFnvPrime :: u64 where "kFnvPrime = 0x00000100000001B3"

definition fnv_byte :: "u8 \<Rightarrow> u64 \<Rightarrow> u64" where
  "fnv_byte byte state = (state XOR ucast byte) * kFnvPrime"

definition fnv1a64_extend :: "u64 \<Rightarrow> bytes \<Rightarrow> u64" where
  "fnv1a64_extend seed data = fold fnv_byte data seed"

definition fnv1a64 :: "bytes \<Rightarrow> u64" where
  "fnv1a64 data = fold fnv_byte data kFnvOffset"

text \<open>
  \<^verbatim>\<open>Digest64\<close> is its accumulator; each \<^verbatim>\<open>add_\<close> member folds the little-endian bytes of its
  argument into it.
\<close>

definition le_bytes :: "nat \<Rightarrow> 'a::len word \<Rightarrow> bytes" where
  "le_bytes n value = map (\<lambda>index. ucast (drop_bit (8 * index) value)) [0..<n]"

type_synonym digest64 = u64

definition add_u8 :: "u8 \<Rightarrow> digest64 \<Rightarrow> digest64" where
  "add_u8 value d = fnv_byte value d"

definition add_u16 :: "u16 \<Rightarrow> digest64 \<Rightarrow> digest64" where
  "add_u16 value d = fold add_u8 (le_bytes 2 value) d"

definition add_u32 :: "u32 \<Rightarrow> digest64 \<Rightarrow> digest64" where
  "add_u32 value d = fold add_u8 (le_bytes 4 value) d"

definition add_u64 :: "u64 \<Rightarrow> digest64 \<Rightarrow> digest64" where
  "add_u64 value d = fold add_u8 (le_bytes 8 value) d"

definition add_bool :: "bool \<Rightarrow> digest64 \<Rightarrow> digest64" where
  "add_bool value d = add_u8 (if value then 1 else 0) d"

definition add_bytes :: "bytes \<Rightarrow> digest64 \<Rightarrow> digest64" where
  "add_bytes data d = fold fnv_byte data d"

definition add_string :: "bytes \<Rightarrow> digest64 \<Rightarrow> digest64" where
  "add_string text d = add_bytes text (add_u64 (of_nat (length text)) d)"

section \<open>SplitMix64\<close>

definition mix64 :: "u64 \<Rightarrow> u64" where
  "mix64 value0 =
     (let value = value0 + 0x9E3779B97F4A7C15;
          value = (value XOR drop_bit 30 value) * 0xBF58476D1CE4E5B9;
          value = (value XOR drop_bit 27 value) * 0x94D049BB133111EB
      in value XOR drop_bit 31 value)"

text \<open>A generator is its state word; a draw returns the value and the state after it.\<close>

type_synonym rng = u64

definition next_u64 :: "rng \<Rightarrow> u64 \<times> rng" where
  "next_u64 state = (let state = state + 0x9E3779B97F4A7C15 in (mix64 state, state))"

partial_function (option) draw_below :: "u64 \<Rightarrow> u64 \<Rightarrow> rng \<Rightarrow> (u64 \<times> rng) option" where
  "draw_below limit bound state =
     (case next_u64 state of (draw, state') \<Rightarrow>
        if draw < limit then Some (draw mod bound, state') else draw_below limit bound state')"

definition next_below :: "u64 \<Rightarrow> rng \<Rightarrow> (u64 \<times> rng) option" where
  "next_below bound state =
     (if bound = 0 then Some (0, state)
      else draw_below (u64_max - u64_max mod bound) bound state)"

definition next_range :: "u64 \<Rightarrow> u64 \<Rightarrow> rng \<Rightarrow> (u64 \<times> rng) option" where
  "next_range low high state =
     (if high \<le> low then Some (low, state)
      else map_option (\<lambda>(v, state'). (low + v, state')) (next_below ((high - low) + 1) state))"

section \<open>The table caches the division\<close>

lemma crc_bit_xor: "crc_bit (x XOR y) = crc_bit x XOR crc_bit y"
proof -
  have "bit (x XOR y) 0 = (bit x 0 \<noteq> bit y 0)" by (simp add: bit_xor_iff)
  then show ?thesis
    unfolding crc_bit_def and_one_eq mod2_eq_if
    by (auto simp: bit_0 ac_simps drop_bit_xor)
qed

lemma crc_bit_pow_xor: "(crc_bit ^^ n) (x XOR y) = (crc_bit ^^ n) x XOR (crc_bit ^^ n) y"
  by (induction n) (simp_all add: crc_bit_xor)

lemma crc_bit_even: "\<not> bit x 0 \<Longrightarrow> crc_bit x = drop_bit 1 x"
  by (simp add: crc_bit_def and_one_eq mod2_eq_if bit_0)

lemma crc_bit_pow_clear:
  "(\<forall>i<n. \<not> bit x i) \<Longrightarrow> (crc_bit ^^ n) x = drop_bit n x"
proof (induction n)
  case (Suc n)
  then have "\<not> bit (drop_bit n x) 0" by (simp add: bit_drop_bit_eq)
  with Suc show ?case by (simp add: crc_bit_even drop_bit_drop_bit add.commute)
qed simp

lemma crc_bit_high: "bit (crc_bit x) 31 = bit x 0"
  using bit_imp_le_length [of x 32]
  by (auto simp: crc_bit_def and_one_eq mod2_eq_if bit_0 bit_xor_iff bit_drop_bit_eq)

lemma crc_bit_zero [simp]: "(crc_bit ^^ n) 0 = 0"
  by (induction n) (simp_all add: crc_bit_def)

lemma crc_bit_inj_zero: "crc_bit x = 0 \<Longrightarrow> x = 0"
proof (rule bit_eqI)
  fix n assume x: "crc_bit x = 0" and n: "possible_bit TYPE(u32) n"
  have even: "\<not> bit x 0" using x crc_bit_high [of x] by simp
  then have "drop_bit 1 x = 0" using x by (simp add: crc_bit_even)
  then have "\<not> bit x (Suc k)" for k
    using bit_drop_bit_eq [of 1 x] by (metis bit_0_eq bot_apply comp_apply plus_1_eq_Suc bot_bool_def)
  with even show "bit x n = bit 0 n" by (cases n) simp_all
qed

lemma inj_crc_bit_pow: "inj (crc_bit ^^ n)"
proof (rule injI)
  fix x y assume "(crc_bit ^^ n) x = (crc_bit ^^ n) y"
  then have "(crc_bit ^^ n) (x XOR y) = 0" by (simp add: crc_bit_pow_xor)
  then have "x XOR y = 0"
    by (induction n) (auto dest: crc_bit_inj_zero)
  then show "x = y" by (simp add: word_xor_eq_0_iff)
qed

lemma crc_table_nth:
  assumes "unat i < 256"
  shows "kCrc32cTable ! unat i = (crc_bit ^^ 8) i"
  using assms by (simp add: kCrc32cTable_def make_crc32c_table_def)

lemma u32_255_mask: "(0xFF :: u32) = mask 8"
  by (simp add: mask_eq_exp_minus_1)

lemma unat_and_255: "unat ((x :: u32) AND 0xFF) < 256"
  using take_bit_nat_less_exp [of 8 "unat x"]
  unfolding u32_255_mask take_bit_eq_mask [symmetric] unsigned_take_bit_eq by simp

lemma crc_step_serial_eq: "crc_step byte crc = crc_step_serial byte crc"
proof -
  define m where "m = (mask 8 :: u32)"
  let ?x = "crc XOR ucast byte"
  have split: "?x = (?x AND m) XOR (?x AND NOT m)"
    by (rule bit_eqI) (auto simp: bit_simps)
  have "(crc_bit ^^ 8) ?x = (crc_bit ^^ 8) (?x AND m) XOR (crc_bit ^^ 8) (?x AND NOT m)"
    using split crc_bit_pow_xor by metis
  also have "(crc_bit ^^ 8) (?x AND NOT m) = drop_bit 8 (?x AND NOT m)"
    by (rule crc_bit_pow_clear) (simp add: m_def bit_and_iff bit_not_iff bit_mask_iff)
  also have "drop_bit 8 (?x AND NOT m) = drop_bit 8 crc"
    by (rule bit_eqI)
      (auto simp: m_def bit_drop_bit_eq bit_and_iff bit_not_iff bit_mask_iff bit_xor_iff
        bit_unsigned_iff dest: bit_imp_le_length)
  finally show ?thesis
    using unat_and_255 [of ?x]
    by (simp add: crc_step_def crc_step_serial_def crc_table_nth u32_255_mask m_def)
qed

lemma crc32c_serial_eq: "crc32c data = crc32c_serial data"
proof -
  have "crc_step = crc_step_serial" by (intro ext) (rule crc_step_serial_eq)
  then show ?thesis by (simp add: crc32c_def crc32c_extend_def crc32c_serial_def)
qed

section \<open>What the checksum detects\<close>

lemma inj_crc_step: "inj (crc_step byte)"
proof (rule injI)
  fix x y assume "crc_step byte x = crc_step byte y"
  then have "x XOR ucast byte = y XOR ucast byte"
    using inj_crc_bit_pow [of 8] by (simp add: crc_step_serial_eq crc_step_serial_def inj_eq)
  then show "x = y" by simp
qed

text \<open>The word that a run of at most four bytes contributes to the register.\<close>

fun crc_word :: "bytes \<Rightarrow> u32" where
  "crc_word [] = 0"
| "crc_word (b # bs) = ucast b XOR push_bit 8 (crc_word bs)"

lemma crc_word_bound: "length bs \<le> 4 \<Longrightarrow> bit (crc_word bs) n \<Longrightarrow> n < 8 * length bs"
proof (induction bs arbitrary: n)
  case (Cons b bs)
  have "bit (ucast b :: u32) n \<Longrightarrow> n < 8" by (auto simp: bit_unsigned_iff dest: bit_imp_le_length)
  moreover have "bit (push_bit 8 (crc_word bs)) n \<Longrightarrow> n < 8 * length bs + 8"
    using Cons.IH [of "n - 8"] Cons.prems(1) by (auto simp: bit_push_bit_iff)
  ultimately show ?case using Cons.prems(2) by (auto simp: bit_xor_iff)
qed simp

lemma crc_word_shift:
  "length bs < 4 \<Longrightarrow> (crc_bit ^^ 8) (push_bit 8 (crc_word bs)) = crc_word bs"
proof -
  assume len: "length bs < 4"
  have "(crc_bit ^^ 8) (push_bit 8 (crc_word bs)) = drop_bit 8 (push_bit 8 (crc_word bs))"
    by (rule crc_bit_pow_clear) (simp add: bit_push_bit_iff)
  also have "\<dots> = crc_word bs"
    by (rule bit_eqI) (use len crc_word_bound [of bs] in
        \<open>fastforce simp: bit_drop_bit_eq bit_push_bit_iff\<close>)
  finally show ?thesis .
qed

lemma crc_fold_word:
  "length bs \<le> 4 \<Longrightarrow> fold crc_step bs s = (crc_bit ^^ (8 * length bs)) (s XOR crc_word bs)"
proof (induction bs arbitrary: s)
  case (Cons b bs)
  have "fold crc_step (b # bs) s
      = (crc_bit ^^ (8 * length bs)) ((crc_bit ^^ 8) (s XOR ucast b) XOR crc_word bs)"
    using Cons by (simp add: crc_step_serial_eq [of b s] crc_step_serial_def)
  also have "(crc_bit ^^ 8) (s XOR ucast b) XOR crc_word bs
      = (crc_bit ^^ 8) (s XOR crc_word (b # bs))"
    using Cons.prems crc_word_shift [of bs] by (simp add: crc_bit_pow_xor xor.assoc)
  finally show ?case
    using funpow_add [of "8 * length bs" 8 crc_bit] by (simp add: add.commute)
qed simp

lemma crc_word_low: "bit (crc_word (b # bs)) n \<longleftrightarrow> bit b n" if "n < 8"
  using that by (simp add: bit_xor_iff bit_push_bit_iff bit_unsigned_iff)

lemma crc_word_inj:
  "length bs \<le> 4 \<Longrightarrow> length cs = length bs \<Longrightarrow> crc_word bs = crc_word cs \<Longrightarrow> bs = cs"
proof (induction bs arbitrary: cs)
  case (Cons b bs)
  then obtain c cs' where [simp]: "cs = c # cs'" by (cases cs) auto
  have bc: "b = c"
  proof (rule bit_eqI)
    fix n assume "possible_bit TYPE(8 word) n"
    then have "n < 8" by simp
    then show "bit b n = bit c n"
      using Cons.prems(3) crc_word_low [of n b bs] crc_word_low [of n c cs'] by simp
  qed
  then have "push_bit 8 (crc_word bs) = push_bit 8 (crc_word cs')"
    using Cons.prems(3) by simp
  then have "(crc_bit ^^ 8) (push_bit 8 (crc_word bs)) = (crc_bit ^^ 8) (push_bit 8 (crc_word cs'))"
    by (rule arg_cong)
  then have "crc_word bs = crc_word cs'"
    using Cons.prems by (subst (asm) crc_word_shift, simp, subst (asm) crc_word_shift) simp_all
  with Cons bc show ?case by simp
qed simp

lemma crc32c_burst:
  assumes "length bs \<le> 4" "length cs = length bs" "crc32c (p @ bs @ q) = crc32c (p @ cs @ q)"
  shows "bs = cs"
proof -
  let ?s = "fold crc_step p 0xFFFFFFFF"
  have "fold crc_step q (fold crc_step bs ?s) = fold crc_step q (fold crc_step cs ?s)"
    using assms(3) by (simp add: crc32c_def crc32c_extend_def)
  then have "fold crc_step bs ?s = fold crc_step cs ?s"
    by (rule fold_inj [rotated]) (rule inj_crc_step)
  then have "?s XOR crc_word bs = ?s XOR crc_word cs"
    using assms inj_crc_bit_pow [of "8 * length bs"] by (simp add: crc_fold_word inj_eq)
  then have "crc_word bs = crc_word cs" by simp
  with assms show ?thesis by (intro crc_word_inj) auto
qed

section \<open>Digests separate strings that differ in one byte\<close>

lemma odd_mult_inj:
  assumes "inv_a * a = (1 :: u64)"
  shows "inj (\<lambda>x. x * a)"
proof (rule injI)
  fix x y :: u64 assume "x * a = y * a"
  then have "x * (inv_a * a) = y * (inv_a * a)" by (metis mult.left_commute)
  then show "x = y" using assms by simp
qed

lemma inj_mult_fnv: "inj (\<lambda>x. x * kFnvPrime)"
  by (rule odd_mult_inj [of "0xCE965057AFF6957B"]) (simp add: kFnvPrime_def)

lemma ucast_inj_u64: "(ucast (x :: u8) :: u64) = ucast y \<longleftrightarrow> x = y"
  by (simp add: unsigned_ucast_eq word_unat_eq_iff [of "ucast x"] word_unat_eq_iff [of x]
      take_bit_nat_eq_self unsigned_less [THEN less_trans])

lemma inj_fnv_byte: "inj (fnv_byte byte)"
  by (rule injI) (simp add: fnv_byte_def inj_eq [OF inj_mult_fnv])

lemma fnv_byte_separates: "fnv_byte x s = fnv_byte y s \<longleftrightarrow> x = y"
  by (simp add: fnv_byte_def inj_eq [OF inj_mult_fnv] ucast_inj_u64)

lemma fnv1a64_single_byte: "fnv1a64 (p @ [x] @ q) = fnv1a64 (p @ [y] @ q) \<longleftrightarrow> x = y"
  using fold_inj [of q fnv_byte, OF inj_fnv_byte] fnv_byte_separates
  by (fastforce simp: fnv1a64_def)

section \<open>The mixer is a bijection\<close>

lemma inj_xorshift:
  assumes "0 < k"
  shows "inj (\<lambda>x :: u64. x XOR drop_bit k x)"
proof (rule injI)
  fix x y :: u64 assume "x XOR drop_bit k x = y XOR drop_bit k y"
  then have "(x XOR drop_bit k x) XOR (y XOR drop_bit k y) = 0"
    by (simp only: xor_self_eq)
  then have "(x XOR y) XOR drop_bit k (x XOR y) = 0"
    by (simp only: drop_bit_xor ac_simps)
  then have eq: "drop_bit k (x XOR y) = x XOR y" unfolding word_xor_eq_0_iff by (rule sym)
  have "unat (x XOR y) div 2 ^ k = unat (x XOR y)"
    using arg_cong [OF eq, of unat] unfolding unsigned_drop_bit_eq
    by (simp only: drop_bit_eq_div take_bit_nat_eq_self [OF unsigned_less])
  moreover have "(1 :: nat) < 2 ^ k" using assms by (rule one_less_power [rotated]) simp
  ultimately have "unat (x XOR y) = 0"
    by (metis div_less_dividend gr0I less_irrefl)
  then have "x XOR y = 0" by (simp add: unat_eq_0)
  then show "x = y" by (simp add: word_xor_eq_0_iff)
qed

lemma inj_mix64: "inj mix64"
proof -
  have a: "inj (\<lambda>x :: u64. x * 0xBF58476D1CE4E5B9)"
    by (rule odd_mult_inj [of "0x96DE1B173F119089"]) simp
  have b: "inj (\<lambda>x :: u64. x * 0x94D049BB133111EB)"
    by (rule odd_mult_inj [of "0x319642B2D24D8EC3"]) simp
  have "k \<noteq> 0 \<Longrightarrow> x XOR drop_bit k x = y XOR drop_bit k y \<longleftrightarrow> x = (y :: u64)" for k x y
    by (rule inj_eq [OF inj_xorshift]) simp
  then show ?thesis
    by (intro injI) (simp only: mix64_def Let_def inj_eq [OF a] inj_eq [OF b]
        rel_simps simp_thms add_right_cancel)
qed

lemma surj_mix64: "surj mix64"
  using inj_mix64 by (rule finite_UNIV_inj_surj [rotated]) simp

section \<open>The rejection loop returns\<close>

lemma draw_below_returns:
  assumes "mix64 (state + of_nat (Suc n) * 0x9E3779B97F4A7C15) < limit" and "0 < bound"
  shows "\<exists>v state'. draw_below limit bound state = Some (v, state') \<and> v < bound"
  using assms(1)
proof (induction n arbitrary: state)
  case 0
  with assms(2) show ?case
    by (subst draw_below.simps) (simp add: next_u64_def Let_def word_mod_less_divisor)
next
  case (Suc n)
  let ?s = "state + 0x9E3779B97F4A7C15"
  have "state + of_nat (Suc (Suc n)) * 0x9E3779B97F4A7C15 = ?s + of_nat (Suc n) * 0x9E3779B97F4A7C15"
    by (simp add: algebra_simps)
  then have "mix64 (?s + of_nat (Suc n) * 0x9E3779B97F4A7C15) < limit"
    using Suc.prems by (simp only:)
  then have "\<exists>v state'. draw_below limit bound ?s = Some (v, state') \<and> v < bound"
    by (rule Suc.IH)
  with assms(2) show ?case
    by (subst draw_below.simps) (auto simp: next_u64_def Let_def word_mod_less_divisor)
qed

lemma orbit_full: "\<exists>n. state + of_nat (Suc n) * 0x9E3779B97F4A7C15 = (target :: u64)"
proof -
  let ?w = "(target - state) * 0xF1DE83E19937733D"
  let ?n = "unat (?w - 1)"
  have "(of_nat (Suc ?n) :: u64) = ?w" by simp
  then have "state + of_nat (Suc ?n) * 0x9E3779B97F4A7C15
      = state + (target - state) * (0xF1DE83E19937733D * 0x9E3779B97F4A7C15)"
    by (simp only: mult.assoc)
  also have "\<dots> = target" 
  proof -
    have "(0xF1DE83E19937733D * 0x9E3779B97F4A7C15 :: u64) = 1" by simp
    then show ?thesis by (simp only: mult_1_right) simp
  qed
  finally show ?thesis ..
qed

lemma next_below_returns:
  assumes "0 < bound"
  shows "\<exists>v state'. next_below bound state = Some (v, state') \<and> v < bound"
proof -
  have "u64_max mod bound < bound" using assms by (rule word_mod_less_divisor)
  then have "u64_max mod bound \<noteq> u64_max" using word_n1_ge [of bound] by (metis leD)
  then have limit: "0 < u64_max - u64_max mod bound" by (simp add: word_pos_iff)
  obtain target where "mix64 target = 0" using surj_mix64 by (metis surj_def)
  moreover obtain n where "state + of_nat (Suc n) * 0x9E3779B97F4A7C15 = target"
    using orbit_full by blast
  ultimately show ?thesis
    using draw_below_returns [of state n] limit assms by (auto simp: next_below_def)
qed

end
