(* ===== verification/Records.thy ===== *)
theory Records
  imports Hash
begin

text \<open>
  The little-endian codecs, \<^verbatim>\<open>RecordWriter\<close> and \<^verbatim>\<open>RecordReader\<close> of \<^verbatim>\<open>src/journal.cpp\<close>.  A writer
  is its buffer, its limit and its sticky overflow flag; a reader is the bytes it has not consumed.
  \<open>writes\<close> and \<open>reads\<close> are the contracts of one field; the locale \<open>codec\<close> is the
  contract of a pair of routines that write and read one value, and every descriptor, message and
  snapshot codec of the runtime is an interpretation of it.
\<close>

section \<open>Little-endian integers\<close>

definition encode_u16_le :: "u16 \<Rightarrow> bytes" where
  "encode_u16_le value = le_bytes 2 value"

definition encode_u32_le :: "u32 \<Rightarrow> bytes" where
  "encode_u32_le value = le_bytes 4 value"

definition encode_u64_le :: "u64 \<Rightarrow> bytes" where
  "encode_u64_le value = le_bytes 8 value"

definition decode_le :: "nat \<Rightarrow> bytes \<Rightarrow> 'a::len word" where
  "decode_le n input = fold (\<lambda>index value. value OR push_bit (8 * index) (ucast (input ! index))) [0..<n] 0"

definition decode_u16_le :: "bytes \<Rightarrow> u16" where
  "decode_u16_le input = decode_le 2 input"

definition decode_u32_le :: "bytes \<Rightarrow> u32" where
  "decode_u32_le input = decode_le 4 input"

definition decode_u64_le :: "bytes \<Rightarrow> u64" where
  "decode_u64_le input = decode_le 8 input"

section \<open>\<^verbatim>\<open>RecordWriter\<close>\<close>

record record_writer =
  rw_buffer :: bytes
  rw_limit :: nat
  rw_overflowed :: bool

definition record_writer :: "nat \<Rightarrow> record_writer" where
  "record_writer limit = \<lparr>rw_buffer = [], rw_limit = limit, rw_overflowed = False\<rparr>"

type_synonym writing = "record_writer \<Rightarrow> record_writer"

definition rw_append :: "bytes \<Rightarrow> writing" where
  "rw_append raw w =
     (if rw_overflowed w \<or> length (rw_buffer w) + length raw > rw_limit w
      then w\<lparr>rw_overflowed := True\<rparr>
      else w\<lparr>rw_buffer := rw_buffer w @ raw\<rparr>)"

definition rw_u8 :: "u8 \<Rightarrow> writing" where
  "rw_u8 value = rw_append [value]"

definition rw_u16 :: "u16 \<Rightarrow> writing" where
  "rw_u16 value = rw_append (encode_u16_le value)"

definition rw_u32 :: "u32 \<Rightarrow> writing" where
  "rw_u32 value = rw_append (encode_u32_le value)"

definition rw_u64 :: "u64 \<Rightarrow> writing" where
  "rw_u64 value = rw_append (encode_u64_le value)"

definition rw_boolean :: "bool \<Rightarrow> writing" where
  "rw_boolean value = rw_u8 (if value then 1 else 0)"

definition rw_bytes :: "bytes \<Rightarrow> writing" where
  "rw_bytes value w =
     (if rw_overflowed w \<or> length value > rw_limit w
         \<or> length (rw_buffer w) + 8 + length value > rw_limit w
      then w\<lparr>rw_overflowed := True\<rparr>
      else (let w' = rw_u64 (of_nat (length value)) w
            in w'\<lparr>rw_buffer := rw_buffer w' @ value\<rparr>))"

definition rw_text :: "bytes \<Rightarrow> writing" where
  "rw_text value = rw_bytes value"

text \<open>Statements of a writing routine in sequence, and a loop over a container.\<close>

definition rw_seq :: "writing \<Rightarrow> writing \<Rightarrow> writing" where
  "rw_seq f g w = g (f w)"

definition rw_skip :: writing where
  "rw_skip w = w"

fun rw_each :: "('a \<Rightarrow> writing) \<Rightarrow> 'a list \<Rightarrow> writing" where
  "rw_each f [] = rw_skip"
| "rw_each f (x # xs) = rw_seq (f x) (rw_each f xs)"

fun rw_block :: "writing list \<Rightarrow> writing" where
  "rw_block [] = rw_skip"
| "rw_block (f # fs) = rw_seq f (rw_block fs)"

section \<open>\<^verbatim>\<open>RecordReader\<close>\<close>

type_synonym 'a reader = "bytes \<Rightarrow> ('a \<times> bytes) result"

definition rd_raw :: "nat \<Rightarrow> bytes reader" where
  "rd_raw count data =
     (if count > length data then Inl Truncated else Inr (take count data, drop count data))"

definition rd_bind :: "'a reader \<Rightarrow> ('a \<Rightarrow> 'b reader) \<Rightarrow> 'b reader" where
  "rd_bind r k data = try_assign (r data) (\<lambda>(x, rest). k x rest)"

definition rd_return :: "'a \<Rightarrow> 'a reader" where
  "rd_return x data = Inr (x, data)"

definition rd_fail :: "error_code \<Rightarrow> 'a reader" where
  "rd_fail e data = Inl e"

definition rd_u8 :: "u8 reader" where
  "rd_u8 = rd_bind (rd_raw 1) (\<lambda>view. rd_return (view ! 0))"

definition rd_u16 :: "u16 reader" where
  "rd_u16 = rd_bind (rd_raw 2) (\<lambda>view. rd_return (decode_u16_le view))"

definition rd_u32 :: "u32 reader" where
  "rd_u32 = rd_bind (rd_raw 4) (\<lambda>view. rd_return (decode_u32_le view))"

definition rd_u64 :: "u64 reader" where
  "rd_u64 = rd_bind (rd_raw 8) (\<lambda>view. rd_return (decode_u64_le view))"

definition rd_boolean :: "bool reader" where
  "rd_boolean = rd_bind rd_u8 (\<lambda>value.
     if value > 1 then rd_fail InvalidArgument else rd_return (value = 1))"

definition rd_bytes :: "bytes reader" where
  "rd_bytes = rd_bind rd_u64 (\<lambda>len data.
     if unat len > length data then Inl Truncated else rd_raw (unat len) data)"

definition rd_text :: "bytes reader" where
  "rd_text = rd_bytes"

text \<open>\<^verbatim>\<open>for (index = 0; index < count; ++index)\<close> with a value read on each turn.\<close>

fun rd_times :: "nat \<Rightarrow> 'a reader \<Rightarrow> 'a list reader" where
  "rd_times 0 r = rd_return []"
| "rd_times (Suc n) r = rd_bind r (\<lambda>x. rd_bind (rd_times n r) (\<lambda>xs. rd_return (x # xs)))"

section \<open>Integers survive the codecs\<close>

lemma length_le_bytes [simp]: "length (le_bytes n v) = n"
  by (simp add: le_bytes_def)

lemma length_encode [simp]:
  "length (encode_u16_le a) = 2" "length (encode_u32_le b) = 4" "length (encode_u64_le c) = 8"
  by (simp_all add: encode_u16_le_def encode_u32_le_def encode_u64_le_def)

lemma bit_le_bytes:
  "i < n \<Longrightarrow> bit (le_bytes n v ! i) k \<longleftrightarrow> k < 8 \<and> bit v (8 * i + k)"
  by (auto simp: le_bytes_def bit_unsigned_iff bit_drop_bit_eq ac_simps dest: bit_imp_le_length)

lemma bit_decode_le:
  "bit (fold (\<lambda>index value. value OR push_bit (8 * index) (ucast (input ! index))) xs
      (a :: 'a::len word)) j
   \<longleftrightarrow> bit a j \<or> (\<exists>i\<in>set xs. 8 * i \<le> j \<and> j < LENGTH('a) \<and> bit (input ! i :: u8) (j - 8 * i))"
  by (induction xs arbitrary: a)
    (auto simp: bit_or_iff bit_push_bit_iff bit_unsigned_iff dest: bit_imp_le_length)

lemma decode_le_bytes:
  assumes "LENGTH('a::len) = 8 * n"
  shows "decode_le n (le_bytes n v @ rest) = (v :: 'a word)"
proof (rule bit_word_eqI)
  fix j assume j: "j < LENGTH('a)"
  have "bit (decode_le n (le_bytes n v @ rest) :: 'a word) j
      \<longleftrightarrow> (\<exists>i<n. 8 * i \<le> j \<and> bit (le_bytes n v ! i) (j - 8 * i))"
    unfolding decode_le_def bit_decode_le using j by (auto simp: nth_append)
  also have "\<dots> \<longleftrightarrow> (\<exists>i<n. 8 * i \<le> j \<and> j < 8 * i + 8 \<and> bit v j)"
    by (auto simp: bit_le_bytes less_diff_conv2 add.commute)
  also have "\<dots> \<longleftrightarrow> bit v j"
  proof -
    have "j div 8 < n" "8 * (j div 8) \<le> j" "j < 8 * (j div 8) + 8"
      using j assms by (simp_all add: less_mult_imp_div_less mult.commute)
    then show ?thesis by blast
  qed
  finally show "bit (decode_le n (le_bytes n v @ rest) :: 'a word) j = bit v j" .
qed

lemma decode_encode [simp, codec_simps]:
  "decode_u16_le (encode_u16_le a @ rest) = a"
  "decode_u32_le (encode_u32_le b @ rest) = b"
  "decode_u64_le (encode_u64_le c @ rest) = c"
  by (simp_all add: decode_u16_le_def encode_u16_le_def decode_u32_le_def encode_u32_le_def
      decode_u64_le_def encode_u64_le_def decode_le_bytes)

lemma decode_encode' [simp, codec_simps]:
  "decode_u16_le (encode_u16_le a) = a"
  "decode_u32_le (encode_u32_le b) = b"
  "decode_u64_le (encode_u64_le c) = c"
  using decode_encode [of _ "[]"] by simp_all

section \<open>Contracts of fields\<close>

definition writes :: "writing \<Rightarrow> bytes \<Rightarrow> bool" where
  "writes f bs \<longleftrightarrow> (\<forall>w. length (rw_buffer w) \<le> rw_limit w \<longrightarrow>
     rw_limit (f w) = rw_limit w \<and> length (rw_buffer (f w)) \<le> rw_limit w \<and>
     (if rw_overflowed w \<or> length (rw_buffer w) + length bs > rw_limit w
      then rw_overflowed (f w)
      else f w = w\<lparr>rw_buffer := rw_buffer w @ bs\<rparr>))"

definition reads :: "'a reader \<Rightarrow> bytes \<Rightarrow> 'a \<Rightarrow> bool" where
  "reads r bs x \<longleftrightarrow> (\<forall>rest. r (bs @ rest) = Inr (x, rest))"

named_theorems writes_intros \<open>what each writing routine appends\<close>

lemma writes_append: "writes (rw_append bs) bs"
  by (simp add: writes_def rw_append_def)

lemma writes_u8 [writes_intros]: "writes (rw_u8 v) [v]"
  unfolding rw_u8_def by (rule writes_append)

lemma writes_u16 [writes_intros]: "writes (rw_u16 v) (encode_u16_le v)"
  unfolding rw_u16_def by (rule writes_append)

lemma writes_u32 [writes_intros]: "writes (rw_u32 v) (encode_u32_le v)"
  unfolding rw_u32_def by (rule writes_append)

lemma writes_u64 [writes_intros]: "writes (rw_u64 v) (encode_u64_le v)"
  unfolding rw_u64_def by (rule writes_append)

lemma writes_boolean [writes_intros]: "writes (rw_boolean v) [if v then 1 else 0]"
  unfolding rw_boolean_def by (rule writes_u8)

lemma writes_bytes [writes_intros]:
  "writes (rw_bytes v) (encode_u64_le (of_nat (length v)) @ v)"
  by (auto simp: writes_def rw_bytes_def rw_u64_def rw_append_def Let_def)

lemma writes_text [writes_intros]:
  "writes (rw_text v) (encode_u64_le (of_nat (length v)) @ v)"
  unfolding rw_text_def by (rule writes_bytes)

lemma writes_skip [writes_intros]: "writes rw_skip []"
  by (simp add: writes_def rw_skip_def)

lemma writes_seq [writes_intros]:
  assumes "writes f a" "writes g b"
  shows "writes (rw_seq f g) (a @ b)"
  unfolding writes_def rw_seq_def
proof (intro allI impI)
  fix w :: record_writer assume w: "length (rw_buffer w) \<le> rw_limit w"
  have f: "rw_limit (f w) = rw_limit w" "length (rw_buffer (f w)) \<le> rw_limit w"
    "if rw_overflowed w \<or> length (rw_buffer w) + length a > rw_limit w then rw_overflowed (f w)
     else f w = w\<lparr>rw_buffer := rw_buffer w @ a\<rparr>"
    using assms(1) w by (auto simp: writes_def)
  have g: "rw_limit (g (f w)) = rw_limit w" "length (rw_buffer (g (f w))) \<le> rw_limit w"
    "if rw_overflowed (f w) \<or> length (rw_buffer (f w)) + length b > rw_limit w
     then rw_overflowed (g (f w))
     else g (f w) = (f w)\<lparr>rw_buffer := rw_buffer (f w) @ b\<rparr>"
    using assms(2) f(1,2) unfolding writes_def by (metis, metis, metis)
  show "rw_limit (g (f w)) = rw_limit w \<and> length (rw_buffer (g (f w))) \<le> rw_limit w \<and>
    (if rw_overflowed w \<or> rw_limit w < length (rw_buffer w) + length (a @ b)
     then rw_overflowed (g (f w)) else g (f w) = w\<lparr>rw_buffer := rw_buffer w @ a @ b\<rparr>)"
    using f(3) g by (auto split: if_splits)
qed

lemma writes_block [writes_intros]:
  "writes (rw_block []) []"
  "writes f a \<Longrightarrow> writes (rw_block fs) b \<Longrightarrow> writes (rw_block (f # fs)) (a @ b)"
  by (simp_all add: writes_skip writes_seq)

lemma writes_each:
  "(\<And>x. x \<in> set xs \<Longrightarrow> writes (f x) (enc x)) \<Longrightarrow> writes (rw_each f xs) (concat (map enc xs))"
  by (induction xs) (auto intro: writes_intros)

lemma writes_buffer:
  assumes "writes f bs" "\<not> rw_overflowed (f (record_writer limit))"
  shows "rw_buffer (f (record_writer limit)) = bs" "length bs \<le> limit"
  using assms by (auto simp: writes_def record_writer_def dest!: spec [of _ "record_writer limit"]
      split: if_splits)

lemma writes_fits:
  assumes "writes f bs" "length bs \<le> limit"
  shows "\<not> rw_overflowed (f (record_writer limit))"
  using assms by (auto simp: writes_def record_writer_def dest!: spec [of _ "record_writer limit"])

lemma rd_bind_apply [simp, codec_simps]:
  "rd_bind r k data = (case r data of Inl e \<Rightarrow> Inl e | Inr (x, rest) \<Rightarrow> k x rest)"
  by (simp add: rd_bind_def try_assign_def split: sum.splits prod.splits)

lemma rd_return_apply [simp, codec_simps]: "rd_return x data = Inr (x, data)"
  by (simp add: rd_return_def)

lemma rd_fail_apply [simp, codec_simps]: "rd_fail e data = Inl e"
  by (simp add: rd_fail_def)

lemma rd_ints [simp, codec_simps]:
  "rd_u8 (v # rest) = Inr (v, rest)"
  "rd_u16 (encode_u16_le a @ rest) = Inr (a, rest)"
  "rd_u32 (encode_u32_le b @ rest) = Inr (b, rest)"
  "rd_u64 (encode_u64_le c @ rest) = Inr (c, rest)"
  by (simp_all add: rd_u8_def rd_u16_def rd_u32_def rd_u64_def rd_raw_def)

lemma rd_boolean_roundtrip [simp, codec_simps]:
  "rd_boolean ((if b then 1 else 0) # rest) = Inr (b, rest)"
  by (simp add: rd_boolean_def)

lemma rd_bytes_roundtrip [simp, codec_simps]:
  "length v < 2 ^ 64 \<Longrightarrow>
   rd_bytes (encode_u64_le (of_nat (length v)) @ v @ rest) = Inr (v, rest)"
  by (simp add: rd_bytes_def rd_raw_def unat_of_nat_u64)

lemma rd_text_roundtrip [simp, codec_simps]:
  "length v < 2 ^ 64 \<Longrightarrow>
   rd_text (encode_u64_le (of_nat (length v)) @ v @ rest) = Inr (v, rest)"
  by (simp add: rd_text_def)

lemma rd_times_roundtrip:
  "(\<And>x. x \<in> set xs \<Longrightarrow> reads r (enc x) x) \<Longrightarrow>
   rd_times (length xs) r (concat (map enc xs) @ rest) = Inr (xs, rest)"
  by (induction xs) (auto simp: reads_def)

section \<open>The contract of a codec\<close>

locale codec =
  fixes put :: "'a \<Rightarrow> writing" and get :: "'a reader" and valid :: "'a \<Rightarrow> bool"
  assumes encodes: "\<exists>bs. writes (put x) bs \<and> (valid x \<longrightarrow> reads get bs x)"
begin

lemma roundtrip:
  assumes "valid x" "\<not> rw_overflowed (put x (record_writer limit))"
  shows "get (rw_buffer (put x (record_writer limit)) @ rest) = Inr (x, rest)"
  using assms encodes [of x] writes_buffer(1) by (fastforce simp: reads_def)

lemma unambiguous:
  assumes "valid x" "valid y"
    and "\<not> rw_overflowed (put x (record_writer m))" "\<not> rw_overflowed (put y (record_writer n))"
    and "rw_buffer (put x (record_writer m)) @ a = rw_buffer (put y (record_writer n)) @ b"
  shows "x = y \<and> a = b"
  using roundtrip [OF assms(1,3), of a] roundtrip [OF assms(2,4), of b] assms(5) by simp

lemma roundtrip_list:
  assumes "\<And>x. x \<in> set xs \<Longrightarrow> valid x"
  shows "\<exists>bs. writes (rw_each put xs) bs \<and> (\<forall>rest. rd_times (length xs) get (bs @ rest) = Inr (xs, rest))"
proof -
  obtain enc where enc: "\<And>x. writes (put x) (enc x) \<and> (valid x \<longrightarrow> reads get (enc x) x)"
    using encodes by metis
  have "writes (rw_each put xs) (concat (map enc xs))" by (rule writes_each) (simp add: enc)
  moreover have "rd_times (length xs) get (concat (map enc xs) @ rest) = Inr (xs, rest)" for rest
    using assms enc by (intro rd_times_roundtrip) blast
  ultimately show ?thesis by blast
qed

end

end
