(* ===== verification/Model.thy ===== *)
theory Model
  imports Records
begin

text \<open>
  \<^verbatim>\<open>include/flow_scheduler/model.hpp\<close> and \<^verbatim>\<open>src/model.cpp\<close>: the descriptors the runtime is
  given, the lifecycle of a flow, the validation that every descriptor passes before it can
  influence arbitration, and the digests over descriptors.  The fields of each struct carry a
  prefix of their own, since a record field is a global name.
\<close>

section \<open>Bounds\<close>

definition kMaxFlows :: u32 where "kMaxFlows = 0x100000"
definition kMaxResources :: u32 where "kMaxResources = 0x10000"
definition kMaxReservations :: u32 where "kMaxReservations = 0x40000"
definition kMaxPriorityClasses :: u32 where "kMaxPriorityClasses = 0x1000"
definition kMaxQoSClasses :: u32 where "kMaxQoSClasses = 0x1000"
definition kMaxDependenciesPerFlow :: u32 where "kMaxDependenciesPerFlow = 4096"
definition kMaxEntriesPerSchedule :: u32 where "kMaxEntriesPerSchedule = 0x10000"
definition kMaxServiceUnits :: u64 where "kMaxServiceUnits = 0x1000000000000"
definition kMaxQuantum :: u64 where "kMaxQuantum = 0x10000000000"
definition kMaxTickHorizon :: u64 where "kMaxTickHorizon = 0x1000000000000000"
definition kMaxExplanationBytes :: nat where "kMaxExplanationBytes = 2048"

lemmas bound_defs = kMaxFlows_def kMaxResources_def kMaxReservations_def kMaxPriorityClasses_def
  kMaxQoSClasses_def kMaxDependenciesPerFlow_def kMaxEntriesPerSchedule_def kMaxServiceUnits_def
  kMaxQuantum_def kMaxTickHorizon_def kMaxExplanationBytes_def

section \<open>Bindings and descriptors\<close>

text \<open>
  The five binding structs differ only in the family of the identity they carry; each is an
  instance of one record.
\<close>

record 'tag binding =
  bd_id :: "'tag ident"
  bd_generation :: generation

type_synonym resource_binding = "resource_tag binding"
type_synonym path_binding = "path_tag binding"
type_synonym reservation_binding = "reservation_tag binding"
type_synonym priority_binding = "priority_class_tag binding"
type_synonym qos_binding = "qos_class_tag binding"

definition bound :: "'tag binding \<Rightarrow> bool" where
  "bound b \<longleftrightarrow> id_valid (bd_id b) \<and> id_valid (bd_generation b)"

record resource_descriptor =
  res_resource :: resource_id
  res_generation :: generation
  res_capacity :: u64
  res_interval :: ticks
  res_max_overlap :: u64
  res_provenance :: provenance

record reservation_descriptor =
  rsv_reservation :: reservation_id
  rsv_generation :: generation
  rsv_resource :: resource_id
  rsv_resource_generation :: generation
  rsv_window_begin :: ticks
  rsv_window_end :: ticks
  rsv_capacity :: u64
  rsv_exclusive :: bool
  rsv_provenance :: provenance

record priority_class_descriptor =
  prio_priority :: priority_class_id
  prio_generation :: generation
  prio_rank :: u32
  prio_weight :: u64
  prio_provenance :: provenance

record qos_class_descriptor =
  qos_qos :: qos_class_id
  qos_generation :: generation
  qos_preemption_protected :: bool
  qos_max_service_per_dispatch :: u64
  qos_provenance :: provenance

record flow_descriptor =
  fd_flow :: flow_id
  fd_generation :: generation
  fd_path :: path_binding
  fd_resource :: resource_binding
  fd_reservation :: reservation_binding
  fd_priority :: priority_binding
  fd_qos :: qos_binding
  fd_fairness_group :: fairness_group_id
  fd_estimated_work :: u64
  fd_service_quantum :: u64
  fd_min_service :: u64
  fd_min_service_window :: ticks
  fd_release_tick :: ticks
  fd_deadline_tick :: ticks
  fd_weight :: u64
  fd_preemptible :: bool
  fd_auto_ready :: bool
  fd_readiness_signal :: u8
  fd_dependencies :: "flow_id list"
  fd_trace :: trace_id
  fd_provenance :: provenance

section \<open>Lifecycle\<close>

datatype flow_lifecycle =
    FlowWaiting | FlowReady | FlowScheduled | FlowDispatched | FlowRunning
  | FlowCompletionReported | FlowCompleted | FlowCancelling | FlowCancelled | FlowPreempting
  | FlowFailed | FlowAmbiguous

datatype accounting_bucket =
    BucketWaiting | BucketReady | BucketScheduled | BucketInFlight | BucketCompleted
  | BucketCancelled | BucketFailed | BucketAmbiguous

fun lifecycle_text :: "flow_lifecycle \<Rightarrow> string" where
  "lifecycle_text FlowWaiting = ''waiting''"
| "lifecycle_text FlowReady = ''ready''"
| "lifecycle_text FlowScheduled = ''scheduled''"
| "lifecycle_text FlowDispatched = ''dispatched''"
| "lifecycle_text FlowRunning = ''running''"
| "lifecycle_text FlowCompletionReported = ''completion-reported''"
| "lifecycle_text FlowCompleted = ''completed''"
| "lifecycle_text FlowCancelling = ''cancelling''"
| "lifecycle_text FlowCancelled = ''cancelled''"
| "lifecycle_text FlowPreempting = ''preempting''"
| "lifecycle_text FlowFailed = ''failed''"
| "lifecycle_text FlowAmbiguous = ''ambiguous''"

definition is_terminal :: "flow_lifecycle \<Rightarrow> bool" where
  "is_terminal lifecycle \<longleftrightarrow>
     lifecycle = FlowCompleted \<or> lifecycle = FlowCancelled \<or> lifecycle = FlowFailed"

fun holds_open_work :: "flow_lifecycle \<Rightarrow> bool" where
  "holds_open_work FlowDispatched = True"
| "holds_open_work FlowRunning = True"
| "holds_open_work FlowCompletionReported = True"
| "holds_open_work FlowCancelling = True"
| "holds_open_work FlowPreempting = True"
| "holds_open_work _ = False"

fun bucket_of :: "flow_lifecycle \<Rightarrow> accounting_bucket" where
  "bucket_of FlowWaiting = BucketWaiting"
| "bucket_of FlowReady = BucketReady"
| "bucket_of FlowScheduled = BucketScheduled"
| "bucket_of FlowDispatched = BucketInFlight"
| "bucket_of FlowRunning = BucketInFlight"
| "bucket_of FlowCompletionReported = BucketInFlight"
| "bucket_of FlowCancelling = BucketInFlight"
| "bucket_of FlowPreempting = BucketInFlight"
| "bucket_of FlowCompleted = BucketCompleted"
| "bucket_of FlowCancelled = BucketCancelled"
| "bucket_of FlowFailed = BucketFailed"
| "bucket_of FlowAmbiguous = BucketAmbiguous"

text \<open>The numbering of the enumeration, which the durable state and the digests use.\<close>

definition lifecycles :: "flow_lifecycle list" where
  "lifecycles = [FlowWaiting, FlowReady, FlowScheduled, FlowDispatched, FlowRunning,
     FlowCompletionReported, FlowCompleted, FlowCancelling, FlowCancelled, FlowPreempting,
     FlowFailed, FlowAmbiguous]"

fun lifecycle_code :: "flow_lifecycle \<Rightarrow> u8" where
  "lifecycle_code FlowWaiting = 0"
| "lifecycle_code FlowReady = 1"
| "lifecycle_code FlowScheduled = 2"
| "lifecycle_code FlowDispatched = 3"
| "lifecycle_code FlowRunning = 4"
| "lifecycle_code FlowCompletionReported = 5"
| "lifecycle_code FlowCompleted = 6"
| "lifecycle_code FlowCancelling = 7"
| "lifecycle_code FlowCancelled = 8"
| "lifecycle_code FlowPreempting = 9"
| "lifecycle_code FlowFailed = 10"
| "lifecycle_code FlowAmbiguous = 11"

record flow_accounting =
  fa_service_credit :: u64
  fa_dispatches_issued :: u64
  fa_dispatches_started :: u64
  fa_completions_committed :: u64
  fa_duplicate_completions :: u64
  fa_rejected_completions :: u64
  fa_preemptions :: u64
  fa_deadline_misses :: u64
  fa_wait_ticks_total :: u64
  fa_starvation_boosts :: u64

definition zero_accounting :: flow_accounting where
  "zero_accounting = \<lparr>fa_service_credit = 0, fa_dispatches_issued = 0, fa_dispatches_started = 0,
     fa_completions_committed = 0, fa_duplicate_completions = 0, fa_rejected_completions = 0,
     fa_preemptions = 0, fa_deadline_misses = 0, fa_wait_ticks_total = 0, fa_starvation_boosts = 0\<rparr>"

record flow_snapshot =
  fsn_flow :: flow_id
  fsn_generation :: generation
  fsn_lifecycle :: flow_lifecycle
  fsn_estimated_work :: u64
  fsn_served_work :: u64
  fsn_outstanding_reserved :: u64
  fsn_release_tick :: ticks
  fsn_deadline_tick :: ticks
  fsn_last_change_tick :: ticks
  fsn_eligible_since_tick :: ticks
  fsn_open_attempt :: attempt_id
  fsn_accounting :: flow_accounting
  fsn_provenance :: provenance

section \<open>Validation\<close>

definition validate_resource :: "resource_descriptor \<Rightarrow> status" where
  "validate_resource d = guards [
     (\<not> id_valid (res_resource d), InvalidArgument),
     (\<not> id_valid (res_generation d), InvalidArgument),
     (res_capacity d = 0 \<or> res_capacity d > kMaxServiceUnits, OutOfRange),
     (res_interval d = 0 \<or> res_interval d > kMaxTickHorizon, OutOfRange),
     (res_max_overlap d = 0 \<or> res_max_overlap d > kMaxServiceUnits, OutOfRange),
     (\<not> established (res_provenance d), InvalidArgument)]"

definition validate_reservation :: "reservation_descriptor \<Rightarrow> status" where
  "validate_reservation d = guards [
     (\<not> id_valid (rsv_reservation d), InvalidArgument),
     (\<not> id_valid (rsv_generation d), InvalidArgument),
     (\<not> id_valid (rsv_resource d) \<or> \<not> id_valid (rsv_resource_generation d), InvalidArgument),
     (rsv_window_end d \<le> rsv_window_begin d, InvalidArgument),
     (rsv_window_end d > kMaxTickHorizon \<or> rsv_window_begin d > kMaxTickHorizon, OutOfRange),
     (rsv_capacity d = 0 \<or> rsv_capacity d > kMaxServiceUnits, OutOfRange),
     (\<not> established (rsv_provenance d), InvalidArgument)]"

definition validate_priority :: "priority_class_descriptor \<Rightarrow> status" where
  "validate_priority d = guards [
     (\<not> id_valid (prio_priority d), InvalidArgument),
     (\<not> id_valid (prio_generation d), InvalidArgument),
     (prio_weight d = 0 \<or> prio_weight d > kMaxServiceUnits, OutOfRange),
     (\<not> established (prio_provenance d), InvalidArgument)]"

definition validate_qos :: "qos_class_descriptor \<Rightarrow> status" where
  "validate_qos d = guards [
     (\<not> id_valid (qos_qos d), InvalidArgument),
     (\<not> id_valid (qos_generation d), InvalidArgument),
     (qos_max_service_per_dispatch d > kMaxQuantum, OutOfRange),
     (\<not> established (qos_provenance d), InvalidArgument)]"

text \<open>\<^verbatim>\<open>std::adjacent_find\<close>: two equal neighbours.\<close>

fun adjacent_find :: "'a list \<Rightarrow> bool" where
  "adjacent_find (x # y # xs) = (x = y \<or> adjacent_find (y # xs))"
| "adjacent_find _ = False"

definition validate_flow :: "flow_descriptor \<Rightarrow> status" where
  "validate_flow d = (let sorted = sort (fd_dependencies d) in guards [
     (\<not> id_valid (fd_flow d), InvalidArgument),
     (\<not> id_valid (fd_generation d), InvalidArgument),
     (\<not> bound (fd_path d), InvalidArgument),
     (\<not> bound (fd_resource d), InvalidArgument),
     (\<not> bound (fd_priority d), InvalidArgument),
     (\<not> bound (fd_qos d), InvalidArgument),
     (\<not> id_valid (fd_fairness_group d), InvalidArgument),
     (id_valid (bd_id (fd_reservation d)) \<noteq> id_valid (bd_generation (fd_reservation d)),
       InvalidArgument),
     (fd_estimated_work d = 0 \<or> fd_estimated_work d > kMaxServiceUnits, OutOfRange),
     (fd_service_quantum d = 0 \<or> fd_service_quantum d > kMaxQuantum, OutOfRange),
     (fd_min_service d > fd_estimated_work d, InvalidArgument),
     (fd_min_service d > 0 \<and> fd_min_service_window d = 0, InvalidArgument),
     (fd_min_service_window d > kMaxTickHorizon, OutOfRange),
     (fd_release_tick d > kMaxTickHorizon, OutOfRange),
     (has_deadline (fd_deadline_tick d) \<and> fd_deadline_tick d > kMaxTickHorizon, OutOfRange),
     (has_deadline (fd_deadline_tick d) \<and> fd_deadline_tick d \<le> fd_release_tick d, InvalidArgument),
     (fd_weight d = 0 \<or> fd_weight d > kMaxServiceUnits, OutOfRange),
     (length (fd_dependencies d) > unat kMaxDependenciesPerFlow, Bounded),
     (fd_readiness_signal d > 2, InvalidArgument),
     (adjacent_find sorted, InvalidArgument),
     (fd_flow d \<in> set sorted, InvalidArgument),
     (list_ex (\<lambda>dependency. \<not> id_valid dependency) (fd_dependencies d), InvalidArgument),
     (\<not> established (fd_provenance d), InvalidArgument)])"

section \<open>Digests\<close>

text \<open>\<^verbatim>\<open>Digest64 digest; digest.add_...; return digest.value();\<close>\<close>

definition digest64 :: "(digest64 \<Rightarrow> digest64) list \<Rightarrow> u64" where
  "digest64 adds = fold (\<lambda>add. add) adds 0xCBF29CE484222325"

definition digest_of_resource :: "resource_descriptor \<Rightarrow> u64" where
  "digest_of_resource d = digest64 [
     add_u64 (id_value (res_resource d)), add_u64 (id_value (res_generation d)),
     add_u64 (res_capacity d), add_u64 (res_interval d), add_u64 (res_max_overlap d)]"

definition digest_of_reservation :: "reservation_descriptor \<Rightarrow> u64" where
  "digest_of_reservation d = digest64 [
     add_u64 (id_value (rsv_reservation d)), add_u64 (id_value (rsv_generation d)),
     add_u64 (id_value (rsv_resource d)), add_u64 (id_value (rsv_resource_generation d)),
     add_u64 (rsv_window_begin d), add_u64 (rsv_window_end d), add_u64 (rsv_capacity d),
     add_bool (rsv_exclusive d)]"

definition digest_of_priority :: "priority_class_descriptor \<Rightarrow> u64" where
  "digest_of_priority d = digest64 [
     add_u64 (id_value (prio_priority d)), add_u64 (id_value (prio_generation d)),
     add_u32 (prio_rank d), add_u64 (prio_weight d)]"

definition digest_of_qos :: "qos_class_descriptor \<Rightarrow> u64" where
  "digest_of_qos d = digest64 [
     add_u64 (id_value (qos_qos d)), add_u64 (id_value (qos_generation d)),
     add_bool (qos_preemption_protected d), add_u64 (qos_max_service_per_dispatch d)]"

definition digest_of_flow :: "flow_descriptor \<Rightarrow> u64" where
  "digest_of_flow d = digest64 ([
     add_u64 (id_value (fd_flow d)),
     add_u64 (id_value (fd_generation d)),
     add_u64 (id_value (bd_id (fd_path d))),
     add_u64 (id_value (bd_generation (fd_path d))),
     add_u64 (id_value (bd_id (fd_resource d))),
     add_u64 (id_value (bd_generation (fd_resource d))),
     add_u64 (id_value (bd_id (fd_reservation d))),
     add_u64 (id_value (bd_generation (fd_reservation d))),
     add_u64 (id_value (bd_id (fd_priority d))),
     add_u64 (id_value (bd_generation (fd_priority d))),
     add_u64 (id_value (bd_id (fd_qos d))),
     add_u64 (id_value (bd_generation (fd_qos d))),
     add_u64 (id_value (fd_fairness_group d)),
     add_u64 (fd_estimated_work d),
     add_u64 (fd_service_quantum d),
     add_u64 (fd_min_service d),
     add_u64 (fd_min_service_window d),
     add_u64 (fd_release_tick d),
     add_u64 (fd_deadline_tick d),
     add_u64 (fd_weight d),
     add_bool (fd_preemptible d),
     add_bool (fd_auto_ready d),
     add_u8 (fd_readiness_signal d),
     add_u64 (of_nat (length (fd_dependencies d)))]
     @ map (\<lambda>dependency. add_u64 (id_value dependency)) (sort (fd_dependencies d))
     @ [add_u64 (id_value (fd_trace d))])"

section \<open>Reservation windows\<close>

definition window_contains :: "reservation_descriptor \<Rightarrow> ticks \<Rightarrow> bool" where
  "window_contains r tick \<longleftrightarrow> tick \<ge> rsv_window_begin r \<and> tick < rsv_window_end r"

definition reservation_grant_at :: "reservation_descriptor \<Rightarrow> ticks \<Rightarrow> u64" where
  "reservation_grant_at r tick = (if window_contains r tick then rsv_capacity r else 0)"

section \<open>Facts on the lifecycle\<close>

lemma holds_open_work_bucket: "holds_open_work l \<longleftrightarrow> bucket_of l = BucketInFlight"
  by (cases l) simp_all

lemma terminal_not_open: "is_terminal l \<Longrightarrow> \<not> holds_open_work l"
  by (auto simp: is_terminal_def)

lemma terminal_simps [simp]:
  "is_terminal FlowCompleted" "is_terminal FlowCancelled" "is_terminal FlowFailed"
  "\<not> is_terminal FlowWaiting" "\<not> is_terminal FlowReady" "\<not> is_terminal FlowScheduled"
  "\<not> is_terminal FlowDispatched" "\<not> is_terminal FlowRunning"
  "\<not> is_terminal FlowCompletionReported" "\<not> is_terminal FlowCancelling"
  "\<not> is_terminal FlowPreempting" "\<not> is_terminal FlowAmbiguous"
  by (simp_all add: is_terminal_def)

lemma lifecycle_code_inj: "lifecycle_code a = lifecycle_code b \<longleftrightarrow> a = b"
  by (cases a; cases b) simp_all

lemma lifecycle_code_decodes: "lifecycles ! unat (lifecycle_code l) = l"
  by (cases l) (simp_all add: lifecycles_def)

lemma lifecycle_code_bound: "lifecycle_code l \<le> 11"
  by (cases l) simp_all

section \<open>What validation establishes\<close>

lemma adjacent_find_sorted: "sorted xs \<Longrightarrow> adjacent_find xs \<longleftrightarrow> \<not> distinct xs"
  by (induction xs rule: adjacent_find.induct) (auto simp: le_less)

lemma validate_resource_Ok:
  "validate_resource d = Ok \<longleftrightarrow>
     id_valid (res_resource d) \<and> id_valid (res_generation d) \<and>
     res_capacity d \<in> {1..kMaxServiceUnits} \<and> res_interval d \<in> {1..kMaxTickHorizon} \<and>
     res_max_overlap d \<in> {1..kMaxServiceUnits} \<and> established (res_provenance d)"
  by (auto simp: validate_resource_def not_less word_one_le_iff)

lemma validate_reservation_Ok:
  "validate_reservation d = Ok \<longleftrightarrow>
     id_valid (rsv_reservation d) \<and> id_valid (rsv_generation d) \<and> id_valid (rsv_resource d) \<and>
     id_valid (rsv_resource_generation d) \<and> rsv_window_begin d < rsv_window_end d \<and>
     rsv_window_end d \<le> kMaxTickHorizon \<and> rsv_capacity d \<in> {1..kMaxServiceUnits} \<and>
     established (rsv_provenance d)"
  by (auto simp: validate_reservation_def not_less not_le word_one_le_iff)

lemma validate_flow_Ok:
  "validate_flow d = Ok \<longleftrightarrow>
     id_valid (fd_flow d) \<and> id_valid (fd_generation d) \<and> bound (fd_path d) \<and>
     bound (fd_resource d) \<and> bound (fd_priority d) \<and> bound (fd_qos d) \<and>
     id_valid (fd_fairness_group d) \<and>
     (id_valid (bd_id (fd_reservation d)) \<longleftrightarrow> id_valid (bd_generation (fd_reservation d))) \<and>
     fd_estimated_work d \<in> {1..kMaxServiceUnits} \<and> fd_service_quantum d \<in> {1..kMaxQuantum} \<and>
     fd_min_service d \<le> fd_estimated_work d \<and>
     (fd_min_service d = 0 \<or> fd_min_service_window d \<noteq> 0) \<and>
     fd_min_service_window d \<le> kMaxTickHorizon \<and> fd_release_tick d \<le> kMaxTickHorizon \<and>
     (has_deadline (fd_deadline_tick d) \<longrightarrow>
        fd_release_tick d < fd_deadline_tick d \<and> fd_deadline_tick d \<le> kMaxTickHorizon) \<and>
     fd_weight d \<in> {1..kMaxServiceUnits} \<and> length (fd_dependencies d) \<le> 4096 \<and>
     fd_readiness_signal d \<le> 2 \<and> distinct (fd_dependencies d) \<and>
     fd_flow d \<notin> set (fd_dependencies d) \<and> (\<forall>i \<in> set (fd_dependencies d). id_valid i) \<and>
     established (fd_provenance d)"
  unfolding validate_flow_def Let_def guards.simps
  by (auto simp: adjacent_find_sorted kMaxDependenciesPerFlow_def list_ex_iff not_less not_le
      word_one_le_iff word_pos_iff split: if_splits)

end
