(* ===== verification/Schedule.thy ===== *)
theory Schedule
  imports Model
begin

text \<open>
  \<^verbatim>\<open>include/flow_scheduler/schedule.hpp\<close>, \<^verbatim>\<open>include/flow_scheduler/policy.hpp\<close> and
  \<^verbatim>\<open>src/schedule.cpp\<close>: the result of one arbitration round, its digest and canonical rendering,
  and the policy that parameterises arbitration.
\<close>

section \<open>Decisions\<close>

datatype decision_kind = KindRun | KindPreempt

fun kind_text :: "decision_kind \<Rightarrow> string" where
  "kind_text KindRun = ''run''"
| "kind_text KindPreempt = ''preempt''"

fun kind_code :: "decision_kind \<Rightarrow> u8" where
  "kind_code KindRun = 0"
| "kind_code KindPreempt = 1"

datatype decision_reason =
    ReasonSelected | ReasonAwaitingRelease | ReasonAwaitingDependency
  | ReasonAwaitingReservationWindow | ReasonReservationWindowClosed | ReasonResourceCapacityExhausted
  | ReasonConcurrencyLimitReached | ReasonDeadlineMissed | ReasonScheduleEntryLimitReached
  | ReasonDisplacedByHigherAuthority | ReasonPreemptionThrottled | ReasonIncumbentNotPreemptible
  | ReasonNoLegalQuantum | ReasonAlreadyInFlight | ReasonTerminal
  | ReasonAmbiguousRequiresResolution | ReasonAwaitingReadinessSignal | ReasonDeliveryHorizonExpired
  | ReasonResourceUnavailable | ReasonPreemptionDisabled | ReasonPreemptionNotAuthorized
  | ReasonReservationExhausted | ReasonDependencyFailed

fun reason_text :: "decision_reason \<Rightarrow> string" where
  "reason_text ReasonSelected = ''selected''"
| "reason_text ReasonAwaitingRelease = ''awaiting-release''"
| "reason_text ReasonAwaitingDependency = ''awaiting-dependency''"
| "reason_text ReasonAwaitingReservationWindow = ''awaiting-reservation-window''"
| "reason_text ReasonReservationWindowClosed = ''reservation-window-closed''"
| "reason_text ReasonResourceCapacityExhausted = ''resource-capacity-exhausted''"
| "reason_text ReasonConcurrencyLimitReached = ''concurrency-limit-reached''"
| "reason_text ReasonDeadlineMissed = ''deadline-missed''"
| "reason_text ReasonScheduleEntryLimitReached = ''schedule-entry-limit-reached''"
| "reason_text ReasonDisplacedByHigherAuthority = ''displaced-by-higher-authority''"
| "reason_text ReasonPreemptionThrottled = ''preemption-throttled''"
| "reason_text ReasonIncumbentNotPreemptible = ''incumbent-not-preemptible''"
| "reason_text ReasonNoLegalQuantum = ''no-legal-quantum''"
| "reason_text ReasonAlreadyInFlight = ''already-in-flight''"
| "reason_text ReasonTerminal = ''terminal''"
| "reason_text ReasonAmbiguousRequiresResolution = ''ambiguous-requires-resolution''"
| "reason_text ReasonAwaitingReadinessSignal = ''awaiting-readiness-signal''"
| "reason_text ReasonDeliveryHorizonExpired = ''delivery-horizon-expired''"
| "reason_text ReasonResourceUnavailable = ''resource-unavailable''"
| "reason_text ReasonPreemptionDisabled = ''preemption-disabled''"
| "reason_text ReasonPreemptionNotAuthorized = ''preemption-not-authorized''"
| "reason_text ReasonReservationExhausted = ''reservation-exhausted''"
| "reason_text ReasonDependencyFailed = ''dependency-failed''"

definition reasons :: "decision_reason list" where
  "reasons = [ReasonSelected, ReasonAwaitingRelease, ReasonAwaitingDependency,
     ReasonAwaitingReservationWindow, ReasonReservationWindowClosed, ReasonResourceCapacityExhausted,
     ReasonConcurrencyLimitReached, ReasonDeadlineMissed, ReasonScheduleEntryLimitReached,
     ReasonDisplacedByHigherAuthority, ReasonPreemptionThrottled, ReasonIncumbentNotPreemptible,
     ReasonNoLegalQuantum, ReasonAlreadyInFlight, ReasonTerminal,
     ReasonAmbiguousRequiresResolution, ReasonAwaitingReadinessSignal, ReasonDeliveryHorizonExpired,
     ReasonResourceUnavailable, ReasonPreemptionDisabled, ReasonPreemptionNotAuthorized,
     ReasonReservationExhausted, ReasonDependencyFailed]"

fun reason_code :: "decision_reason \<Rightarrow> u8" where
  "reason_code ReasonSelected = 0"
| "reason_code ReasonAwaitingRelease = 1"
| "reason_code ReasonAwaitingDependency = 2"
| "reason_code ReasonAwaitingReservationWindow = 3"
| "reason_code ReasonReservationWindowClosed = 4"
| "reason_code ReasonResourceCapacityExhausted = 5"
| "reason_code ReasonConcurrencyLimitReached = 6"
| "reason_code ReasonDeadlineMissed = 7"
| "reason_code ReasonScheduleEntryLimitReached = 8"
| "reason_code ReasonDisplacedByHigherAuthority = 9"
| "reason_code ReasonPreemptionThrottled = 10"
| "reason_code ReasonIncumbentNotPreemptible = 11"
| "reason_code ReasonNoLegalQuantum = 12"
| "reason_code ReasonAlreadyInFlight = 13"
| "reason_code ReasonTerminal = 14"
| "reason_code ReasonAmbiguousRequiresResolution = 15"
| "reason_code ReasonAwaitingReadinessSignal = 16"
| "reason_code ReasonDeliveryHorizonExpired = 17"
| "reason_code ReasonResourceUnavailable = 18"
| "reason_code ReasonPreemptionDisabled = 19"
| "reason_code ReasonPreemptionNotAuthorized = 20"
| "reason_code ReasonReservationExhausted = 21"
| "reason_code ReasonDependencyFailed = 22"

record schedule_entry =
  se_ordinal :: u32
  se_kind :: decision_kind
  se_flow :: flow_id
  se_flow_generation :: generation
  se_attempt :: attempt_id
  se_path :: path_id
  se_path_generation :: generation
  se_resource :: resource_id
  se_resource_generation :: generation
  se_reservation :: reservation_id
  se_reservation_generation :: generation
  se_qos :: qos_class_id
  se_qos_generation :: generation
  se_priority :: priority_class_id
  se_priority_generation :: generation
  se_quantum :: u64
  se_start_tick :: ticks
  se_deadline_tick :: ticks
  se_reservation_end :: ticks
  se_tier :: u32
  se_reason :: decision_reason
  se_detail :: bytes
  se_ordering_digest :: u64

section \<open>Policies\<close>

datatype preemption_mode = PreemptNone | PreemptStrictPriority | PreemptDeadline | PreemptTiered

fun preemption_text :: "preemption_mode \<Rightarrow> string" where
  "preemption_text PreemptNone = ''none''"
| "preemption_text PreemptStrictPriority = ''strict-priority''"
| "preemption_text PreemptDeadline = ''deadline''"
| "preemption_text PreemptTiered = ''tiered''"

fun preemption_code :: "preemption_mode \<Rightarrow> u8" where
  "preemption_code PreemptNone = 0"
| "preemption_code PreemptStrictPriority = 1"
| "preemption_code PreemptDeadline = 2"
| "preemption_code PreemptTiered = 3"

record scheduling_policy =
  sp_policy :: policy_id
  sp_generation :: generation
  sp_preemption :: preemption_mode
  sp_deadline_ordering :: bool
  sp_weighted_fairness :: bool
  sp_min_service_guarantee :: bool
  sp_strict_deadlines :: bool
  sp_starvation_bound_ticks :: ticks
  sp_deadline_urgency_ticks :: ticks
  sp_min_preempt_service :: u64
  sp_max_preemptions_per_interval :: u32
  sp_preemption_interval_ticks :: ticks
  sp_max_flows :: u32
  sp_max_resources :: u32
  sp_max_reservations :: u32
  sp_max_entries_per_schedule :: u32
  sp_max_quantum :: u64
  sp_default_max_overlap :: u64
  sp_retained_schedule_history :: u32
  sp_dispatch_delivery_horizon :: ticks
  sp_provenance :: provenance

record policy_binding =
  pb_policy :: policy_id
  pb_generation :: generation
  pb_digest :: u64

definition validate_policy :: "scheduling_policy \<Rightarrow> status" where
  "validate_policy p = guards [
     (\<not> id_valid (sp_policy p), InvalidArgument),
     (\<not> id_valid (sp_generation p), InvalidArgument),
     (sp_max_flows p = 0 \<or> sp_max_flows p > kMaxFlows, OutOfRange),
     (sp_max_resources p = 0 \<or> sp_max_resources p > kMaxResources, OutOfRange),
     (sp_max_reservations p = 0 \<or> sp_max_reservations p > kMaxReservations, OutOfRange),
     (sp_max_entries_per_schedule p = 0 \<or> sp_max_entries_per_schedule p > kMaxEntriesPerSchedule,
       OutOfRange),
     (sp_max_quantum p = 0 \<or> sp_max_quantum p > kMaxQuantum, OutOfRange),
     (sp_default_max_overlap p = 0 \<or> sp_default_max_overlap p > kMaxServiceUnits, OutOfRange),
     (sp_starvation_bound_ticks p = 0 \<or> sp_starvation_bound_ticks p > kMaxTickHorizon, OutOfRange),
     (sp_deadline_urgency_ticks p > kMaxTickHorizon, OutOfRange),
     (sp_min_preempt_service p > kMaxServiceUnits, OutOfRange),
     (sp_preemption_interval_ticks p = 0 \<or> sp_preemption_interval_ticks p > kMaxTickHorizon,
       OutOfRange),
     (sp_max_preemptions_per_interval p > 0x1000000, OutOfRange),
     (sp_dispatch_delivery_horizon p = 0 \<or> sp_dispatch_delivery_horizon p > kMaxTickHorizon,
       OutOfRange),
     (sp_retained_schedule_history p < 16 \<or> sp_retained_schedule_history p > 0x100000, OutOfRange),
     (\<not> established (sp_provenance p), InvalidArgument)]"

definition digest_of_policy :: "scheduling_policy \<Rightarrow> u64" where
  "digest_of_policy p = digest64 [
     add_u64 (id_value (sp_policy p)),
     add_u64 (id_value (sp_generation p)),
     add_u8 (preemption_code (sp_preemption p)),
     add_bool (sp_deadline_ordering p),
     add_bool (sp_weighted_fairness p),
     add_bool (sp_min_service_guarantee p),
     add_bool (sp_strict_deadlines p),
     add_u64 (sp_starvation_bound_ticks p),
     add_u64 (sp_deadline_urgency_ticks p),
     add_u64 (sp_min_preempt_service p),
     add_u32 (sp_max_preemptions_per_interval p),
     add_u64 (sp_preemption_interval_ticks p),
     add_u32 (sp_max_flows p),
     add_u32 (sp_max_resources p),
     add_u32 (sp_max_reservations p),
     add_u32 (sp_max_entries_per_schedule p),
     add_u64 (sp_max_quantum p),
     add_u64 (sp_default_max_overlap p),
     add_u32 (sp_retained_schedule_history p),
     add_u64 (sp_dispatch_delivery_horizon p)]"

section \<open>Schedules\<close>

record schedule =
  sc_schedule :: schedule_id
  sc_generation :: generation
  sc_epoch :: fabric_epoch
  sc_policy :: policy_id
  sc_policy_generation :: generation
  sc_policy_binding :: policy_binding
  sc_at_tick :: ticks
  sc_entries :: "schedule_entry list"
  sc_digest :: u64
  sc_provenance :: provenance

definition run_count :: "schedule \<Rightarrow> nat" where
  "run_count s = fold (\<lambda>e count. if se_kind e = KindRun then count + 1 else count) (sc_entries s) 0"

definition preempt_count :: "schedule \<Rightarrow> nat" where
  "preempt_count s =
     fold (\<lambda>e count. if se_kind e = KindPreempt then count + 1 else count) (sc_entries s) 0"

definition append_u64 :: "'a::len word \<Rightarrow> bytes" where
  "append_u64 value = lit ''='' @ dec value"

definition kMaxCanonicalFormEntries :: nat where "kMaxCanonicalFormEntries = 256"

definition canonical_entry :: "schedule_entry \<Rightarrow> bytes" where
  "canonical_entry e = lit '' | '' @ lit (kind_text (se_kind e))
     @ lit '' ordinal'' @ append_u64 (se_ordinal e)
     @ lit '' flow'' @ append_u64 (id_value (se_flow e))
     @ lit '' flow-generation'' @ append_u64 (id_value (se_flow_generation e))
     @ lit '' attempt'' @ append_u64 (id_value (se_attempt e))
     @ lit '' path'' @ append_u64 (id_value (se_path e))
     @ lit '' path-generation'' @ append_u64 (id_value (se_path_generation e))
     @ lit '' resource'' @ append_u64 (id_value (se_resource e))
     @ lit '' resource-generation'' @ append_u64 (id_value (se_resource_generation e))
     @ lit '' reservation'' @ append_u64 (id_value (se_reservation e))
     @ lit '' reservation-generation'' @ append_u64 (id_value (se_reservation_generation e))
     @ lit '' qos'' @ append_u64 (id_value (se_qos e))
     @ lit '' qos-generation'' @ append_u64 (id_value (se_qos_generation e))
     @ lit '' priority'' @ append_u64 (id_value (se_priority e))
     @ lit '' priority-generation'' @ append_u64 (id_value (se_priority_generation e))
     @ lit '' quantum'' @ append_u64 (se_quantum e)
     @ lit '' start'' @ append_u64 (se_start_tick e)
     @ lit '' deadline'' @ append_u64 (se_deadline_tick e)
     @ lit '' reservation-end'' @ append_u64 (se_reservation_end e)
     @ lit '' tier'' @ append_u64 (se_tier e)
     @ lit '' reason'' @ lit (reason_text (se_reason e))
     @ lit '' ordering'' @ append_u64 (se_ordering_digest e)"

definition canonical_form :: "schedule \<Rightarrow> bytes" where
  "canonical_form s =
     (let size = length (sc_entries s);
          limit = if size < kMaxCanonicalFormEntries then size else kMaxCanonicalFormEntries
      in lit ''schedule'' @ append_u64 (id_value (sc_schedule s))
     @ lit '' generation'' @ append_u64 (id_value (sc_generation s))
     @ lit '' epoch'' @ append_u64 (id_value (sc_epoch s))
     @ lit '' policy'' @ append_u64 (id_value (sc_policy s))
     @ lit '' policy-generation'' @ append_u64 (id_value (sc_policy_generation s))
     @ lit '' at'' @ append_u64 (sc_at_tick s)
     @ lit '' entries'' @ append_u64 (of_nat size :: u64)
     @ concat (map canonical_entry (take limit (sc_entries s)))
     @ (if limit < size then lit '' | truncated'' @ append_u64 (of_nat (size - limit) :: u64) else []))"

definition digest_entry :: "schedule_entry \<Rightarrow> (digest64 \<Rightarrow> digest64) list" where
  "digest_entry e = [
     add_u32 (se_ordinal e),
     add_u8 (kind_code (se_kind e)),
     add_u64 (id_value (se_flow e)),
     add_u64 (id_value (se_flow_generation e)),
     add_u64 (id_value (se_attempt e)),
     add_u64 (id_value (se_path e)),
     add_u64 (id_value (se_path_generation e)),
     add_u64 (id_value (se_resource e)),
     add_u64 (id_value (se_resource_generation e)),
     add_u64 (id_value (se_reservation e)),
     add_u64 (id_value (se_reservation_generation e)),
     add_u64 (id_value (se_qos e)),
     add_u64 (id_value (se_qos_generation e)),
     add_u64 (id_value (se_priority e)),
     add_u64 (id_value (se_priority_generation e)),
     add_u64 (se_quantum e),
     add_u64 (se_start_tick e),
     add_u64 (se_deadline_tick e),
     add_u64 (se_reservation_end e),
     add_u32 (se_tier e),
     add_u8 (reason_code (se_reason e)),
     add_u64 (se_ordering_digest e),
     add_string (se_detail e)]"

definition compute_schedule_digest :: "schedule \<Rightarrow> u64" where
  "compute_schedule_digest s = digest64 ([
     add_u64 (id_value (sc_schedule s)), add_u64 (id_value (sc_generation s)),
     add_u64 (id_value (sc_epoch s)), add_u64 (id_value (sc_policy s)),
     add_u64 (id_value (sc_policy_generation s)), add_u64 (pb_digest (sc_policy_binding s)),
     add_u64 (sc_at_tick s), add_u64 (of_nat (length (sc_entries s)))]
     @ concat (map digest_entry (sc_entries s)))"

definition entry_eq :: "schedule_entry \<Rightarrow> schedule_entry \<Rightarrow> bool" where
  "entry_eq left right \<longleftrightarrow>
     se_ordinal left = se_ordinal right
     \<and> se_kind left = se_kind right
     \<and> se_flow left = se_flow right
     \<and> se_flow_generation left = se_flow_generation right
     \<and> se_attempt left = se_attempt right
     \<and> se_path left = se_path right
     \<and> se_path_generation left = se_path_generation right
     \<and> se_resource left = se_resource right
     \<and> se_resource_generation left = se_resource_generation right
     \<and> se_reservation left = se_reservation right
     \<and> se_reservation_generation left = se_reservation_generation right
     \<and> se_qos left = se_qos right
     \<and> se_qos_generation left = se_qos_generation right
     \<and> se_priority left = se_priority right
     \<and> se_priority_generation left = se_priority_generation right
     \<and> se_quantum left = se_quantum right
     \<and> se_start_tick left = se_start_tick right
     \<and> se_deadline_tick left = se_deadline_tick right
     \<and> se_reservation_end left = se_reservation_end right
     \<and> se_tier left = se_tier right
     \<and> se_reason left = se_reason right
     \<and> se_ordering_digest left = se_ordering_digest right"

definition schedule_eq :: "schedule \<Rightarrow> schedule \<Rightarrow> bool" where
  "schedule_eq a b \<longleftrightarrow>
     sc_schedule a = sc_schedule b \<and> sc_generation a = sc_generation b \<and> sc_epoch a = sc_epoch b
     \<and> sc_policy a = sc_policy b \<and> sc_policy_generation a = sc_policy_generation b
     \<and> sc_at_tick a = sc_at_tick b \<and> length (sc_entries a) = length (sc_entries b)
     \<and> list_all2 entry_eq (sc_entries a) (sc_entries b)"

record deferred_flow =
  df_flow :: flow_id
  df_generation :: generation
  df_reason :: decision_reason
  df_detail :: bytes

record arbitration_outcome =
  ao_schedule :: schedule
  ao_deferred :: "deferred_flow list"
  ao_deferred_truncated :: bool
  ao_deadline_misses :: "flow_id list"
  ao_delivery_reclaims :: "flow_id list"

section \<open>Facts\<close>

lemma reason_code_decodes: "reasons ! unat (reason_code r) = r"
  by (cases r) (simp_all add: reasons_def)

lemma reason_code_inj: "reason_code a = reason_code b \<longleftrightarrow> a = b"
  by (metis reason_code_decodes)

lemma fold_count: "fold (\<lambda>e count. if P e then count + 1 else count) es n = n + length (filter P es)"
  by (induction es arbitrary: n) auto

lemma run_preempt_count: "run_count s + preempt_count s = length (sc_entries s)"
proof -
  have "filter (\<lambda>e. se_kind e = KindPreempt) es = filter (\<lambda>e. \<not> se_kind e = KindRun) es"
    for es :: "schedule_entry list"
    by (rule filter_cong [OF refl]) (metis decision_kind.exhaust decision_kind.distinct(1))
  then show ?thesis
    using sum_length_filter_compl [of "\<lambda>e. se_kind e = KindRun" "sc_entries s"]
    by (simp only: run_count_def preempt_count_def fold_count add_0)
qed

end
