(* ===== verification/Dispatch.thy ===== *)
theory Dispatch
  imports Schedule
begin

text \<open>
  \<^verbatim>\<open>include/flow_scheduler/dispatch.hpp\<close>, \<^verbatim>\<open>src/dispatch.cpp\<close>,
  \<^verbatim>\<open>include/flow_scheduler/explain.hpp\<close> and \<^verbatim>\<open>src/explain.cpp\<close>: dispatch tickets, completion
  evidence and its digest, the outcome of a commit, and bounded explanations.
\<close>

section \<open>Attempts and tickets\<close>

datatype attempt_state =
  AttemptOpen | AttemptStarted | AttemptCommitted | AttemptPreempted | AttemptCancelled
  | AttemptAbandoned | AttemptRejected

fun attempt_state_text :: "attempt_state \<Rightarrow> string" where
  "attempt_state_text AttemptOpen = ''open''"
| "attempt_state_text AttemptStarted = ''started''"
| "attempt_state_text AttemptCommitted = ''committed''"
| "attempt_state_text AttemptPreempted = ''preempted''"
| "attempt_state_text AttemptCancelled = ''cancelled''"
| "attempt_state_text AttemptAbandoned = ''abandoned''"
| "attempt_state_text AttemptRejected = ''rejected''"

fun attempt_state_code :: "attempt_state \<Rightarrow> u8" where
  "attempt_state_code AttemptOpen = 0"
| "attempt_state_code AttemptStarted = 1"
| "attempt_state_code AttemptCommitted = 2"
| "attempt_state_code AttemptPreempted = 3"
| "attempt_state_code AttemptCancelled = 4"
| "attempt_state_code AttemptAbandoned = 5"
| "attempt_state_code AttemptRejected = 6"

definition attempt_states :: "attempt_state list" where
  "attempt_states = [AttemptOpen, AttemptStarted, AttemptCommitted, AttemptPreempted,
     AttemptCancelled, AttemptAbandoned, AttemptRejected]"

definition is_attempt_terminal :: "attempt_state \<Rightarrow> bool" where
  "is_attempt_terminal st \<longleftrightarrow> st \<noteq> AttemptOpen \<and> st \<noteq> AttemptStarted"

record dispatch_ticket =
  dt_attempt :: attempt_id
  dt_epoch :: fabric_epoch
  dt_schedule :: schedule_id
  dt_schedule_generation :: generation
  dt_flow :: flow_id
  dt_flow_generation :: generation
  dt_path :: path_id
  dt_path_generation :: generation
  dt_resource :: resource_id
  dt_resource_generation :: generation
  dt_reservation :: reservation_id
  dt_reservation_generation :: generation
  dt_qos :: qos_class_id
  dt_qos_generation :: generation
  dt_priority :: priority_class_id
  dt_priority_generation :: generation
  dt_policy :: policy_id
  dt_policy_generation :: generation
  dt_worker :: worker_id
  dt_boot :: boot_id
  dt_start_tick :: ticks
  dt_deadline_tick :: ticks
  dt_reservation_end :: ticks
  dt_quantum :: u64
  dt_state :: attempt_state
  dt_digest :: u64

section \<open>Completion evidence\<close>

datatype completion_outcome = OutcomeServed | OutcomeNoService | OutcomeFailed

fun outcome_text :: "completion_outcome \<Rightarrow> string" where
  "outcome_text OutcomeServed = ''served''"
| "outcome_text OutcomeNoService = ''no-service''"
| "outcome_text OutcomeFailed = ''failed''"

fun outcome_code :: "completion_outcome \<Rightarrow> u8" where
  "outcome_code OutcomeServed = 0"
| "outcome_code OutcomeNoService = 1"
| "outcome_code OutcomeFailed = 2"

definition outcomes :: "completion_outcome list" where
  "outcomes = [OutcomeServed, OutcomeNoService, OutcomeFailed]"

fun origin_code :: "provenance_origin \<Rightarrow> u8" where
  "origin_code OriginUnknown = 0"
| "origin_code OriginExternal = 1"
| "origin_code OriginInternal = 2"
| "origin_code OriginRecovered = 3"
| "origin_code OriginSynthetic = 4"

definition origins :: "provenance_origin list" where
  "origins = [OriginUnknown, OriginExternal, OriginInternal, OriginRecovered, OriginSynthetic]"

record completion_evidence =
  ce_schedule :: schedule_id
  ce_schedule_generation :: generation
  ce_attempt :: attempt_id
  ce_epoch :: fabric_epoch
  ce_flow :: flow_id
  ce_flow_generation :: generation
  ce_worker :: worker_id
  ce_boot :: boot_id
  ce_outcome :: completion_outcome
  ce_served :: u64
  ce_effect_code :: u32
  ce_effect_digest :: u64
  ce_observed_tick :: ticks
  ce_provenance :: provenance

definition evidence_digest :: "completion_evidence \<Rightarrow> u64" where
  "evidence_digest e = digest64 [
     add_u64 (id_value (ce_schedule e)),
     add_u64 (id_value (ce_schedule_generation e)),
     add_u64 (id_value (ce_attempt e)),
     add_u64 (id_value (ce_epoch e)),
     add_u64 (id_value (ce_flow e)),
     add_u64 (id_value (ce_flow_generation e)),
     add_u64 (id_value (ce_worker e)),
     add_u64 (id_value (ce_boot e)),
     add_u8 (outcome_code (ce_outcome e)),
     add_u64 (ce_served e),
     add_u32 (ce_effect_code e),
     add_u64 (ce_effect_digest e),
     add_u64 (ce_observed_tick e),
     add_u8 (origin_code (pv_origin (ce_provenance e))),
     add_u64 (pv_sequence (ce_provenance e)), add_u64 (pv_digest (ce_provenance e))]"

datatype commit_disposition = CommitApplied | CommitIdempotentDuplicate | CommitRejected

fun disposition_text :: "commit_disposition \<Rightarrow> string" where
  "disposition_text CommitApplied = ''applied''"
| "disposition_text CommitIdempotentDuplicate = ''idempotent-duplicate''"
| "disposition_text CommitRejected = ''rejected''"

fun disposition_code :: "commit_disposition \<Rightarrow> u8" where
  "disposition_code CommitApplied = 0"
| "disposition_code CommitIdempotentDuplicate = 1"
| "disposition_code CommitRejected = 2"

record commit_outcome =
  co_disposition :: commit_disposition
  co_code :: error_code
  co_lifecycle_after :: flow_lifecycle
  co_credited :: u64
  co_flow_completed :: bool
  co_outstanding_reserved_released :: u64
  co_detail :: bytes

section \<open>Explanations\<close>

record explanation_step =
  es_at_tick :: ticks
  es_lifecycle :: flow_lifecycle
  es_reason :: decision_reason
  es_schedule :: schedule_id
  es_attempt :: attempt_id
  es_detail :: bytes

definition printable :: "u8 \<Rightarrow> u8" where
  "printable byte = (if byte < 0x20 \<or> byte = 0x7F then 0x20 else byte)"

text \<open>The loop of \<^verbatim>\<open>bounded_detail\<close>; \<open>out\<close> is the output so far.\<close>

fun bounded_detail_loop :: "bytes \<Rightarrow> bytes \<Rightarrow> bytes" where
  "bounded_detail_loop out [] = out"
| "bounded_detail_loop out (raw # rest) =
     (if length out + 3 \<ge> kMaxExplanationBytes then out @ lit ''...''
      else bounded_detail_loop (out @ [printable raw]) rest)"

definition bounded_detail :: "bytes \<Rightarrow> bytes" where
  "bounded_detail input = take kMaxExplanationBytes (bounded_detail_loop [] input)"

record flow_explanation =
  fx_flow :: flow_id
  fx_generation :: generation
  fx_lifecycle :: flow_lifecycle
  fx_last_reason :: decision_reason
  fx_ordering_digest :: u64
  fx_tier :: u32
  fx_accounting :: flow_accounting
  fx_history :: "explanation_step list"
  fx_history_truncated :: bool

record schedule_explanation =
  sx_schedule :: schedule_id
  sx_generation :: generation
  sx_epoch :: fabric_epoch
  sx_at_tick :: ticks
  sx_digest :: u64
  sx_entries :: "bytes list"
  sx_deferred :: "bytes list"
  sx_truncated :: bool

section \<open>Facts\<close>

lemma attempt_terminal_simps [simp]:
  "\<not> is_attempt_terminal AttemptOpen" "\<not> is_attempt_terminal AttemptStarted"
  "is_attempt_terminal AttemptCommitted" "is_attempt_terminal AttemptPreempted"
  "is_attempt_terminal AttemptCancelled" "is_attempt_terminal AttemptAbandoned"
  "is_attempt_terminal AttemptRejected"
  by (simp_all add: is_attempt_terminal_def)

lemma attempt_state_decodes: "attempt_states ! unat (attempt_state_code s) = s"
  by (cases s) (simp_all add: attempt_states_def)

lemma outcome_decodes: "outcomes ! unat (outcome_code x) = x"
  by (cases x) (simp_all add: outcomes_def)

lemma origin_decodes: "origins ! unat (origin_code x) = x"
  by (cases x) (simp_all add: origins_def)

lemma bounded_detail_loop_length:
  "length out + 3 \<le> kMaxExplanationBytes \<Longrightarrow>
   length (bounded_detail_loop out input) \<le> kMaxExplanationBytes"
  by (induction out input rule: bounded_detail_loop.induct) (auto simp: lit_def bound_defs)

lemma bounded_detail_loop_printable:
  "(\<forall>b \<in> set out. 0x20 \<le> b \<and> b \<noteq> 0x7F) \<Longrightarrow> b \<in> set (bounded_detail_loop out input) \<Longrightarrow>
   0x20 \<le> b \<and> b \<noteq> 0x7F"
proof (induction out input rule: bounded_detail_loop.induct)
  case (2 out raw rest)
  have "0x20 \<le> printable raw \<and> printable raw \<noteq> 0x7F" by (auto simp: printable_def)
  with 2 show ?case
    by (cases "length out + 3 \<ge> kMaxExplanationBytes") (auto simp: lit_def)
qed simp

lemma bounded_detail_loop_short:
  "length out + length input + 3 \<le> kMaxExplanationBytes \<Longrightarrow>
   bounded_detail_loop out input = out @ map printable input"
  by (induction out input rule: bounded_detail_loop.induct) auto

lemma bounded_detail_length: "length (bounded_detail input) \<le> kMaxExplanationBytes"
  by (simp add: bounded_detail_def)

lemma bounded_detail_printable: "b \<in> set (bounded_detail input) \<Longrightarrow> 0x20 \<le> b \<and> b \<noteq> 0x7F"
  unfolding bounded_detail_def
  by (rule bounded_detail_loop_printable [of "[]"]) (auto dest: in_set_takeD)

lemma bounded_detail_short:
  "length input + 3 \<le> kMaxExplanationBytes \<Longrightarrow> bounded_detail input = map printable input"
  by (simp add: bounded_detail_def bounded_detail_loop_short)

end
