(* ===== verification/Journal.thy ===== *)
theory Journal
  imports Records
begin

text \<open>
  \<^verbatim>\<open>include/flow_scheduler/journal.hpp\<close> and \<^verbatim>\<open>src/journal.cpp\<close>: the append-only durable store.
  The journal file and the snapshot file are byte strings of the store's record.  What the
  platform answers to a file operation is outside the program: \<open>ds_io\<close> is the script of those
  answers, one per call in the order the calls are made, and the model is proved for every script.
  An exhausted script answers success.
\<close>

section \<open>Record types and layout\<close>

datatype journal_record_type =
    RecUnknown | RecPolicyInstalled | RecResourceRegistered | RecReservationRegistered
  | RecReservationRetired | RecPriorityClassRegistered | RecQoSClassRegistered
  | RecEpochAdvanced | RecFlowAdmitted | RecFlowUpdated | RecFlowReadinessChanged
  | RecFlowCancelled | RecFlowRetired | RecScheduleIssued | RecScheduleReleased
  | RecAttemptOpened | RecAttemptStarted | RecAttemptClosed | RecCompletionCommitted
  | RecAmbiguityResolved | RecCheckpoint
  | RecUnlisted u16

definition record_types :: "journal_record_type list" where
  "record_types = [RecUnknown, RecPolicyInstalled, RecResourceRegistered, RecReservationRegistered,
     RecReservationRetired, RecPriorityClassRegistered, RecQoSClassRegistered, RecEpochAdvanced,
     RecFlowAdmitted, RecFlowUpdated, RecFlowReadinessChanged, RecFlowCancelled, RecFlowRetired,
     RecScheduleIssued, RecScheduleReleased, RecAttemptOpened, RecAttemptStarted,
     RecAttemptClosed, RecCompletionCommitted, RecAmbiguityResolved, RecCheckpoint]"

fun record_type_code :: "journal_record_type \<Rightarrow> u16" where
  "record_type_code RecUnknown = 0"
| "record_type_code RecPolicyInstalled = 1"
| "record_type_code RecResourceRegistered = 2"
| "record_type_code RecReservationRegistered = 3"
| "record_type_code RecReservationRetired = 4"
| "record_type_code RecPriorityClassRegistered = 5"
| "record_type_code RecQoSClassRegistered = 6"
| "record_type_code RecEpochAdvanced = 7"
| "record_type_code RecFlowAdmitted = 8"
| "record_type_code RecFlowUpdated = 9"
| "record_type_code RecFlowReadinessChanged = 10"
| "record_type_code RecFlowCancelled = 11"
| "record_type_code RecFlowRetired = 12"
| "record_type_code RecScheduleIssued = 13"
| "record_type_code RecScheduleReleased = 14"
| "record_type_code RecAttemptOpened = 15"
| "record_type_code RecAttemptStarted = 16"
| "record_type_code RecAttemptClosed = 17"
| "record_type_code RecCompletionCommitted = 18"
| "record_type_code RecAmbiguityResolved = 19"
| "record_type_code RecCheckpoint = 20"
| "record_type_code (RecUnlisted code) = code"

text \<open>\<^verbatim>\<open>static_cast<JournalRecordType>\<close>.\<close>

definition record_type_of :: "u16 \<Rightarrow> journal_record_type" where
  "record_type_of code =
     (if unat code < length record_types then record_types ! unat code else RecUnlisted code)"

definition kDurableFormatGeneration :: u16 where "kDurableFormatGeneration = 1"
definition kJournalRecordMagic :: u32 where "kJournalRecordMagic = 0x314A5346"
definition kJournalHeaderBytes :: nat where "kJournalHeaderBytes = 24"
definition kJournalTrailerBytes :: nat where "kJournalTrailerBytes = 4"
definition kMaxJournalRecordPayload :: nat where "kMaxJournalRecordPayload = 0x100000"
definition kMaxSnapshotPayload :: nat where "kMaxSnapshotPayload = 0x4000000"
definition kSnapshotMagic :: u32 where "kSnapshotMagic = 0x31535346"
definition kSnapshotHeaderBytes :: nat where "kSnapshotHeaderBytes = 20"
definition kMaxJournalBytes :: nat where "kMaxJournalBytes = 0x20000000"
definition kDefaultLimit :: nat where "kDefaultLimit = 0x400000"

lemmas journal_consts = kDurableFormatGeneration_def kJournalRecordMagic_def
  kJournalHeaderBytes_def kJournalTrailerBytes_def kMaxJournalRecordPayload_def
  kMaxSnapshotPayload_def kSnapshotMagic_def kSnapshotHeaderBytes_def kMaxJournalBytes_def
  kDefaultLimit_def

definition journal_record_bytes :: "nat \<Rightarrow> nat" where
  "journal_record_bytes payload_length = kJournalHeaderBytes + payload_length + kJournalTrailerBytes"

record journal_record_view =
  jv_type :: journal_record_type
  jv_sequence :: u64
  jv_payload :: bytes

definition build_journal_record :: "journal_record_type \<Rightarrow> u64 \<Rightarrow> bytes \<Rightarrow> bytes" where
  "build_journal_record type sequence payload =
     (let header = encode_u32_le kJournalRecordMagic @ encode_u16_le kDurableFormatGeneration
            @ encode_u16_le (record_type_code type) @ encode_u64_le sequence
            @ encode_u32_le (of_nat (length payload))
      in header @ encode_u32_le (crc32c header) @ payload @ encode_u32_le (crc32c payload))"

definition build_snapshot_blob :: "bytes \<Rightarrow> bytes" where
  "build_snapshot_blob payload =
     (let header = encode_u32_le kSnapshotMagic @ encode_u16_le kDurableFormatGeneration
            @ encode_u16_le 0 @ encode_u32_le (of_nat (length payload))
            @ encode_u32_le (crc32c payload)
      in header @ encode_u32_le (crc32c header) @ payload)"

section \<open>Scanning\<close>

datatype scan_stop = ScanComplete | ScanTornTail | ScanVisitorRejected

record scan_outcome =
  so_status :: status
  so_stop :: scan_stop
  so_records :: u64
  so_valid_bytes :: u64
  so_last_sequence :: u64
  so_skipped :: u64

definition scan_start :: scan_outcome where
  "scan_start = \<lparr>so_status = Ok, so_stop = ScanComplete, so_records = 0, so_valid_bytes = 0,
     so_last_sequence = 0, so_skipped = 0\<rparr>"

type_synonym 'v visitor = "journal_record_view \<Rightarrow> 'v action"

text \<open>
  One turn of the loop of \<^verbatim>\<open>scan_journal\<close>.  \<open>Inl\<close> leaves the loop with an outcome, \<open>Inr\<close> goes
  on with the rest of the file.
\<close>

definition scan_step ::
  "bool \<Rightarrow> 'v visitor \<Rightarrow> bytes \<Rightarrow> u64 \<Rightarrow> scan_outcome \<Rightarrow> 'v \<Rightarrow> (scan_outcome \<times> 'v) + (bytes \<times> u64 \<times> scan_outcome \<times> 'v)"
where
  "scan_step stop_on_unknown visit file expected outcome v =
     (if file = [] then Inl (outcome, v)
      else if length file < kJournalHeaderBytes then Inl (outcome\<lparr>so_stop := ScanTornTail\<rparr>, v)
      else
        let header = take kJournalHeaderBytes file;
            rest = drop kJournalHeaderBytes file;
            type_value = decode_u16_le (drop 6 header);
            sequence = decode_u64_le (drop 8 header);
            payload_length = unat (decode_u32_le (drop 16 header))
        in
        if decode_u32_le header \<noteq> kJournalRecordMagic
        then Inl (outcome\<lparr>so_status := CorruptData\<rparr>, v)
        else if decode_u16_le (drop 4 header) \<noteq> kDurableFormatGeneration
        then Inl (outcome\<lparr>so_status := Unsupported\<rparr>, v)
        else if decode_u32_le (drop 20 header) \<noteq> crc32c (take 20 header)
        then Inl (outcome\<lparr>so_status := CorruptData\<rparr>, v)
        else if payload_length > kMaxJournalRecordPayload
        then Inl (outcome\<lparr>so_status := Oversized\<rparr>, v)
        else if sequence \<noteq> expected
        then Inl (outcome\<lparr>so_status := SequenceGap\<rparr>, v)
        else if length rest < payload_length
        then Inl (outcome\<lparr>so_stop := ScanTornTail\<rparr>, v)
        else if length (drop payload_length rest) < kJournalTrailerBytes
        then Inl (outcome\<lparr>so_stop := ScanTornTail\<rparr>, v)
        else if decode_u32_le (drop payload_length rest) \<noteq> crc32c (take payload_length rest)
        then Inl (outcome\<lparr>so_status := CorruptData\<rparr>, v)
        else if stop_on_unknown \<and> type_value \<noteq> 0 \<and> type_value > record_type_code RecCheckpoint
        then Inl (outcome\<lparr>so_status := Unsupported\<rparr>, v)
        else
          (case visit \<lparr>jv_type = record_type_of type_value, jv_sequence = sequence,
                       jv_payload = take payload_length rest\<rparr> v of (visited, v') \<Rightarrow>
             if visited \<noteq> Ok
             then Inl (outcome\<lparr>so_status := visited, so_stop := ScanVisitorRejected\<rparr>, v')
             else Inr (drop (payload_length + kJournalTrailerBytes) rest, sequence + 1,
                 outcome\<lparr>so_records := so_records outcome + 1,
                         so_valid_bytes := so_valid_bytes outcome
                           + of_nat (journal_record_bytes payload_length),
                         so_last_sequence := sequence\<rparr>, v')))"

lemma scan_step_shorter:
  "scan_step u visit file expected outcome v = Inr (file', rest) \<Longrightarrow> length file' < length file"
  by (auto simp: scan_step_def Let_def journal_consts split: if_splits prod.splits)

function scan_loop ::
  "bool \<Rightarrow> 'v visitor \<Rightarrow> bytes \<Rightarrow> u64 \<Rightarrow> scan_outcome \<Rightarrow> 'v \<Rightarrow> scan_outcome \<times> 'v" where
  "scan_loop u visit file expected outcome v =
     (case scan_step u visit file expected outcome v of
        Inl result \<Rightarrow> result
      | Inr (file', expected', outcome', v') \<Rightarrow> scan_loop u visit file' expected' outcome' v')"
  by auto
termination
  by (relation "measure (\<lambda>(_, _, file, _). length file)") (auto dest: scan_step_shorter)

declare scan_loop.simps [simp del]

definition scan_journal :: "bool \<Rightarrow> 'v visitor \<Rightarrow> bytes \<Rightarrow> 'v \<Rightarrow> scan_outcome \<times> 'v" where
  "scan_journal stop_on_unknown visit file v = scan_loop stop_on_unknown visit file 1 scan_start v"

definition no_visitor :: "unit visitor" where
  "no_visitor view v = (Ok, v)"

section \<open>The durable store\<close>

text \<open>
  An answer of the platform: the call succeeds, it fails, or (for a write or a read) it moves only
  that many bytes.
\<close>

datatype io_answer = IoOk | IoFail | IoShort nat

record disk =
  dk_journal :: bytes
  dk_snapshot :: "bytes option"
  dk_io :: "io_answer list"

record durable_store = disk +
  ds_flush_to_storage :: bool
  ds_last_sequence :: u64
  ds_valid_bytes :: u64
  ds_open_tail_truncated :: bool
  ds_torn_tail_pending :: bool

definition io_next :: "'a disk_scheme \<Rightarrow> io_answer \<times> 'a disk_scheme" where
  "io_next d = (case dk_io d of [] \<Rightarrow> (IoOk, d) | a # rest \<Rightarrow> (a, d\<lparr>dk_io := rest\<rparr>))"

text \<open>A call with no effect on the files: \<^verbatim>\<open>fseek\<close>, \<^verbatim>\<open>fflush\<close>, \<^verbatim>\<open>fsync\<close>, \<^verbatim>\<open>fopen\<close>.\<close>

definition io_call :: "'a disk_scheme action" where
  "io_call d = (case io_next d of (a, d') \<Rightarrow> (if a = IoOk then Ok else IoFailure, d'))"

definition flush_to_stable_storage :: "'a disk_scheme action" where
  "flush_to_stable_storage = and_then io_call io_call"

definition truncate_file :: "nat \<Rightarrow> 'a disk_scheme action" where
  "truncate_file len = and_then io_call (\<lambda>d.
     case io_next d of (a, d') \<Rightarrow>
       if a = IoOk
       then (Ok, d'\<lparr>dk_journal := take len (dk_journal d')
                     @ replicate (len - length (dk_journal d')) 0\<rparr>)
       else (IoFailure, d'))"

definition write_journal :: "bytes \<Rightarrow> 'a disk_scheme action" where
  "write_journal data d = (case io_next d of
     (IoOk, d') \<Rightarrow> (Ok, d'\<lparr>dk_journal := dk_journal d' @ data\<rparr>)
   | (IoFail, d') \<Rightarrow> (IoFailure, d')
   | (IoShort n, d') \<Rightarrow>
       (if n < length data then IoFailure else Ok, d'\<lparr>dk_journal := dk_journal d' @ take n data\<rparr>))"

definition store_open :: "bytes \<Rightarrow> bool \<Rightarrow> disk \<Rightarrow> durable_store result" where
  "store_open directory flush d0 =
     (if directory = [] then Inl InvalidArgument
      else case and_then io_call (and_then io_call io_call) d0 of (code, d) \<Rightarrow>
        if code \<noteq> Ok then Inl code
        else
          let outcome = fst (scan_journal False no_visitor (dk_journal d) ());
              torn = (so_stop outcome = ScanTornTail)
          in if so_status outcome \<noteq> Ok then Inl (so_status outcome)
             else case io_call d of (code', d') \<Rightarrow>
               if code' \<noteq> Ok then Inl code'
               else Inr \<lparr>dk_journal = dk_journal d', dk_snapshot = dk_snapshot d', dk_io = dk_io d',
                     ds_flush_to_storage = flush, ds_last_sequence = so_last_sequence outcome,
                     ds_valid_bytes = so_valid_bytes outcome, ds_open_tail_truncated = torn,
                     ds_torn_tail_pending = torn\<rparr>)"

text \<open>The repair before an append and the append proper.\<close>

definition discard_torn_tail :: "durable_store action" where
  "discard_torn_tail st =
     (if ds_torn_tail_pending st
      then and_then (truncate_file (unat (ds_valid_bytes st)))
             (and_then flush_to_stable_storage (succeed (\<lambda>st. st\<lparr>ds_torn_tail_pending := False\<rparr>))) st
      else (Ok, st))"

definition append_record :: "journal_record_type \<Rightarrow> bytes \<Rightarrow> durable_store action" where
  "append_record type payload st =
     (let sequence = ds_last_sequence st + 1 in
      and_then io_call
      (and_then (write_journal (build_journal_record type sequence payload))
      (and_then (\<lambda>st. if ds_flush_to_storage st then flush_to_stable_storage st else io_call st)
        (succeed (\<lambda>st. st\<lparr>ds_last_sequence := sequence,
           ds_valid_bytes := ds_valid_bytes st + of_nat (journal_record_bytes (length payload))\<rparr>)))) st)"

definition store_append :: "journal_record_type \<Rightarrow> bytes \<Rightarrow> durable_store action" where
  "store_append type payload st =
     (if type = RecUnknown then (InvalidArgument, st)
      else if length payload > kMaxJournalRecordPayload then (Oversized, st)
      else if ds_last_sequence st = u64_max then (ArithmeticOverflow, st)
      else if unat (ds_valid_bytes st) > kMaxJournalBytes
           \<or> journal_record_bytes (length payload) > kMaxJournalBytes - unat (ds_valid_bytes st)
      then (Bounded, st)
      else and_then discard_torn_tail (append_record type payload) st)"

record journal_scan_report =
  jr_records :: u64
  jr_bytes :: u64
  jr_last_sequence :: u64
  jr_skipped_records :: u64
  jr_tail_truncated :: bool
  jr_truncate_to_bytes :: u64

definition store_repair :: "bool \<Rightarrow> scan_outcome \<Rightarrow> durable_store action" where
  "store_repair repair outcome st =
     (if so_stop outcome = ScanTornTail \<and> repair
      then and_then (truncate_file (unat (so_valid_bytes outcome)))
             (and_then flush_to_stable_storage
               (succeed (\<lambda>st. st\<lparr>ds_valid_bytes := so_valid_bytes outcome,
                  ds_last_sequence := so_last_sequence outcome, ds_torn_tail_pending := False\<rparr>))) st
      else (Ok, st))"

text \<open>
  \<^verbatim>\<open>replay\<close> threads the state \<open>v\<close> of the visitor; the report is filled once the scan succeeded.
\<close>

definition store_replay ::
  "bool \<Rightarrow> 'v visitor \<Rightarrow> 'v \<Rightarrow> durable_store \<Rightarrow> status \<times> journal_scan_report option \<times> 'v \<times> durable_store"
where
  "store_replay repair visit v st0 =
     (case io_call st0 of (seek, st) \<Rightarrow>
        if seek \<noteq> Ok then (seek, None, v, st)
        else case scan_journal True visit (dk_journal st) v of (outcome, v') \<Rightarrow>
          if so_status outcome \<noteq> Ok then (so_status outcome, None, v', st)
          else
            let report = \<lparr>jr_records = so_records outcome, jr_bytes = so_valid_bytes outcome,
                  jr_last_sequence = so_last_sequence outcome,
                  jr_skipped_records = so_skipped outcome,
                  jr_tail_truncated = (so_stop outcome = ScanTornTail),
                  jr_truncate_to_bytes = so_valid_bytes outcome\<rparr>
            in case and_then (store_repair repair outcome) io_call st of (code, st') \<Rightarrow>
                 (code, Some report, v', st'))"

definition decode_snapshot_blob :: "bytes \<Rightarrow> bytes result" where
  "decode_snapshot_blob blob =
     (let payload = drop kSnapshotHeaderBytes blob in
      if decode_u32_le blob \<noteq> kSnapshotMagic then Inl CorruptData
      else if decode_u16_le (drop 4 blob) \<noteq> kDurableFormatGeneration then Inl Unsupported
      else if decode_u32_le (drop 16 blob) \<noteq> crc32c (take 16 blob) then Inl CorruptData
      else if unat (decode_u32_le (drop 8 blob)) \<noteq> length blob - kSnapshotHeaderBytes
      then Inl CorruptData
      else if decode_u32_le (drop 12 blob) \<noteq> crc32c payload then Inl CorruptData
      else Inr payload)"

definition store_read_snapshot :: "durable_store \<Rightarrow> bytes result \<times> durable_store" where
  "store_read_snapshot st0 =
     (case dk_snapshot st0 of
        None \<Rightarrow> (Inl NotFound, st0)
      | Some blob \<Rightarrow>
          (case io_call st0 of (sized, st1) \<Rightarrow>
             if sized \<noteq> Ok then (Inl IoFailure, st1)
             else if length blob < kSnapshotHeaderBytes
                  \<or> length blob > kMaxSnapshotPayload + kSnapshotHeaderBytes
             then (Inl CorruptData, st1)
             else case io_call st1 of (opened, st2) \<Rightarrow>
               if opened \<noteq> Ok then (Inl IoFailure, st2)
               else case io_call st2 of (got, st3) \<Rightarrow>
                 if got \<noteq> Ok then (Inl Truncated, st3) else (decode_snapshot_blob blob, st3)))"

definition store_write_snapshot :: "bytes \<Rightarrow> durable_store action" where
  "store_write_snapshot payload st =
     (if length payload > kMaxSnapshotPayload then (Oversized, st)
      else and_then io_call (and_then io_call (and_then flush_to_stable_storage
             (and_then io_call
               (succeed (\<lambda>st. st\<lparr>dk_snapshot := Some (build_snapshot_blob payload)\<rparr>))))) st)"

definition store_compact :: "bytes \<Rightarrow> durable_store action" where
  "store_compact snapshot_payload =
     and_then (store_write_snapshot snapshot_payload)
     (and_then (truncate_file 0)
     (and_then flush_to_stable_storage
     (and_then io_call
       (succeed (\<lambda>st. st\<lparr>ds_last_sequence := 0, ds_valid_bytes := 0,
          ds_torn_tail_pending := False\<rparr>)))))"

section \<open>Layout of a record\<close>

lemma record_type_roundtrip: "(\<forall>c. ty \<noteq> RecUnlisted c) \<Longrightarrow> record_type_of (record_type_code ty) = ty"
  by (cases ty) (simp_all add: record_type_of_def record_types_def)

lemma length_build_journal_record [simp]:
  "length (build_journal_record ty seq payload) = journal_record_bytes (length payload)"
  by (simp add: build_journal_record_def Let_def journal_record_bytes_def journal_consts)

definition record_header :: "journal_record_type \<Rightarrow> u64 \<Rightarrow> bytes \<Rightarrow> bytes" where
  "record_header ty seq payload =
     encode_u32_le kJournalRecordMagic @ encode_u16_le kDurableFormatGeneration
     @ encode_u16_le (record_type_code ty) @ encode_u64_le seq
     @ encode_u32_le (of_nat (length payload))"

lemma build_journal_record_eq:
  "build_journal_record ty seq payload =
     (record_header ty seq payload @ encode_u32_le (crc32c (record_header ty seq payload)))
     @ payload @ encode_u32_le (crc32c payload)"
  by (simp add: build_journal_record_def Let_def record_header_def)

lemma length_record_header [simp]: "length (record_header ty seq payload) = 20"
  by (simp add: record_header_def)

lemma record_header_fields:
  "decode_u32_le (record_header ty seq payload @ rest) = kJournalRecordMagic"
  "decode_u16_le (drop 4 (record_header ty seq payload @ rest)) = kDurableFormatGeneration"
  "decode_u16_le (drop 6 (record_header ty seq payload @ rest)) = record_type_code ty"
  "decode_u64_le (drop 8 (record_header ty seq payload @ rest)) = seq"
  "decode_u32_le (drop 16 (record_header ty seq payload @ rest)) = of_nat (length payload)"
  "take 20 (record_header ty seq payload @ rest) = record_header ty seq payload"
  "drop 20 (record_header ty seq payload @ rest) = rest"
  by (simp_all add: record_header_def)

lemma unat_payload_length:
  "length payload \<le> kMaxJournalRecordPayload \<Longrightarrow> unat (of_nat (length payload) :: u32) = length payload"
  by (simp add: unat_of_nat take_bit_nat_eq_self journal_consts)

text \<open>A header that the writer produced passes every header check; what is left is the payload.\<close>

lemma scan_step_header:
  assumes "length payload \<le> kMaxJournalRecordPayload"
  shows "scan_step u visit
      ((record_header ty seq payload @ encode_u32_le (crc32c (record_header ty seq payload))) @ body)
      seq outcome v =
    (if length body < length payload + 4 then Inl (outcome\<lparr>so_stop := ScanTornTail\<rparr>, v)
     else if decode_u32_le (drop (length payload) body) \<noteq> crc32c (take (length payload) body)
     then Inl (outcome\<lparr>so_status := CorruptData\<rparr>, v)
     else if u \<and> record_type_code ty > 20 then Inl (outcome\<lparr>so_status := Unsupported\<rparr>, v)
     else case visit \<lparr>jv_type = record_type_of (record_type_code ty), jv_sequence = seq,
                      jv_payload = take (length payload) body\<rparr> v of (visited, v') \<Rightarrow>
       if visited \<noteq> Ok
       then Inl (outcome\<lparr>so_status := visited, so_stop := ScanVisitorRejected\<rparr>, v')
       else Inr (drop (length payload + 4) body, seq + 1,
           outcome\<lparr>so_records := so_records outcome + 1,
                   so_valid_bytes := so_valid_bytes outcome + of_nat (journal_record_bytes (length payload)),
                   so_last_sequence := seq\<rparr>, v'))"
proof -
  define h where
    "h = record_header ty seq payload @ encode_u32_le (crc32c (record_header ty seq payload))"
  have fields: "decode_u32_le h = kJournalRecordMagic"
      "decode_u16_le (drop 4 h) = kDurableFormatGeneration"
      "decode_u16_le (drop 6 h) = record_type_code ty" "decode_u64_le (drop 8 h) = seq"
      "unat (decode_u32_le (drop 16 h)) = length payload"
      "decode_u32_le (drop 20 h) = crc32c (take 20 h)" "length h = 24"
    unfolding h_def record_header_fields unat_payload_length [OF assms] by simp_all
  have len: "\<not> kMaxJournalRecordPayload < length payload" using assms by simp
  have gt: "record_type_code ty \<noteq> 0 \<and> record_type_code ty > 20 \<longleftrightarrow> record_type_code ty > (20 :: u16)"
    by auto
  have ne: "h \<noteq> []" using fields(7) by auto
  note step = scan_step_def Let_def kJournalHeaderBytes_def kJournalTrailerBytes_def fields len ne
  show ?thesis
  proof (cases "length body < length payload + 4")
    case True
    then have "length body < length payload \<or> length (drop (length payload) body) < 4" by auto
    with True show ?thesis unfolding h_def [symmetric] by (auto simp: step)
  next
    case False
    then have "\<not> length body < length payload" "\<not> length (drop (length payload) body) < 4" by auto
    with False show ?thesis
      unfolding h_def [symmetric] by (simp add: step gt cong: if_cong)
  qed
qed

section \<open>A journal is a list of records\<close>

text \<open>
  The abstract journal is a list of typed payloads; \<open>journal_bytes\<close> is the file that holds them
  from a given sequence number on, and \<open>visit_all\<close> what a visitor does over them.
\<close>

type_synonym journal_entry = "journal_record_type \<times> bytes"

fun journal_bytes :: "u64 \<Rightarrow> journal_entry list \<Rightarrow> bytes" where
  "journal_bytes seq [] = []"
| "journal_bytes seq ((ty, payload) # rs) = build_journal_record ty seq payload @ journal_bytes (seq + 1) rs"

fun visit_all :: "'v visitor \<Rightarrow> u64 \<Rightarrow> journal_entry list \<Rightarrow> 'v action" where
  "visit_all visit seq [] v = (Ok, v)"
| "visit_all visit seq ((ty, payload) # rs) v =
     and_then (visit \<lparr>jv_type = ty, jv_sequence = seq, jv_payload = payload\<rparr>)
       (visit_all visit (seq + 1) rs) v"

definition entry_ok :: "journal_entry \<Rightarrow> bool" where
  "entry_ok e \<longleftrightarrow> fst e \<in> set record_types \<and> length (snd e) \<le> kMaxJournalRecordPayload"

text \<open>What a crash during an append can leave: a strict prefix of the next record.\<close>

definition torn_tail :: "u64 \<Rightarrow> bytes \<Rightarrow> bool" where
  "torn_tail seq tail \<longleftrightarrow> (\<exists>ty payload n. length payload \<le> kMaxJournalRecordPayload \<and>
     n < length (build_journal_record ty seq payload) \<and>
     tail = take n (build_journal_record ty seq payload))"

lemma record_types_code: "ty \<in> set record_types \<Longrightarrow> record_type_of (record_type_code ty) = ty \<and> \<not> record_type_code ty > 20"
  by (auto simp: record_types_def record_type_of_def)

lemma scan_step_good:
  assumes "entry_ok (ty, payload)"
  shows "scan_step u visit (build_journal_record ty seq payload @ rest) seq outcome v =
    (case visit \<lparr>jv_type = ty, jv_sequence = seq, jv_payload = payload\<rparr> v of (visited, v') \<Rightarrow>
       if visited \<noteq> Ok
       then Inl (outcome\<lparr>so_status := visited, so_stop := ScanVisitorRejected\<rparr>, v')
       else Inr (rest, seq + 1,
           outcome\<lparr>so_records := so_records outcome + 1,
                   so_valid_bytes := so_valid_bytes outcome + of_nat (journal_record_bytes (length payload)),
                   so_last_sequence := seq\<rparr>, v'))"
proof -
  have "length payload \<le> kMaxJournalRecordPayload" using assms by (simp add: entry_ok_def)
  note header = scan_step_header [OF this, of u visit ty seq "payload @ encode_u32_le (crc32c payload) @ rest"]
  have layout: "build_journal_record ty seq payload @ rest =
      (record_header ty seq payload @ encode_u32_le (crc32c (record_header ty seq payload)))
      @ payload @ encode_u32_le (crc32c payload) @ rest"
    by (simp add: build_journal_record_eq)
  show ?thesis
    unfolding layout header using assms record_types_code [of ty]
    by (simp add: entry_ok_def cong: if_cong)
qed

lemma scan_step_torn:
  assumes "torn_tail seq tail" "tail \<noteq> []"
  shows "scan_step u visit tail seq outcome v = Inl (outcome\<lparr>so_stop := ScanTornTail\<rparr>, v)"
proof -
  obtain ty payload n where len: "length payload \<le> kMaxJournalRecordPayload"
    and n: "n < length (build_journal_record ty seq payload)"
    and tail: "tail = take n (build_journal_record ty seq payload)"
    using assms(1) by (auto simp: torn_tail_def)
  show ?thesis
  proof (cases "n < 24")
    case True
    then have "length tail < 24" using tail by simp
    with assms(2) show ?thesis by (simp add: scan_step_def kJournalHeaderBytes_def)
  next
    case False
    let ?h = "record_header ty seq payload @ encode_u32_le (crc32c (record_header ty seq payload))"
    let ?body = "take (n - 24) (payload @ encode_u32_le (crc32c payload))"
    have "tail = ?h @ ?body"
      using False by (simp add: tail build_journal_record_eq)
    moreover have "length ?body < length payload + 4"
      using n False by (auto simp: journal_record_bytes_def journal_consts)
    ultimately show ?thesis by (simp only: scan_step_header [OF len] if_True)
  qed
qed

lemma scan_loop_journal:
  assumes "list_all entry_ok rs" "torn_tail (seq + of_nat (length rs)) tail"
    and "visit_all visit seq rs v = (Ok, v')"
  shows "scan_loop u visit (journal_bytes seq rs @ tail) seq outcome v =
    (outcome\<lparr>so_stop := (if tail = [] then so_stop outcome else ScanTornTail),
             so_records := so_records outcome + of_nat (length rs),
             so_valid_bytes := so_valid_bytes outcome + of_nat (length (journal_bytes seq rs)),
             so_last_sequence := (if rs = [] then so_last_sequence outcome
                                  else seq + of_nat (length rs) - 1)\<rparr>, v')"
  using assms
proof (induction rs arbitrary: seq outcome v)
  case Nil
  show ?case
  proof (cases "tail = []")
    case True
    with Nil show ?thesis by (subst scan_loop.simps) (simp add: scan_step_def)
  next
    case False
    with Nil show ?thesis by (subst scan_loop.simps) (simp add: scan_step_torn)
  qed
next
  case (Cons r rs)
  obtain ty payload where r: "r = (ty, payload)" by (cases r)
  let ?view = "\<lparr>jv_type = ty, jv_sequence = seq, jv_payload = payload\<rparr>"
  obtain u' where visit: "visit ?view v = (Ok, u')" "visit_all visit (seq + 1) rs u' = (Ok, v')"
    using Cons.prems(3) by (auto simp: r and_then_eq)
  have ok: "entry_ok (ty, payload)" using Cons.prems(1) r by simp
  have tail: "torn_tail ((seq + 1) + of_nat (length rs)) tail"
    using Cons.prems(2) by (simp add: ac_simps)
  let ?o = "outcome\<lparr>so_records := so_records outcome + 1,
      so_valid_bytes := so_valid_bytes outcome + of_nat (journal_record_bytes (length payload)),
      so_last_sequence := seq\<rparr>"
  have "scan_loop u visit (journal_bytes seq (r # rs) @ tail) seq outcome v
      = scan_loop u visit (journal_bytes (seq + 1) rs @ tail) (seq + 1) ?o u'"
    by (subst scan_loop.simps) (simp add: r scan_step_good [OF ok] visit(1))
  also have "\<dots> = (?o\<lparr>so_stop := (if tail = [] then so_stop ?o else ScanTornTail),
             so_records := so_records ?o + of_nat (length rs),
             so_valid_bytes := so_valid_bytes ?o + of_nat (length (journal_bytes (seq + 1) rs)),
             so_last_sequence := (if rs = [] then so_last_sequence ?o
                                  else (seq + 1) + of_nat (length rs) - 1)\<rparr>, v')"
    using Cons.prems(1) by (intro Cons.IH tail visit(2)) simp
  finally show ?case by (simp add: r ac_simps)
qed

section \<open>Effects of file operations\<close>

lemma io_call_frame: "io_call d = (c, d') \<Longrightarrow> \<exists>io. d' = d\<lparr>dk_io := io\<rparr>"
  by (auto simp: io_call_def io_next_def split: list.splits)
    (metis disk.surjective disk.update_convs(3))

lemma flush_frame: "flush_to_stable_storage d = (c, d') \<Longrightarrow> \<exists>io. d' = d\<lparr>dk_io := io\<rparr>"
  by (fastforce simp: flush_to_stable_storage_def and_then_eq dest!: io_call_frame)

lemma truncate_file_Ok:
  assumes "truncate_file n d = (Ok, d')"
  shows "\<exists>io. d' = d\<lparr>
    dk_journal := take n (dk_journal d) @ replicate (n - length (dk_journal d)) 0, dk_io := io\<rparr>"
proof -
  obtain u where u: "io_call d = (Ok, u)" and "(case io_next u of (a, d') \<Rightarrow>
      if a = IoOk then (Ok, d'\<lparr>dk_journal := take n (dk_journal d') @ replicate (n - length (dk_journal d')) 0\<rparr>)
      else (IoFailure, d')) = (Ok, d')"
    using assms by (auto simp: truncate_file_def and_then_eq)
  then show ?thesis
    using io_call_frame [OF u]
    by (cases "dk_io u") (auto simp: io_next_def split: if_splits intro: exI [of _ "dk_io d'"])
qed

lemma write_journal_Ok:
  "write_journal data d = (Ok, d') \<Longrightarrow> \<exists>io. d' = d\<lparr>dk_journal := dk_journal d @ data, dk_io := io\<rparr>"
  by (cases "dk_io d")
    (auto simp: write_journal_def io_next_def split: io_answer.splits if_splits
      intro: exI [of _ "dk_io d'"])

section \<open>The store refines the abstract journal\<close>

definition store_holds :: "journal_entry list \<Rightarrow> durable_store \<Rightarrow> bool" where
  "store_holds rs st \<longleftrightarrow> list_all entry_ok rs \<and>
     unat (ds_last_sequence st) = length rs \<and>
     unat (ds_valid_bytes st) = length (journal_bytes 1 rs) \<and>
     (\<exists>tail. dk_journal st = journal_bytes 1 rs @ tail \<and>
        (if ds_torn_tail_pending st then torn_tail (1 + of_nat (length rs)) tail else tail = []))"

lemma journal_bytes_append:
  "journal_bytes seq (rs @ [(ty, payload)])
   = journal_bytes seq rs @ build_journal_record ty (seq + of_nat (length rs)) payload"
  by (induction rs arbitrary: seq) (auto simp: ac_simps)

lemma discard_torn_tail_holds:
  assumes "store_holds rs st" "discard_torn_tail st = (Ok, st')"
  shows "store_holds rs st' \<and> \<not> ds_torn_tail_pending st' \<and> ds_flush_to_storage st' = ds_flush_to_storage st
     \<and> ds_last_sequence st' = ds_last_sequence st \<and> ds_valid_bytes st' = ds_valid_bytes st"
proof (cases "ds_torn_tail_pending st")
  case True
  then obtain s1 s2 where t: "truncate_file (unat (ds_valid_bytes st)) st = (Ok, s1)"
    and f: "flush_to_stable_storage s1 = (Ok, s2)" and st': "st' = s2\<lparr>ds_torn_tail_pending := False\<rparr>"
    using assms(2) by (auto simp: discard_torn_tail_def and_then_eq)
  from assms(1) True show ?thesis
    using truncate_file_Ok [OF t] flush_frame [OF f] by (auto simp: st' store_holds_def)
qed (use assms in \<open>auto simp: discard_torn_tail_def\<close>)

lemma append_record_holds:
  assumes holds: "store_holds rs st" and clean: "\<not> ds_torn_tail_pending st"
    and room: "length (journal_bytes 1 rs) + journal_record_bytes (length payload) < 2 ^ 64"
    and seq: "ds_last_sequence st \<noteq> u64_max" and ok: "entry_ok (ty, payload)"
    and run: "append_record ty payload st = (Ok, st')"
  shows "store_holds (rs @ [(ty, payload)]) st' \<and> \<not> ds_torn_tail_pending st'"
proof -
  let ?rec = "build_journal_record ty (ds_last_sequence st + 1) payload"
  obtain s1 s2 s3 where 1: "io_call st = (Ok, s1)" and 2: "write_journal ?rec s1 = (Ok, s2)"
    and 3: "(if ds_flush_to_storage s2 then flush_to_stable_storage s2 else io_call s2) = (Ok, s3)"
    and st': "st' = s3\<lparr>ds_last_sequence := ds_last_sequence st + 1,
      ds_valid_bytes := ds_valid_bytes s3 + of_nat (journal_record_bytes (length payload))\<rparr>"
    using run by (auto simp: append_record_def Let_def and_then_eq)
  obtain io where s3: "s3 = st\<lparr>dk_journal := dk_journal st @ ?rec, dk_io := io\<rparr>"
    using io_call_frame [OF 1] write_journal_Ok [OF 2] 3
    by (auto split: if_splits dest!: io_call_frame flush_frame)
  have "unat (ds_last_sequence st) = length rs" using holds by (simp add: store_holds_def)
  then have last: "ds_last_sequence st = of_nat (length rs)"
    by (rule subst [where P = "\<lambda>n. ds_last_sequence st = of_nat n"]) simp
  have "unat (ds_last_sequence st + 1) = length rs + 1"
    using checked_next_nat [of "ds_last_sequence st"] seq holds
    by (auto simp: store_holds_def checked_next_def)
  moreover have "unat (ds_valid_bytes st + of_nat (journal_record_bytes (length payload)))
      = length (journal_bytes 1 rs) + journal_record_bytes (length payload)"
    using holds room by (simp add: store_holds_def unat_word_ariths unat_of_nat_u64)
  ultimately show ?thesis
    using holds clean ok by (auto simp: st' s3 store_holds_def journal_bytes_append last add.commute)
qed

lemma store_append_holds:
  assumes "store_holds rs st" "ty \<in> set record_types" "store_append ty payload st = (Ok, st')"
  shows "store_holds (rs @ [(ty, payload)]) st' \<and> \<not> ds_torn_tail_pending st'"
proof -
  have g: "\<not> length payload > kMaxJournalRecordPayload" "ds_last_sequence st \<noteq> u64_max"
    "\<not> unat (ds_valid_bytes st) > kMaxJournalBytes"
    "\<not> journal_record_bytes (length payload) > kMaxJournalBytes - unat (ds_valid_bytes st)"
    and run: "and_then discard_torn_tail (append_record ty payload) st = (Ok, st')"
    using assms(3) by (auto simp: store_append_def split: if_splits)
  obtain s1 where s1: "discard_torn_tail st = (Ok, s1)" "append_record ty payload s1 = (Ok, st')"
    using run by (auto simp: and_then_eq)
  have "length (journal_bytes 1 rs) + journal_record_bytes (length payload) < 2 ^ 64"
    using g assms(1) by (auto simp: store_holds_def journal_consts)
  with g(1,2) assms(2) discard_torn_tail_holds [OF assms(1) s1(1)] s1(2) show ?thesis
    by (intro append_record_holds) (auto simp: entry_ok_def)
qed

section \<open>Opening, replaying and compacting\<close>

lemma visit_all_no_visitor: "visit_all no_visitor seq rs v = (Ok, ())"
  by (induction rs arbitrary: seq) (auto simp: no_visitor_def and_then_def)

lemma scan_journal_records:
  assumes "list_all entry_ok rs" "torn_tail (1 + of_nat (length rs)) tail"
    and "visit_all visit 1 rs v = (Ok, v')"
  shows "scan_journal u visit (journal_bytes 1 rs @ tail) v =
    (\<lparr>so_status = Ok, so_stop = (if tail = [] then ScanComplete else ScanTornTail),
      so_records = of_nat (length rs), so_valid_bytes = of_nat (length (journal_bytes 1 rs)),
      so_last_sequence = of_nat (length rs), so_skipped = 0\<rparr>, v')"
  unfolding scan_journal_def scan_loop_journal [OF assms] by (simp add: scan_start_def)

lemma store_open_holds:
  assumes rs: "list_all entry_ok rs" and tail: "torn_tail (1 + of_nat (length rs)) tail"
    and disk: "dk_journal d = journal_bytes 1 rs @ tail"
    and small: "length (journal_bytes 1 rs) < 2 ^ 64" "length rs < 2 ^ 64"
    and run: "store_open directory flush d = Inr st"
  shows "store_holds rs st \<and> ds_open_tail_truncated st = (tail \<noteq> [])"
proof -
  have journal: "and_then io_call (and_then io_call io_call) d = (c, d') \<Longrightarrow> dk_journal d' = dk_journal d"
    "io_call d' = (c, d'') \<Longrightarrow> dk_journal d'' = dk_journal d'" for c and d' d'' :: disk
    by (fastforce simp: and_then_eq dest!: io_call_frame)+
  have "scan_journal False no_visitor (dk_journal d) () =
      (\<lparr>so_status = Ok, so_stop = (if tail = [] then ScanComplete else ScanTornTail),
      so_records = of_nat (length rs), so_valid_bytes = of_nat (length (journal_bytes 1 rs)),
      so_last_sequence = of_nat (length rs), so_skipped = 0\<rparr>, ())"
    unfolding disk by (rule scan_journal_records [OF rs tail visit_all_no_visitor])
  then show ?thesis
    using run small rs tail disk
    by (auto simp: store_open_def store_holds_def unat_of_nat_u64 Let_def
        split: if_splits prod.splits dest!: journal)
qed

lemma quiet_io:
  assumes "dk_io d = []"
  shows "io_call d = (Ok, d)" "flush_to_stable_storage d = (Ok, d)"
    "truncate_file n d = (Ok, d\<lparr>dk_journal := take n (dk_journal d) @ replicate (n - length (dk_journal d)) 0\<rparr>)"
  using assms
  by (simp_all add: io_call_def io_next_def flush_to_stable_storage_def truncate_file_def and_then_def)

lemma unat_of_nat_of_unat: "unat (x :: u64) = n \<Longrightarrow> unat (of_nat n :: u64) = n"
  by auto

lemma torn_tail_nil: "torn_tail seq []"
  unfolding torn_tail_def by (intro exI [of _ RecUnknown] exI [of _ "[]"] exI [of _ 0])
    (simp add: journal_record_bytes_def journal_consts)

lemma store_replay_visits:
  assumes holds: "store_holds rs st" and visit: "visit_all visit 1 rs v = (Ok, v')"
    and quiet: "dk_io st = []"
  shows "\<exists>report st'. store_replay repair visit v st = (Ok, Some report, v', st') \<and>
    jr_records report = of_nat (length rs) \<and> store_holds rs st' \<and> dk_io st' = []"
proof -
  obtain tail where disk: "dk_journal st = journal_bytes 1 rs @ tail"
    and tail: "if ds_torn_tail_pending st then torn_tail (1 + of_nat (length rs)) tail else tail = []"
    and rs: "list_all entry_ok rs"
    using holds by (auto simp: store_holds_def)
  have "torn_tail (1 + of_nat (length rs)) tail"
    using tail torn_tail_nil by (simp split: if_splits)
  note scan = scan_journal_records [OF rs this visit]
  let ?o = "\<lparr>so_status = Ok, so_stop = (if tail = [] then ScanComplete else ScanTornTail),
      so_records = of_nat (length rs), so_valid_bytes = of_nat (length (journal_bytes 1 rs)),
      so_last_sequence = of_nat (length rs), so_skipped = 0\<rparr>"
  have "unat (of_nat (length (journal_bytes 1 rs)) :: u64) = length (journal_bytes 1 rs)"
    "unat (of_nat (length rs) :: u64) = length rs"
    using holds by (auto simp: store_holds_def intro: unat_of_nat_of_unat)
  then have "\<exists>st'. store_repair repair ?o st = (Ok, st') \<and> store_holds rs st' \<and> dk_io st' = []"
    using holds quiet disk
    by (auto simp: store_repair_def and_then_def store_holds_def quiet_io)
  then show ?thesis
    by (auto simp: store_replay_def quiet quiet_io disk scan and_then_def Let_def)
qed

lemma snapshot_roundtrip:
  assumes "length payload \<le> kMaxSnapshotPayload"
  shows "decode_snapshot_blob (build_snapshot_blob payload) = Inr payload"
proof -
  have "unat (of_nat (length payload) :: u32) = length payload"
    using assms by (simp add: unat_of_nat take_bit_nat_eq_self journal_consts)
  then show ?thesis
    by (simp add: decode_snapshot_blob_def build_snapshot_blob_def Let_def kSnapshotHeaderBytes_def)
qed

lemma store_compact_holds:
  assumes "store_compact payload st = (Ok, st')"
  shows "store_holds [] st' \<and> dk_snapshot st' = Some (build_snapshot_blob payload)
     \<and> length payload \<le> kMaxSnapshotPayload"
proof -
  obtain s1 s2 s3 s4 where 1: "store_write_snapshot payload st = (Ok, s1)"
    and 2: "truncate_file 0 s1 = (Ok, s2)" and 3: "flush_to_stable_storage s2 = (Ok, s3)"
    and 4: "io_call s3 = (Ok, s4)"
    and st': "st' = s4\<lparr>ds_last_sequence := 0, ds_valid_bytes := 0, ds_torn_tail_pending := False\<rparr>"
    using assms by (auto simp: store_compact_def and_then_eq)
  have "dk_snapshot s1 = Some (build_snapshot_blob payload)" "length payload \<le> kMaxSnapshotPayload"
    using 1 by (auto simp: store_write_snapshot_def and_then_eq split: if_splits)
  then show ?thesis
    using truncate_file_Ok [OF 2] flush_frame [OF 3] io_call_frame [OF 4]
    by (auto simp: st' store_holds_def)
qed

section \<open>Appends that are acknowledged, and crashes\<close>

lemma store_append_quiet:
  assumes "dk_io st = []" "ty \<noteq> RecUnknown" "length payload \<le> kMaxJournalRecordPayload"
    and "ds_last_sequence st \<noteq> u64_max"
    and "unat (ds_valid_bytes st) + journal_record_bytes (length payload) \<le> kMaxJournalBytes"
  shows "\<exists>st'. store_append ty payload st = (Ok, st') \<and> dk_io st' = []"
proof -
  obtain s1 where s1: "discard_torn_tail st = (Ok, s1)" "dk_io s1 = []"
    using assms(1) by (cases "ds_torn_tail_pending st")
      (auto simp: discard_torn_tail_def and_then_def quiet_io)
  have "write_journal data s1 = (Ok, s1\<lparr>dk_journal := dk_journal s1 @ data\<rparr>)" for data
    by (simp add: write_journal_def io_next_def s1(2))
  then have "\<exists>st'. append_record ty payload s1 = (Ok, st') \<and> dk_io st' = []"
    using s1(2) by (auto simp: append_record_def Let_def and_then_def quiet_io)
  with s1 assms(2-5) show ?thesis by (auto simp: store_append_def and_then_def)
qed

text \<open>
  A crash leaves the journal of a store with the first \<open>n\<close> bytes of the record being appended.
\<close>

lemma store_open_quiet:
  assumes "list_all entry_ok rs" "torn_tail (1 + of_nat (length rs)) tail"
    and "dk_journal d = journal_bytes 1 rs @ tail" "dk_io d = []" "directory \<noteq> []"
  shows "\<exists>st. store_open directory flush d = Inr st"
  using assms scan_journal_records [OF assms(1,2) visit_all_no_visitor]
  by (auto simp: store_open_def and_then_def quiet_io Let_def)

lemma crash_during_append:
  assumes st: "store_holds rs st" "\<not> ds_torn_tail_pending st" "ds_last_sequence st \<noteq> u64_max"
    and rcd: "entry_ok (ty, payload)" "rec = build_journal_record ty (ds_last_sequence st + 1) payload"
    and room: "unat (ds_valid_bytes st) + journal_record_bytes (length payload) < 2 ^ 64"
    and crash: "dk_journal d = dk_journal st @ take n rec" "dk_io d = []" "directory \<noteq> []"
  shows "\<exists>st'. store_open directory flush d = Inr st' \<and>
    store_holds (if n < length rec then rs else rs @ [(ty, payload)]) st'"
proof -
  have "unat (ds_last_sequence st) = length rs" using st(1) by (simp add: store_holds_def)
  then have seq: "ds_last_sequence st = of_nat (length rs)"
    by (rule subst [where P = "\<lambda>n. ds_last_sequence st = of_nat n"]) simp
  have small: "length rs + 1 < 2 ^ 64" "length (journal_bytes 1 rs) + length rec < 2 ^ 64"
    using st checked_next_nat [of "ds_last_sequence st" "ds_last_sequence st + 1"] room
      unat_le_u64_max [of "ds_last_sequence st + 1"]
    by (auto simp: store_holds_def checked_next_def rcd(2))
  show ?thesis
  proof (cases "n < length rec")
    case True
    then have tail: "torn_tail (1 + of_nat (length rs)) (take n rec)"
      using rcd unfolding torn_tail_def entry_ok_def by (auto simp: seq add.commute)
    have disk: "dk_journal d = journal_bytes 1 rs @ take n rec"
      using crash(1) st(1,2) by (auto simp: store_holds_def)
    have rs: "list_all entry_ok rs" using st(1) by (simp add: store_holds_def)
    obtain st' where "store_open directory flush d = Inr st'"
      using store_open_quiet [OF rs tail disk crash(2,3)] by blast
    with store_open_holds [OF rs tail disk _ _ this] small True show ?thesis by auto
  next
    case False
    let ?rs = "rs @ [(ty, payload)]"
    have rs: "list_all entry_ok ?rs" using st(1) rcd(1) by (simp add: store_holds_def)
    have disk: "dk_journal d = journal_bytes 1 ?rs @ []"
      using crash(1) st(1,2) False
      by (auto simp: store_holds_def journal_bytes_append rcd(2) seq add.commute)
    obtain st' where "store_open directory flush d = Inr st'"
      using store_open_quiet [OF rs torn_tail_nil disk crash(2,3)] by blast
    with store_open_holds [OF rs torn_tail_nil disk _ _ this] small False show ?thesis
      by (auto simp: journal_bytes_append rcd(2))
  qed
qed

end
