(* ===== verification/Omap.thy ===== *)
theory Omap
  imports Prelude
begin

text \<open>
  The ordered associative containers of the C++ standard library that hold the runtime's state.
  A \<^verbatim>\<open>std::map\<close> is an association list in ascending key order, which is the order its iterators
  visit, and a \<^verbatim>\<open>std::set\<close> an ascending list.  The locale \<open>ordered_map\<close> is the contract the
  components rely on; the interpretation at the end of the section discharges it for the lists.
\<close>

section \<open>\<^verbatim>\<open>std::map\<close>\<close>

type_synonym ('k, 'v) omap = "('k \<times> 'v) list"

abbreviation om_find :: "'k \<Rightarrow> ('k, 'v) omap \<Rightarrow> 'v option" where
  "om_find k m \<equiv> map_of m k"

fun om_put :: "'k::linorder \<Rightarrow> 'v \<Rightarrow> ('k, 'v) omap \<Rightarrow> ('k, 'v) omap" where
  "om_put k v [] = [(k, v)]"
| "om_put k v ((k', v') # m) =
     (if k < k' then (k, v) # (k', v') # m
      else if k = k' then (k, v) # m
      else (k', v') # om_put k v m)"

definition om_erase :: "'k \<Rightarrow> ('k, 'v) omap \<Rightarrow> ('k, 'v) omap" where
  "om_erase k m = filter (\<lambda>e. fst e \<noteq> k) m"

definition om_modify :: "'k \<Rightarrow> ('v \<Rightarrow> 'v) \<Rightarrow> ('k, 'v) omap \<Rightarrow> ('k, 'v) omap" where
  "om_modify k f m = map (\<lambda>e. if fst e = k then (fst e, f (snd e)) else e) m"

definition om_keys :: "('k, 'v) omap \<Rightarrow> 'k list" where
  "om_keys m = map fst m"

definition om_values :: "('k, 'v) omap \<Rightarrow> 'v list" where
  "om_values m = map snd m"

definition om_wf :: "('k::linorder, 'v) omap \<Rightarrow> bool" where
  "om_wf m \<longleftrightarrow> sorted_wrt (<) (om_keys m)"

section \<open>\<^verbatim>\<open>std::set\<close>\<close>

fun os_insert :: "'k::linorder \<Rightarrow> 'k list \<Rightarrow> 'k list" where
  "os_insert k [] = [k]"
| "os_insert k (x # xs) =
     (if k < x then k # x # xs else if k = x then x # xs else x # os_insert k xs)"

definition os_erase :: "'k \<Rightarrow> 'k list \<Rightarrow> 'k list" where
  "os_erase k xs = filter (\<lambda>x. x \<noteq> k) xs"

definition os_wf :: "'k::linorder list \<Rightarrow> bool" where
  "os_wf xs \<longleftrightarrow> sorted_wrt (<) xs"

section \<open>The contract of an ordered map\<close>

locale ordered_map =
  fixes find :: "'k::linorder \<Rightarrow> 'm \<Rightarrow> 'v option"
    and put :: "'k \<Rightarrow> 'v \<Rightarrow> 'm \<Rightarrow> 'm"
    and erase :: "'k \<Rightarrow> 'm \<Rightarrow> 'm"
    and modify :: "'k \<Rightarrow> ('v \<Rightarrow> 'v) \<Rightarrow> 'm \<Rightarrow> 'm"
    and keys :: "'m \<Rightarrow> 'k list"
    and wf :: "'m \<Rightarrow> bool"
  assumes find_put: "find k (put k' v m) = (if k = k' then Some v else find k m)"
    and find_erase: "find k (erase k' m) = (if k = k' then None else find k m)"
    and find_modify:
      "find k (modify k' f m) = (if k = k' then map_option f (find k m) else find k m)"
    and set_keys: "set (keys m) = {k. find k m \<noteq> None}"
    and keys_modify: "keys (modify k f m) = keys m"
    and wf_keys: "wf m = sorted_wrt (<) (keys m)"
    and wf_put: "wf m \<Longrightarrow> wf (put k v m)"
    and wf_erase: "wf m \<Longrightarrow> wf (erase k m)"
begin

lemma wf_modify: "wf m \<Longrightarrow> wf (modify k f m)"
  by (simp add: wf_keys keys_modify)

lemma in_keys_put: "x \<in> set (keys (put k v m)) \<longleftrightarrow> x = k \<or> x \<in> set (keys m)"
  by (auto simp: set_keys find_put)

lemma in_keys_erase: "x \<in> set (keys (erase k m)) \<longleftrightarrow> x \<noteq> k \<and> x \<in> set (keys m)"
  by (auto simp: set_keys find_erase)

lemma keys_put_present:
  assumes "wf m" "find k m \<noteq> None"
  shows "keys (put k v m) = keys m"
proof -
  have "wf (put k v m)" using assms(1) by (rule wf_put)
  moreover have "set (keys (put k v m)) = set (keys m)"
    using assms(2) by (auto simp: set_keys find_put)
  ultimately show ?thesis
    using assms(1) by (simp add: wf_keys strict_sorted_equal)
qed

lemma keys_erase_put:
  assumes "wf m" "find k m = None"
  shows "keys (erase k (put k v m)) = keys m"
  using assms wf_put wf_erase
  by (intro strict_sorted_equal)
    (auto simp: wf_keys [symmetric] set_keys find_put find_erase split: if_splits)

lemma find_put_put: "find x (put k v (put k v' m)) = find x (put k v m)"
  by (simp add: find_put)

lemma find_put_commute: "k \<noteq> k' \<Longrightarrow> find x (put k v (put k' v' m)) = find x (put k' v' (put k v m))"
  by (simp add: find_put)

end

lemma om_find_put [simp]:
  "om_find k (om_put k' v m) = (if k = k' then Some v else om_find k m)"
  by (induction m) auto

lemma om_find_erase [simp]:
  "om_find k (om_erase k' m) = (if k = k' then None else om_find k m)"
  by (induction m) (auto simp: om_erase_def)

lemma om_find_modify [simp]:
  "om_find k (om_modify k' f m) =
     (if k = k' then map_option f (om_find k m) else om_find k m)"
  by (induction m) (auto simp: om_modify_def)

lemma om_keys_modify [simp]: "om_keys (om_modify k f m) = om_keys m"
  by (induction m) (auto simp: om_modify_def om_keys_def)

lemma set_om_keys: "set (om_keys m) = {k. om_find k m \<noteq> None}"
  by (auto simp: om_keys_def map_of_eq_None_iff domIff [symmetric] dom_map_of_conv_image_fst)

lemma set_om_keys_put: "set (om_keys (om_put k v m)) = insert k (set (om_keys m))"
  by (auto simp: set_om_keys)

lemma om_wf_put: "om_wf m \<Longrightarrow> om_wf (om_put k v m)"
proof (induction m)
  case (Cons e m)
  obtain k' v' where [simp]: "e = (k', v')" by (cases e)
  have "x \<in> set (om_keys (om_put k v m)) \<Longrightarrow> x = k \<or> x \<in> set (om_keys m)" for x
    by (simp add: set_om_keys_put)
  with Cons show ?case by (auto simp: om_wf_def om_keys_def) fastforce+
qed (simp add: om_wf_def om_keys_def)

lemma om_wf_erase: "om_wf m \<Longrightarrow> om_wf (om_erase k m)"
  by (induction m) (auto simp: om_wf_def om_keys_def om_erase_def)

interpretation om: ordered_map om_find om_put om_erase om_modify om_keys om_wf
  by unfold_locales
    (simp_all add: set_om_keys om_wf_put om_wf_erase, simp add: om_wf_def)

lemma om_wf_Nil [simp]: "om_wf []"
  by (simp add: om_wf_def om_keys_def)

lemma om_wf_distinct: "om_wf m \<Longrightarrow> distinct (map fst m)"
  by (simp add: om_wf_def om_keys_def strict_sorted_iff)

lemma om_find_eq_Some: "om_wf m \<Longrightarrow> om_find k m = Some v \<longleftrightarrow> (k, v) \<in> set m"
  by (simp add: om_wf_distinct)

lemma om_find_in_values: "om_find k m = Some v \<Longrightarrow> v \<in> set (om_values m)"
  by (force simp: om_values_def dest: map_of_SomeD)

lemma om_values_find: "om_wf m \<Longrightarrow> v \<in> set (om_values m) \<Longrightarrow> \<exists>k. om_find k m = Some v"
  by (auto simp: om_values_def om_find_eq_Some)

section \<open>Ordered sets\<close>

lemma set_os_insert [simp]: "set (os_insert k xs) = insert k (set xs)"
  by (induction xs) auto

lemma set_os_erase [simp]: "set (os_erase k xs) = set xs - {k}"
  by (auto simp: os_erase_def)

lemma os_wf_insert: "os_wf xs \<Longrightarrow> os_wf (os_insert k xs)"
  by (induction xs) (auto simp: os_wf_def)

lemma os_wf_erase: "os_wf xs \<Longrightarrow> os_wf (os_erase k xs)"
  by (induction xs) (auto simp: os_wf_def os_erase_def)

lemma os_wf_Nil [simp]: "os_wf []"
  by (simp add: os_wf_def)

lemma os_ext: "os_wf xs \<Longrightarrow> os_wf ys \<Longrightarrow> set xs = set ys \<Longrightarrow> xs = ys"
  by (simp add: os_wf_def strict_sorted_equal)

end
