(* ===== verification/State.thy ===== *)
theory State
  imports Dispatch Journal Omap
begin

text \<open>
  The state of \<^verbatim>\<open>Scheduler::Impl\<close> (\<^verbatim>\<open>src/scheduler.cpp\<close>): the runtime records behind each
  descriptor, the tables and indexes, the ordering key, and the private helpers that read the
  state or move one flow between lifecycle states.  The mutex is not modelled: every public method
  holds it for the whole call, so the operations of the model are the critical sections.
\<close>

section \<open>Constants and enumerations of the interface\<close>

definition kMaxDeferredPerRound :: nat where "kMaxDeferredPerRound = 4096"
definition kMaxExplanationSteps :: nat where "kMaxExplanationSteps = 32"
definition kScheduleEntryBudgetBytes :: nat where "kScheduleEntryBudgetBytes = 320"
definition kVirtualTimeScale :: u64 where "kVirtualTimeScale = 0x100000"
definition kTierDeadlineUrgent :: u32 where "kTierDeadlineUrgent = 0"
definition kTierStarvation :: u32 where "kTierStarvation = 1"
definition kTierMinServiceDeficient :: u32 where "kTierMinServiceDeficient = 2"
definition kTierNormal :: u32 where "kTierNormal = 3"

lemmas tier_defs = kTierDeadlineUrgent_def kTierStarvation_def kTierMinServiceDeficient_def
  kTierNormal_def

datatype epoch_reason =
  EpochExplicit | EpochCoordinatorRestart | EpochPolicyChange | EpochTopologyChange | EpochRecovery

fun epoch_reason_code :: "epoch_reason \<Rightarrow> u8" where
  "epoch_reason_code EpochExplicit = 0"
| "epoch_reason_code EpochCoordinatorRestart = 1"
| "epoch_reason_code EpochPolicyChange = 2"
| "epoch_reason_code EpochTopologyChange = 3"
| "epoch_reason_code EpochRecovery = 4"

fun epoch_reason_text :: "epoch_reason \<Rightarrow> string" where
  "epoch_reason_text EpochExplicit = ''explicit''"
| "epoch_reason_text EpochCoordinatorRestart = ''coordinator-restart''"
| "epoch_reason_text EpochPolicyChange = ''policy-change''"
| "epoch_reason_text EpochTopologyChange = ''topology-change''"
| "epoch_reason_text EpochRecovery = ''recovery''"

datatype ambiguity_resolution = ResolveRetry | ResolveAbandon

fun resolution_code :: "ambiguity_resolution \<Rightarrow> u8" where
  "resolution_code ResolveRetry = 0"
| "resolution_code ResolveAbandon = 1"

fun resolution_text :: "ambiguity_resolution \<Rightarrow> string" where
  "resolution_text ResolveRetry = ''retry''"
| "resolution_text ResolveAbandon = ''abandon''"

datatype readiness_signal = SignalUnset | SignalReady | SignalNotReady

fun signal_code :: "readiness_signal \<Rightarrow> u8" where
  "signal_code SignalUnset = 0"
| "signal_code SignalReady = 1"
| "signal_code SignalNotReady = 2"

section \<open>Runtime records\<close>

record flow_runtime =
  fr_descriptor :: flow_descriptor
  fr_lifecycle :: flow_lifecycle
  fr_served_work :: u64
  fr_outstanding_reserved :: u64
  fr_open_attempt :: attempt_id
  fr_scheduled_schedule :: schedule_id
  fr_scheduled_generation :: generation
  fr_scheduled_ordinal :: u32
  fr_scheduled_tick :: ticks
  fr_last_change_tick :: ticks
  fr_eligible_since_tick :: ticks
  fr_ever_ready :: bool
  fr_min_service_window_start :: ticks
  fr_min_service_delivered :: u64
  fr_virtual_finish :: u64
  fr_deadline_missed_counted :: bool
  fr_starvation_counted :: bool
  fr_accounting :: flow_accounting
  fr_history :: "explanation_step list"
  fr_history_truncated :: bool

record resource_runtime =
  rr_descriptor :: resource_descriptor
  rr_interval_index :: u64
  rr_interval_initialized :: bool
  rr_reserved_this_interval :: u64
  rr_in_flight :: u64

record reservation_runtime =
  rv_descriptor :: reservation_descriptor
  rv_reserved_units :: u64
  rv_retired :: bool

text \<open>In \<open>sr_consumed\<close>, 0 is an undelivered entry, 1 a dispatched one, 2 a released one.\<close>

record schedule_runtime =
  sr_schedule :: schedule
  sr_consumed :: "u8 list"
  sr_open_attempts :: u64
  sr_pending_entries :: u64

record attempt_runtime =
  ar_ticket :: dispatch_ticket
  ar_state :: attempt_state
  ar_opened_tick :: ticks
  ar_closed_tick :: ticks
  ar_has_evidence :: bool
  ar_evidence_digest :: u64
  ar_credited :: u64
  ar_close_detail :: bytes

section \<open>The ordering key\<close>

datatype order_key = OrderKey
  (ok_tier: u32)
  (ok_priority_rank: u32)
  (ok_deadline: ticks)
  (ok_virtual_finish: u64)
  (ok_inverted_weight: u64)
  (ok_flow: flow_id)
  (ok_generation: generation)

definition order_key_less :: "order_key \<Rightarrow> order_key \<Rightarrow> bool" where
  "order_key_less a b =
     (if ok_tier a \<noteq> ok_tier b then ok_tier a < ok_tier b
      else if ok_priority_rank a \<noteq> ok_priority_rank b then ok_priority_rank a < ok_priority_rank b
      else if ok_deadline a \<noteq> ok_deadline b then ok_deadline a < ok_deadline b
      else if ok_virtual_finish a \<noteq> ok_virtual_finish b
      then ok_virtual_finish a < ok_virtual_finish b
      else if ok_inverted_weight a \<noteq> ok_inverted_weight b
      then ok_inverted_weight a < ok_inverted_weight b
      else if ok_flow a \<noteq> ok_flow b then ok_flow a < ok_flow b
      else ok_generation a < ok_generation b)"

instantiation order_key :: linorder
begin

definition less_order_key :: "order_key \<Rightarrow> order_key \<Rightarrow> bool" where
  "less_order_key a b \<longleftrightarrow> order_key_less a b"

definition less_eq_order_key :: "order_key \<Rightarrow> order_key \<Rightarrow> bool" where
  "less_eq_order_key a b \<longleftrightarrow> a = b \<or> a < b"

instance
proof
  fix x y z :: order_key
  show "x < y \<longleftrightarrow> x \<le> y \<and> \<not> y \<le> x"
    by (auto simp: less_eq_order_key_def less_order_key_def order_key_less_def split: if_splits)
  show "x \<le> x" by (simp add: less_eq_order_key_def)
  show "x \<le> y \<Longrightarrow> y \<le> z \<Longrightarrow> x \<le> z"
    by (auto simp: less_eq_order_key_def less_order_key_def order_key_less_def split: if_splits)
  show "x \<le> y \<Longrightarrow> y \<le> x \<Longrightarrow> x = y"
    by (auto simp: less_eq_order_key_def less_order_key_def order_key_less_def split: if_splits)
  show "x \<le> y \<or> y \<le> x"
    by (cases x; cases y) (auto simp: less_eq_order_key_def less_order_key_def order_key_less_def)
qed

end

definition digest_of_key :: "order_key \<Rightarrow> u64" where
  "digest_of_key key = digest64 [
     add_u32 (ok_tier key), add_u32 (ok_priority_rank key), add_u64 (ok_deadline key),
     add_u64 (ok_virtual_finish key), add_u64 (ok_inverted_weight key),
     add_u64 (id_value (ok_flow key)), add_u64 (id_value (ok_generation key))]"

section \<open>\<^verbatim>\<open>Scheduler::Impl\<close>\<close>

record scheduler_options =
  opt_policy :: scheduling_policy
  opt_state_directory :: bytes
  opt_flush_to_storage :: bool
  opt_require_compatible_format :: bool

record recovery_report =
  rp_recovered :: bool
  rp_epoch_before :: fabric_epoch
  rp_epoch_after :: fabric_epoch
  rp_flows_restored :: u64
  rp_resources_restored :: u64
  rp_reservations_restored :: u64
  rp_priority_classes_restored :: u64
  rp_qos_classes_restored :: u64
  rp_attempts_abandoned :: u64
  rp_flows_made_ambiguous :: u64
  rp_schedules_retired :: u64
  rp_journal_records_replayed :: u64
  rp_journal_bytes_replayed :: u64
  rp_journal_records_skipped :: u64
  rp_snapshot_records :: u64
  rp_tail_truncated :: bool
  rp_detail :: bytes

record impl =
  im_options :: scheduler_options
  im_policy :: scheduling_policy
  im_policy_binding :: policy_binding
  im_epoch :: fabric_epoch
  im_flows :: "(flow_id, flow_runtime) omap"
  im_resources :: "(resource_id, resource_runtime) omap"
  im_reservations :: "(reservation_id, reservation_runtime) omap"
  im_priority_classes :: "(priority_class_id, priority_class_descriptor) omap"
  im_qos_classes :: "(qos_class_id, qos_class_descriptor) omap"
  im_virtual_time :: "(fairness_group_id, u64) omap"
  im_waiting_index :: "flow_id list"
  im_ready_index :: "flow_id list"
  im_inflight_index :: "flow_id list"
  im_attempts :: "(attempt_id, attempt_runtime) omap"
  im_schedules :: "(schedule_id, schedule_runtime) omap"
  im_schedule_attempts :: "(schedule_id, attempt_id list) omap"
  im_schedule_order :: "schedule_id list"
  im_next_attempt :: attempt_id
  im_next_schedule :: schedule_id
  im_next_schedule_generation :: generation
  im_last_tick :: ticks
  im_provenance_sequence :: u64
  im_arbitration_rounds :: u64
  im_schedules_issued :: u64
  im_schedule_entries_issued :: u64
  im_completion_reports :: u64
  im_completions_applied :: u64
  im_completions_duplicate :: u64
  im_completions_rejected :: u64
  im_deadline_misses :: u64
  im_preemptions_issued :: u64
  im_preemption_window_index :: u64
  im_preemptions_in_window :: u32
  im_reservations_retired :: u64
  im_store :: "durable_store option"
  im_recovery :: recovery_report

definition empty_recovery :: recovery_report where
  "empty_recovery = \<lparr>rp_recovered = False, rp_epoch_before = unbound, rp_epoch_after = unbound,
     rp_flows_restored = 0, rp_resources_restored = 0, rp_reservations_restored = 0,
     rp_priority_classes_restored = 0, rp_qos_classes_restored = 0, rp_attempts_abandoned = 0,
     rp_flows_made_ambiguous = 0, rp_schedules_retired = 0, rp_journal_records_replayed = 0,
     rp_journal_bytes_replayed = 0, rp_journal_records_skipped = 0, rp_snapshot_records = 0,
     rp_tail_truncated = False, rp_detail = []\<rparr>"

definition policy_binding_of :: "scheduling_policy \<Rightarrow> policy_binding" where
  "policy_binding_of p =
     \<lparr>pb_policy = sp_policy p, pb_generation = sp_generation p, pb_digest = digest_of_policy p\<rparr>"

text \<open>The constructor of \<^verbatim>\<open>Impl\<close>: the member initialisers and the policy binding.\<close>

definition impl_new :: "scheduler_options \<Rightarrow> impl" where
  "impl_new options = \<lparr>im_options = options, im_policy = opt_policy options,
     im_policy_binding = policy_binding_of (opt_policy options), im_epoch = unbound,
     im_flows = [], im_resources = [], im_reservations = [], im_priority_classes = [],
     im_qos_classes = [], im_virtual_time = [], im_waiting_index = [], im_ready_index = [],
     im_inflight_index = [], im_attempts = [], im_schedules = [], im_schedule_attempts = [],
     im_schedule_order = [], im_next_attempt = Ident 1, im_next_schedule = Ident 1,
     im_next_schedule_generation = Ident 1, im_last_tick = 0, im_provenance_sequence = 0,
     im_arbitration_rounds = 0, im_schedules_issued = 0, im_schedule_entries_issued = 0,
     im_completion_reports = 0, im_completions_applied = 0, im_completions_duplicate = 0,
     im_completions_rejected = 0, im_deadline_misses = 0, im_preemptions_issued = 0,
     im_preemption_window_index = 0, im_preemptions_in_window = 0, im_reservations_retired = 0,
     im_store = None, im_recovery = empty_recovery\<rparr>"

text \<open>The volatile branch of \<^verbatim>\<open>Impl::initialize\<close>; the durable one is in theory \<open>Recovery\<close>.\<close>

definition initialize_volatile :: "impl \<Rightarrow> impl" where
  "initialize_volatile s = s\<lparr>im_epoch := Ident 1\<rparr>"

definition journal :: "journal_record_type \<Rightarrow> bytes \<Rightarrow> impl action" where
  "journal type payload s = (case im_store s of
     None \<Rightarrow> (Ok, s)
   | Some store \<Rightarrow>
       (case store_append type payload store of (code, store') \<Rightarrow> (code, s\<lparr>im_store := Some store'\<rparr>)))"

text \<open>\<^verbatim>\<open>RecordWriter writer; ...; writer.take()\<close> with the default limit.\<close>

definition take_record :: "writing list \<Rightarrow> bytes" where
  "take_record parts = rw_buffer (rw_block parts (record_writer kDefaultLimit))"

section \<open>One flow\<close>

definition modify_flow :: "flow_id \<Rightarrow> (flow_runtime \<Rightarrow> flow_runtime) \<Rightarrow> impl \<Rightarrow> impl" where
  "modify_flow flow f s = s\<lparr>im_flows := om_modify flow f (im_flows s)\<rparr>"

definition modify_resource :: "resource_id \<Rightarrow> (resource_runtime \<Rightarrow> resource_runtime) \<Rightarrow> impl \<Rightarrow> impl" where
  "modify_resource resource f s = s\<lparr>im_resources := om_modify resource f (im_resources s)\<rparr>"

definition modify_schedule :: "schedule_id \<Rightarrow> (schedule_runtime \<Rightarrow> schedule_runtime) \<Rightarrow> impl \<Rightarrow> impl" where
  "modify_schedule schedule f s = s\<lparr>im_schedules := om_modify schedule f (im_schedules s)\<rparr>"

definition modify_attempt :: "attempt_id \<Rightarrow> (attempt_runtime \<Rightarrow> attempt_runtime) \<Rightarrow> impl \<Rightarrow> impl" where
  "modify_attempt attempt f s = s\<lparr>im_attempts := om_modify attempt f (im_attempts s)\<rparr>"

definition refresh_min_service_window :: "ticks \<Rightarrow> flow_runtime \<Rightarrow> flow_runtime" where
  "refresh_min_service_window now r =
     (let restart = r\<lparr>fr_min_service_window_start := now, fr_min_service_delivered := 0\<rparr> in
      if fd_min_service (fr_descriptor r) = 0 then r
      else if \<not> fr_ever_ready r then restart
      else if now < fr_min_service_window_start r then restart
      else if now - fr_min_service_window_start r \<ge> fd_min_service_window (fr_descriptor r)
      then restart
      else r)"

text \<open>The virtual cost of one quantum and the stamp a flow gets when it becomes backlogged.\<close>

definition flow_weight :: "flow_descriptor \<Rightarrow> u64" where
  "flow_weight d = (if fd_weight d = 0 then 1 else fd_weight d)"

definition virtual_cost :: "scheduling_policy \<Rightarrow> flow_descriptor \<Rightarrow> u64" where
  "virtual_cost p d =
     (let quantum = (if fd_service_quantum d > sp_max_quantum p then sp_max_quantum p
                     else fd_service_quantum d)
      in (quantum * kVirtualTimeScale) div flow_weight d)"

definition virtual_clock :: "impl \<Rightarrow> fairness_group_id \<Rightarrow> u64" where
  "virtual_clock s fg = (case om_find fg (im_virtual_time s) of None \<Rightarrow> 0 | Some v \<Rightarrow> v)"

definition stamp_virtual_finish :: "impl \<Rightarrow> flow_runtime \<Rightarrow> flow_runtime" where
  "stamp_virtual_finish s r =
     (if sp_weighted_fairness (im_policy s)
      then let base = virtual_clock s (fd_fairness_group (fr_descriptor r)) in
        r\<lparr>fr_virtual_finish := saturating_add
            (if fr_virtual_finish r < base then base else fr_virtual_finish r)
            (virtual_cost (im_policy s) (fr_descriptor r))\<rparr>
      else r)"

text \<open>
  The part of \<^verbatim>\<open>set_lifecycle\<close> that acts on the flow itself: the wait is accumulated on leaving
  Ready, and entering Ready starts an eligibility interval.
\<close>

definition leave_lifecycle :: "ticks \<Rightarrow> flow_runtime \<Rightarrow> flow_runtime" where
  "leave_lifecycle now r =
     (if fr_lifecycle r = FlowReady \<and> fr_ever_ready r \<and> now \<ge> fr_eligible_since_tick r
      then r\<lparr>fr_accounting := (fr_accounting r)\<lparr>fa_wait_ticks_total :=
             saturating_add (fa_wait_ticks_total (fr_accounting r)) (now - fr_eligible_since_tick r)\<rparr>\<rparr>
      else r)"

definition enter_lifecycle :: "impl \<Rightarrow> flow_lifecycle \<Rightarrow> ticks \<Rightarrow> flow_runtime \<Rightarrow> flow_runtime" where
  "enter_lifecycle s next now r =
     (let r1 = (leave_lifecycle now r)\<lparr>fr_lifecycle := next, fr_last_change_tick := now\<rparr> in
      if next = FlowReady
      then refresh_min_service_window now
             (stamp_virtual_finish s
               (r1\<lparr>fr_eligible_since_tick := now, fr_ever_ready := True, fr_starvation_counted := False\<rparr>))
      else r1)"

fun index_slot :: "flow_lifecycle \<Rightarrow> nat" where
  "index_slot FlowWaiting = 1"
| "index_slot FlowAmbiguous = 1"
| "index_slot FlowReady = 2"
| "index_slot FlowDispatched = 3"
| "index_slot FlowRunning = 3"
| "index_slot FlowCompletionReported = 3"
| "index_slot FlowCancelling = 3"
| "index_slot FlowPreempting = 3"
| "index_slot _ = 0"

definition index_erase :: "nat \<Rightarrow> flow_id \<Rightarrow> impl \<Rightarrow> impl" where
  "index_erase slot flow s =
     (if slot = 1 then s\<lparr>im_waiting_index := os_erase flow (im_waiting_index s)\<rparr>
      else if slot = 2 then s\<lparr>im_ready_index := os_erase flow (im_ready_index s)\<rparr>
      else if slot = 3 then s\<lparr>im_inflight_index := os_erase flow (im_inflight_index s)\<rparr>
      else s)"

definition index_insert :: "nat \<Rightarrow> flow_id \<Rightarrow> impl \<Rightarrow> impl" where
  "index_insert slot flow s =
     (if slot = 1 then s\<lparr>im_waiting_index := os_insert flow (im_waiting_index s)\<rparr>
      else if slot = 2 then s\<lparr>im_ready_index := os_insert flow (im_ready_index s)\<rparr>
      else if slot = 3 then s\<lparr>im_inflight_index := os_insert flow (im_inflight_index s)\<rparr>
      else s)"

definition update_index :: "flow_id \<Rightarrow> flow_lifecycle \<Rightarrow> flow_lifecycle \<Rightarrow> impl \<Rightarrow> impl" where
  "update_index flow from to s = index_insert (index_slot to) flow (index_erase (index_slot from) flow s)"

definition set_lifecycle :: "flow_id \<Rightarrow> flow_lifecycle \<Rightarrow> ticks \<Rightarrow> impl \<Rightarrow> impl" where
  "set_lifecycle flow next now s = (case om_find flow (im_flows s) of
     None \<Rightarrow> s
   | Some r \<Rightarrow>
       if fr_lifecycle r = next then s
       else update_index (fd_flow (fr_descriptor r)) (fr_lifecycle r) next
              (modify_flow flow (enter_lifecycle s next now) s))"

definition reindex_all :: "impl \<Rightarrow> impl" where
  "reindex_all s =
     fold (\<lambda>(flow, r). index_insert (index_slot (fr_lifecycle r)) flow) (im_flows s)
       (s\<lparr>im_waiting_index := [], im_ready_index := [], im_inflight_index := []\<rparr>)"

definition record_step ::
  "ticks \<Rightarrow> flow_lifecycle \<Rightarrow> decision_reason \<Rightarrow> schedule_id \<Rightarrow> attempt_id \<Rightarrow> bytes \<Rightarrow> flow_runtime \<Rightarrow> flow_runtime"
where
  "record_step now lifecycle reason schedule attempt detail r =
     (let step = \<lparr>es_at_tick = now, es_lifecycle = lifecycle, es_reason = reason,
            es_schedule = schedule, es_attempt = attempt, es_detail = bounded_detail detail\<rparr>;
          history = fr_history r @ [step]
      in if length history > kMaxExplanationSteps
         then r\<lparr>fr_history := tl history, fr_history_truncated := True\<rparr>
         else r\<lparr>fr_history := history\<rparr>)"

section \<open>Readiness\<close>

definition dependencies_satisfied :: "impl \<Rightarrow> flow_runtime \<Rightarrow> bool" where
  "dependencies_satisfied s r \<longleftrightarrow>
     list_all (\<lambda>dependency. case om_find dependency (im_flows s) of
         None \<Rightarrow> False
       | Some found \<Rightarrow> fr_lifecycle found = FlowCompleted)
       (fd_dependencies (fr_descriptor r))"

definition dependency_failed :: "impl \<Rightarrow> flow_runtime \<Rightarrow> bool" where
  "dependency_failed s r \<longleftrightarrow>
     list_ex (\<lambda>dependency. case om_find dependency (im_flows s) of
         None \<Rightarrow> False
       | Some found \<Rightarrow> is_terminal (fr_lifecycle found) \<and> fr_lifecycle found \<noteq> FlowCompleted)
       (fd_dependencies (fr_descriptor r))"

text \<open>An exclusive reservation that shuts out flows not bound to it.\<close>

definition excludes :: "flow_runtime \<Rightarrow> ticks \<Rightarrow> reservation_runtime \<Rightarrow> bool" where
  "excludes r now candidate \<longleftrightarrow>
     \<not> (rv_retired candidate
        \<or> rsv_resource (rv_descriptor candidate) \<noteq> bd_id (fd_resource (fr_descriptor r)))
     \<and> rsv_exclusive (rv_descriptor candidate) \<and> window_contains (rv_descriptor candidate) now"

text \<open>
  \<^verbatim>\<open>reservation_usable\<close> and \<^verbatim>\<open>derived_readiness\<close> return the boolean with the reason they write to
  their reference argument; the boolean is true exactly when the reason is Selected.
\<close>

definition reservation_usable :: "impl \<Rightarrow> flow_runtime \<Rightarrow> ticks \<Rightarrow> bool \<times> decision_reason" where
  "reservation_usable s r now =
     (let b = fd_reservation (fr_descriptor r) in
      if \<not> bound b
      then if list_ex (excludes r now) (om_values (im_reservations s))
           then (False, ReasonAwaitingReservationWindow) else (True, ReasonSelected)
      else case om_find (bd_id b) (im_reservations s) of
        None \<Rightarrow> (False, ReasonReservationWindowClosed)
      | Some rv \<Rightarrow>
          if rv_retired rv then (False, ReasonReservationWindowClosed)
          else if rsv_generation (rv_descriptor rv) \<noteq> bd_generation b
          then (False, ReasonReservationWindowClosed)
          else if rsv_resource (rv_descriptor rv) \<noteq> bd_id (fd_resource (fr_descriptor r))
          then (False, ReasonReservationWindowClosed)
          else if now < rsv_window_begin (rv_descriptor rv)
          then (False, ReasonAwaitingReservationWindow)
          else if now \<ge> rsv_window_end (rv_descriptor rv)
          then (False, ReasonReservationWindowClosed)
          else if rv_reserved_units rv \<ge> rsv_capacity (rv_descriptor rv)
          then (False, ReasonReservationExhausted)
          else (True, ReasonSelected))"

definition derived_readiness :: "impl \<Rightarrow> flow_runtime \<Rightarrow> ticks \<Rightarrow> bool \<times> decision_reason" where
  "derived_readiness s r now =
     (let d = fr_descriptor r in
      if is_terminal (fr_lifecycle r) then (False, ReasonTerminal)
      else if fr_lifecycle r = FlowAmbiguous then (False, ReasonAmbiguousRequiresResolution)
      else if fd_readiness_signal d = 2 then (False, ReasonAwaitingReadinessSignal)
      else if \<not> fd_auto_ready d \<and> fd_readiness_signal d \<noteq> 1
      then (False, ReasonAwaitingReadinessSignal)
      else if now < fd_release_tick d then (False, ReasonAwaitingRelease)
      else if \<not> dependencies_satisfied s r
      then (False, if dependency_failed s r then ReasonDependencyFailed else ReasonAwaitingDependency)
      else case reservation_usable s r now of (usable, reason) \<Rightarrow>
        if \<not> usable then (False, reason)
        else if has_deadline (fd_deadline_tick d) \<and> now \<ge> fd_deadline_tick d
        then (False, ReasonDeadlineMissed)
        else (True, ReasonSelected))"

section \<open>Ranking\<close>

definition tier_of :: "impl \<Rightarrow> flow_runtime \<Rightarrow> ticks \<Rightarrow> u32" where
  "tier_of s r now =
     (let p = im_policy s; d = fr_descriptor r; deadline = fd_deadline_tick d in
      if has_deadline deadline \<and> sp_deadline_ordering p
         \<and> (if deadline > now then deadline - now else 0) \<le> sp_deadline_urgency_ticks p
      then kTierDeadlineUrgent
      else if fr_ever_ready r
         \<and> (if now \<ge> fr_eligible_since_tick r then now - fr_eligible_since_tick r else 0)
             \<ge> sp_starvation_bound_ticks p
      then kTierStarvation
      else if sp_min_service_guarantee p \<and> fd_min_service d > 0
         \<and> fr_min_service_delivered r < fd_min_service d
      then kTierMinServiceDeficient
      else kTierNormal)"

definition compute_key :: "impl \<Rightarrow> flow_runtime \<Rightarrow> ticks \<Rightarrow> order_key" where
  "compute_key s r now =
     (let p = im_policy s; d = fr_descriptor r in
      OrderKey (tier_of s r now)
        (case om_find (bd_id (fd_priority d)) (im_priority_classes s) of
           None \<Rightarrow> 0 | Some cls \<Rightarrow> prio_rank cls)
        (if sp_deadline_ordering p then fd_deadline_tick d else kNoDeadline)
        (if sp_weighted_fairness p then fr_virtual_finish r else 0)
        (u64_max - flow_weight d)
        (fd_flow d) (fd_generation d))"

section \<open>Capacity\<close>

definition capacity_remaining :: "resource_runtime \<Rightarrow> ticks \<Rightarrow> u64" where
  "capacity_remaining rr now =
     (let index = now div res_interval (rr_descriptor rr) in
      if \<not> rr_interval_initialized rr \<or> index \<noteq> rr_interval_index rr
      then res_capacity (rr_descriptor rr)
      else if rr_reserved_this_interval rr \<ge> res_capacity (rr_descriptor rr) then 0
      else res_capacity (rr_descriptor rr) - rr_reserved_this_interval rr)"

definition roll_interval :: "ticks \<Rightarrow> resource_runtime \<Rightarrow> resource_runtime" where
  "roll_interval now rr =
     (let index = now div res_interval (rr_descriptor rr) in
      if \<not> rr_interval_initialized rr \<or> index \<noteq> rr_interval_index rr
      then rr\<lparr>rr_interval_index := index, rr_interval_initialized := True,
              rr_reserved_this_interval := 0\<rparr>
      else rr)"

definition reservation_remaining :: "impl \<Rightarrow> flow_runtime \<Rightarrow> ticks \<Rightarrow> u64" where
  "reservation_remaining s r now =
     (let b = fd_reservation (fr_descriptor r) in
      if \<not> bound b then u64_max
      else case om_find (bd_id b) (im_reservations s) of
        None \<Rightarrow> 0
      | Some rv \<Rightarrow>
          if rv_retired rv \<or> \<not> window_contains (rv_descriptor rv) now then 0
          else if rv_reserved_units rv \<ge> rsv_capacity (rv_descriptor rv) then 0
          else rsv_capacity (rv_descriptor rv) - rv_reserved_units rv)"

definition find_schedule :: "impl \<Rightarrow> schedule_id \<Rightarrow> schedule_runtime option" where
  "find_schedule s schedule = om_find schedule (im_schedules s)"

section \<open>Invariant of the flow table and its indexes\<close>

text \<open>
  The tables are ordered and keyed by the identity in the descriptor, and each index holds exactly
  the flows whose lifecycle state belongs to it.
\<close>

definition flows_wf :: "impl \<Rightarrow> bool" where
  "flows_wf s \<longleftrightarrow> om_wf (im_flows s) \<and>
     (\<forall>k r. om_find k (im_flows s) = Some r \<longrightarrow> fd_flow (fr_descriptor r) = k)"

definition in_slot :: "impl \<Rightarrow> nat \<Rightarrow> flow_id set" where
  "in_slot s n = {k. \<exists>r. om_find k (im_flows s) = Some r \<and> index_slot (fr_lifecycle r) = n}"

definition index_wf :: "impl \<Rightarrow> bool" where
  "index_wf s \<longleftrightarrow>
     os_wf (im_waiting_index s) \<and> os_wf (im_ready_index s) \<and> os_wf (im_inflight_index s) \<and>
     set (im_waiting_index s) = in_slot s 1 \<and> set (im_ready_index s) = in_slot s 2 \<and>
     set (im_inflight_index s) = in_slot s 3"

end
