(* ===== verification/Transitions.thy ===== *)
theory Transitions
  imports State
begin

text \<open>
  The journal-free state transitions of \<^verbatim>\<open>Scheduler::Impl\<close> (the \<^verbatim>\<open>apply_\<close> family of
  \<^verbatim>\<open>src/scheduler.cpp\<close>).  They are the only writers of authoritative state; live operations call
  them after the journal accepted the record, and replay calls them from the record.
\<close>

section \<open>Descriptors\<close>

definition apply_policy :: "scheduling_policy \<Rightarrow> impl \<Rightarrow> impl" where
  "apply_policy p s = s\<lparr>im_policy := p, im_policy_binding := policy_binding_of p\<rparr>"

definition apply_resource :: "resource_descriptor \<Rightarrow> impl \<Rightarrow> impl" where
  "apply_resource d s =
     (let rr = (case om_find (res_resource d) (im_resources s) of
            None \<Rightarrow> \<lparr>rr_descriptor = d, rr_interval_index = 0, rr_interval_initialized = False,
                      rr_reserved_this_interval = 0, rr_in_flight = 0\<rparr>
          | Some rr \<Rightarrow>
              if id_valid (res_resource (rr_descriptor rr))
                 \<and> res_generation (rr_descriptor rr) \<noteq> res_generation d
              then rr\<lparr>rr_interval_initialized := False, rr_reserved_this_interval := 0,
                      rr_descriptor := d\<rparr>
              else rr\<lparr>rr_descriptor := d\<rparr>)
      in s\<lparr>im_resources := om_put (res_resource d) rr (im_resources s)\<rparr>)"

definition apply_reservation :: "reservation_descriptor \<Rightarrow> impl \<Rightarrow> impl" where
  "apply_reservation d s =
     (let units = (case om_find (rsv_reservation d) (im_reservations s) of
            None \<Rightarrow> 0 | Some rv \<Rightarrow> rv_reserved_units rv)
      in s\<lparr>im_reservations := om_put (rsv_reservation d)
             \<lparr>rv_descriptor = d, rv_reserved_units = units, rv_retired = False\<rparr> (im_reservations s)\<rparr>)"

definition apply_retire_reservation :: "reservation_id \<Rightarrow> generation \<Rightarrow> impl \<Rightarrow> impl" where
  "apply_retire_reservation reservation generation s =
     (case om_find reservation (im_reservations s) of
        None \<Rightarrow> s
      | Some rv \<Rightarrow>
          if rsv_generation (rv_descriptor rv) \<noteq> generation then s
          else s\<lparr>im_reservations := om_put reservation (rv\<lparr>rv_retired := True\<rparr>) (im_reservations s),
                 im_reservations_retired := im_reservations_retired s + 1\<rparr>)"

definition apply_priority_class :: "priority_class_descriptor \<Rightarrow> impl \<Rightarrow> impl" where
  "apply_priority_class d s =
     s\<lparr>im_priority_classes := om_put (prio_priority d) d (im_priority_classes s)\<rparr>"

definition apply_qos_class :: "qos_class_descriptor \<Rightarrow> impl \<Rightarrow> impl" where
  "apply_qos_class d s = s\<lparr>im_qos_classes := om_put (qos_qos d) d (im_qos_classes s)\<rparr>"

section \<open>Flows\<close>

definition admitted_flow :: "flow_descriptor \<Rightarrow> ticks \<Rightarrow> flow_runtime" where
  "admitted_flow d last_change = \<lparr>fr_descriptor = d, fr_lifecycle = FlowWaiting, fr_served_work = 0,
     fr_outstanding_reserved = 0, fr_open_attempt = unbound, fr_scheduled_schedule = unbound,
     fr_scheduled_generation = unbound, fr_scheduled_ordinal = 0, fr_scheduled_tick = 0,
     fr_last_change_tick = last_change, fr_eligible_since_tick = 0, fr_ever_ready = False,
     fr_min_service_window_start = 0, fr_min_service_delivered = 0, fr_virtual_finish = 0,
     fr_deadline_missed_counted = False, fr_starvation_counted = False,
     fr_accounting = zero_accounting, fr_history = [], fr_history_truncated = False\<rparr>"

definition apply_admit :: "flow_descriptor \<Rightarrow> impl action" where
  "apply_admit d s =
     (if length (im_flows s) \<ge> unat (sp_max_flows (im_policy s)) \<and> om_find (fd_flow d) (im_flows s) = None
      then (Bounded, s)
      else
        let last_change = (case om_find (fd_flow d) (im_flows s) of
              None \<Rightarrow> 0 | Some r \<Rightarrow> fr_last_change_tick r)
        in (Ok, s\<lparr>im_flows := om_put (fd_flow d) (admitted_flow d last_change) (im_flows s),
                  im_ready_index := os_erase (fd_flow d) (im_ready_index s),
                  im_inflight_index := os_erase (fd_flow d) (im_inflight_index s),
                  im_waiting_index := os_insert (fd_flow d) (im_waiting_index s)\<rparr>))"

definition apply_update :: "flow_descriptor \<Rightarrow> impl action" where
  "apply_update d s = (case om_find (fd_flow d) (im_flows s) of
     None \<Rightarrow> (UnknownFlow, s)
   | Some r \<Rightarrow>
       if holds_open_work (fr_lifecycle r) then (InvalidState, s)
       else (Ok, modify_flow (fd_flow d) (\<lambda>r. r\<lparr>fr_descriptor := d\<rparr>) s))"

text \<open>The flow of a given generation; the transitions below ignore any other.\<close>

definition current_flow :: "flow_id \<Rightarrow> generation \<Rightarrow> impl \<Rightarrow> flow_runtime option" where
  "current_flow flow generation s = (case om_find flow (im_flows s) of
     None \<Rightarrow> None
   | Some r \<Rightarrow> if fd_generation (fr_descriptor r) \<noteq> generation then None else Some r)"

definition apply_readiness :: "flow_id \<Rightarrow> generation \<Rightarrow> readiness_signal \<Rightarrow> ticks \<Rightarrow> impl \<Rightarrow> impl" where
  "apply_readiness flow generation signal now s = (case current_flow flow generation s of
     None \<Rightarrow> s
   | Some _ \<Rightarrow> modify_flow flow
       (\<lambda>r. r\<lparr>fr_descriptor := (fr_descriptor r)\<lparr>fd_readiness_signal := signal_code signal\<rparr>,
              fr_last_change_tick := now\<rparr>) s)"

definition apply_retire_flow :: "flow_id \<Rightarrow> generation \<Rightarrow> impl \<Rightarrow> impl" where
  "apply_retire_flow flow generation s = (case current_flow flow generation s of
     None \<Rightarrow> s
   | Some _ \<Rightarrow> s\<lparr>im_waiting_index := os_erase flow (im_waiting_index s),
                  im_ready_index := os_erase flow (im_ready_index s),
                  im_inflight_index := os_erase flow (im_inflight_index s),
                  im_flows := om_erase flow (im_flows s)\<rparr>)"

definition apply_ambiguity_resolved ::
  "flow_id \<Rightarrow> generation \<Rightarrow> ambiguity_resolution \<Rightarrow> ticks \<Rightarrow> impl \<Rightarrow> impl" where
  "apply_ambiguity_resolved flow generation resolution now s = (case current_flow flow generation s of
     None \<Rightarrow> s
   | Some r \<Rightarrow>
       if fr_lifecycle r \<noteq> FlowAmbiguous then s
       else if resolution = ResolveAbandon
       then modify_flow flow (record_step now FlowFailed ReasonTerminal unbound unbound
              (lit ''recovered outcome abandoned by operator''))
              (set_lifecycle flow FlowFailed now s)
       else modify_flow flow (record_step now FlowWaiting ReasonAwaitingRelease unbound unbound
              (lit ''recovered outcome retried by operator''))
              (modify_flow flow (\<lambda>r. r\<lparr>fr_ever_ready := False\<rparr>)
                (set_lifecycle flow FlowWaiting now s)))"

section \<open>Schedules\<close>

definition monus :: "u64 \<Rightarrow> u64 \<Rightarrow> u64" where
  "monus a b = (if a \<ge> b then a - b else 0)"

definition decrement :: "u64 \<Rightarrow> u64" where
  "decrement n = (if n > 0 then n - 1 else n)"

definition release_slot :: "resource_id \<Rightarrow> impl \<Rightarrow> impl" where
  "release_slot resource = modify_resource resource (\<lambda>rr. rr\<lparr>rr_in_flight := decrement (rr_in_flight rr)\<rparr>)"

definition clear_scheduled :: "flow_runtime \<Rightarrow> flow_runtime" where
  "clear_scheduled r = r\<lparr>fr_scheduled_schedule := unbound, fr_scheduled_generation := unbound,
     fr_scheduled_ordinal := 0\<rparr>"

definition release_reserved :: "u64 \<Rightarrow> flow_runtime \<Rightarrow> flow_runtime" where
  "release_reserved quantum r =
     r\<lparr>fr_outstanding_reserved := monus (fr_outstanding_reserved r) quantum\<rparr>"

text \<open>The flow side of \<^verbatim>\<open>release_run_entry\<close>: the reservation is returned and the flow is Ready again.\<close>

definition reclaim_entry :: "schedule_entry \<Rightarrow> ticks \<Rightarrow> impl \<Rightarrow> impl" where
  "reclaim_entry e now s =
     modify_flow (se_flow e) (record_step now FlowReady ReasonDeliveryHorizonExpired unbound unbound
       (lit ''undelivered schedule entry reclaimed''))
     (set_lifecycle (se_flow e) FlowReady now
       (release_slot (se_resource e)
         (modify_flow (se_flow e) (\<lambda>r. clear_scheduled (release_reserved (se_quantum e) r)) s)))"

definition release_run_entry :: "schedule_id \<Rightarrow> nat \<Rightarrow> ticks \<Rightarrow> impl \<Rightarrow> impl" where
  "release_run_entry schedule index now s = (case find_schedule s schedule of
     None \<Rightarrow> s
   | Some sr \<Rightarrow>
       if index \<ge> length (sc_entries (sr_schedule sr)) \<or> sr_consumed sr ! index \<noteq> 0 then s
       else
         let e = sc_entries (sr_schedule sr) ! index;
             s1 = modify_schedule schedule (\<lambda>sr. sr\<lparr>sr_consumed := (sr_consumed sr)[index := 2]\<rparr>) s
         in if se_kind e \<noteq> KindRun then s1
            else
              let s2 = modify_schedule schedule
                    (\<lambda>sr. sr\<lparr>sr_pending_entries := decrement (sr_pending_entries sr)\<rparr>) s1
              in case om_find (se_flow e) (im_flows s2) of
                   None \<Rightarrow> s2
                 | Some r \<Rightarrow>
                     if fr_lifecycle r \<noteq> FlowScheduled
                        \<or> fr_scheduled_schedule r \<noteq> sc_schedule (sr_schedule sr)
                     then s2 else reclaim_entry e now s2)"

definition apply_release_schedule :: "schedule_id \<Rightarrow> ticks \<Rightarrow> impl \<Rightarrow> impl" where
  "apply_release_schedule schedule now s = (case find_schedule s schedule of
     None \<Rightarrow> s
   | Some sr \<Rightarrow>
       fold (\<lambda>index. release_run_entry schedule index now) [0..<length (sc_entries (sr_schedule sr))] s)"

text \<open>
  One turn of the loop of \<^verbatim>\<open>apply_schedule\<close> for a Run entry whose flow takes the window: the flow
  is placed, its resource interval, its reservation and the virtual clock of its group are charged.
\<close>

definition place_flow :: "schedule \<Rightarrow> schedule_entry \<Rightarrow> impl \<Rightarrow> impl" where
  "place_flow sched e s =
     modify_flow (se_flow e) (record_step (se_start_tick e) FlowScheduled ReasonSelected
       (sc_schedule sched) unbound (se_detail e))
     (set_lifecycle (se_flow e) FlowScheduled (se_start_tick e)
       (modify_flow (se_flow e)
         (\<lambda>r. r\<lparr>fr_outstanding_reserved := saturating_add (fr_outstanding_reserved r) (se_quantum e),
                fr_scheduled_schedule := sc_schedule sched,
                fr_scheduled_generation := sc_generation sched,
                fr_scheduled_ordinal := se_ordinal e,
                fr_scheduled_tick := se_start_tick e\<rparr>) s))"

definition charge_resource :: "schedule_entry \<Rightarrow> impl \<Rightarrow> impl" where
  "charge_resource e s = modify_resource (se_resource e) (\<lambda>rr.
     if res_generation (rr_descriptor rr) = se_resource_generation e
     then let rr' = roll_interval (se_start_tick e) rr in
       rr'\<lparr>rr_reserved_this_interval := saturating_add (rr_reserved_this_interval rr') (se_quantum e),
           rr_in_flight := rr_in_flight rr' + 1\<rparr>
     else rr) s"

definition charge_reservation :: "schedule_entry \<Rightarrow> impl \<Rightarrow> impl" where
  "charge_reservation e s =
     (if id_valid (se_reservation e)
      then s\<lparr>im_reservations := om_modify (se_reservation e) (\<lambda>rv.
             if rsv_generation (rv_descriptor rv) = se_reservation_generation e
             then rv\<lparr>rv_reserved_units := saturating_add (rv_reserved_units rv) (se_quantum e)\<rparr>
             else rv) (im_reservations s)\<rparr>
      else s)"

definition advance_clock :: "flow_runtime \<Rightarrow> impl \<Rightarrow> impl" where
  "advance_clock r s =
     (if sp_weighted_fairness (im_policy s)
      then let fg = fd_fairness_group (fr_descriptor r); clock = virtual_clock s fg in
        s\<lparr>im_virtual_time := om_put fg
            (if clock < fr_virtual_finish r then fr_virtual_finish r else clock) (im_virtual_time s)\<rparr>
      else s)"

definition apply_schedule_entry :: "schedule \<Rightarrow> schedule_entry \<Rightarrow> impl \<Rightarrow> impl" where
  "apply_schedule_entry sched e s =
     (if se_kind e \<noteq> KindRun then s
      else case om_find (se_flow e) (im_flows s) of
        None \<Rightarrow> s
      | Some r \<Rightarrow>
          if fd_generation (fr_descriptor r) \<noteq> se_flow_generation e then s
          else if is_terminal (fr_lifecycle r) \<or> holds_open_work (fr_lifecycle r) then s
          else advance_clock r
            (charge_reservation e (charge_resource e
              (modify_schedule (sc_schedule sched)
                (\<lambda>sr. sr\<lparr>sr_pending_entries := sr_pending_entries sr + 1\<rparr>)
                (place_flow sched e s)))))"

definition apply_schedule :: "schedule \<Rightarrow> impl \<Rightarrow> impl" where
  "apply_schedule sched s =
     fold (apply_schedule_entry sched) (sc_entries sched)
       (s\<lparr>im_schedules := om_put (sc_schedule sched)
            \<lparr>sr_schedule = sched, sr_consumed = replicate (length (sc_entries sched)) 0,
             sr_open_attempts = 0, sr_pending_entries = 0\<rparr> (im_schedules s),
          im_schedule_order := im_schedule_order s @ [sc_schedule sched],
          im_schedules_issued := im_schedules_issued s + 1,
          im_schedule_entries_issued := im_schedule_entries_issued s + of_nat (length (sc_entries sched))\<rparr>)"

section \<open>Attempts\<close>

definition open_attempt_record :: "dispatch_ticket \<Rightarrow> ticks \<Rightarrow> attempt_runtime" where
  "open_attempt_record t now = \<lparr>ar_ticket = t, ar_state = AttemptOpen, ar_opened_tick = now,
     ar_closed_tick = 0, ar_has_evidence = False, ar_evidence_digest = 0, ar_credited = 0,
     ar_close_detail = []\<rparr>"

definition apply_attempt_opened :: "dispatch_ticket \<Rightarrow> u64 \<Rightarrow> ticks \<Rightarrow> impl \<Rightarrow> impl" where
  "apply_attempt_opened t nominal_work now s =
     (let previous = (case om_find (dt_schedule t) (im_schedule_attempts s) of
            None \<Rightarrow> [] | Some xs \<Rightarrow> xs);
          s1 = s\<lparr>im_attempts := om_put (dt_attempt t) (open_attempt_record t now) (im_attempts s),
                 im_schedule_attempts := om_put (dt_schedule t) (previous @ [dt_attempt t])
                   (im_schedule_attempts s)\<rparr>;
          s2 = modify_schedule (dt_schedule t)
                 (\<lambda>sr. sr\<lparr>sr_open_attempts := sr_open_attempts sr + 1\<rparr>) s1
      in case current_flow (dt_flow t) (dt_flow_generation t) s2 of
           None \<Rightarrow> s2
         | Some _ \<Rightarrow>
             modify_flow (dt_flow t) (record_step now FlowDispatched ReasonSelected (dt_schedule t)
               (dt_attempt t) (lit ''dispatch issued with '' @ dec (dt_quantum t) @ lit '' units of ''
                 @ dec nominal_work @ lit '' nominal work''))
             (set_lifecycle (dt_flow t) FlowDispatched now
               (modify_flow (dt_flow t)
                 (\<lambda>r. r\<lparr>fr_open_attempt := dt_attempt t,
                    fr_accounting := (fr_accounting r)\<lparr>fa_dispatches_issued :=
                      fa_dispatches_issued (fr_accounting r) + 1\<rparr>\<rparr>) s2)))"

definition apply_attempt_started :: "attempt_id \<Rightarrow> ticks \<Rightarrow> impl \<Rightarrow> impl" where
  "apply_attempt_started attempt now s = (case om_find attempt (im_attempts s) of
     None \<Rightarrow> s
   | Some rec \<Rightarrow>
       if is_attempt_terminal (ar_state rec) \<or> ar_state rec = AttemptStarted then s
       else
         let s1 = modify_attempt attempt (\<lambda>rec. rec\<lparr>ar_state := AttemptStarted\<rparr>) s;
             flow = dt_flow (ar_ticket rec)
         in case om_find flow (im_flows s1) of
              None \<Rightarrow> s1
            | Some r \<Rightarrow>
                if fr_open_attempt r \<noteq> attempt then s1
                else set_lifecycle flow FlowRunning now
                  (modify_flow flow (\<lambda>r. r\<lparr>fr_accounting := (fr_accounting r)\<lparr>fa_dispatches_started :=
                      fa_dispatches_started (fr_accounting r) + 1\<rparr>\<rparr>) s1))"

definition release_open_attempt :: "schedule_id \<Rightarrow> impl \<Rightarrow> impl" where
  "release_open_attempt schedule =
     modify_schedule schedule (\<lambda>sr. sr\<lparr>sr_open_attempts := decrement (sr_open_attempts sr)\<rparr>)"

text \<open>What closing an attempt in a given state does to the flow that owned it.\<close>

definition settle_flow :: "attempt_runtime \<Rightarrow> attempt_id \<Rightarrow> attempt_state \<Rightarrow> bytes \<Rightarrow> ticks \<Rightarrow> impl \<Rightarrow> impl" where
  "settle_flow rec attempt state detail now s =
     (let flow = dt_flow (ar_ticket rec); schedule = dt_schedule (ar_ticket rec);
          note_step = (\<lambda>lifecycle reason. modify_flow flow
            (record_step now lifecycle reason schedule attempt detail))
      in case state of
           AttemptPreempted \<Rightarrow>
             note_step FlowPreempting ReasonDisplacedByHigherAuthority
               (set_lifecycle flow FlowPreempting now
                 (modify_flow flow (\<lambda>r. r\<lparr>fr_accounting := (fr_accounting r)\<lparr>fa_preemptions :=
                    fa_preemptions (fr_accounting r) + 1\<rparr>\<rparr>) s))
         | AttemptCancelled \<Rightarrow>
             note_step FlowCancelling ReasonTerminal (set_lifecycle flow FlowCancelling now s)
         | AttemptAbandoned \<Rightarrow>
             note_step FlowAmbiguous ReasonAmbiguousRequiresResolution
               (set_lifecycle flow FlowAmbiguous now s)
         | AttemptRejected \<Rightarrow>
             note_step FlowReady ReasonSelected (set_lifecycle flow FlowReady now s)
         | _ \<Rightarrow> s)"

definition apply_attempt_closed :: "attempt_id \<Rightarrow> attempt_state \<Rightarrow> bytes \<Rightarrow> ticks \<Rightarrow> impl \<Rightarrow> impl" where
  "apply_attempt_closed attempt state detail now s = (case om_find attempt (im_attempts s) of
     None \<Rightarrow> s
   | Some rec \<Rightarrow>
       if is_attempt_terminal (ar_state rec) then s
       else
         let t = ar_ticket rec;
             s1 = modify_attempt attempt (\<lambda>rec. rec\<lparr>ar_state := state, ar_closed_tick := now,
                    ar_close_detail := bounded_detail detail\<rparr>) s;
             s2 = release_open_attempt (dt_schedule t) s1
         in case om_find (dt_flow t) (im_flows s2) of
              None \<Rightarrow> s2
            | Some r \<Rightarrow>
                if fr_open_attempt r \<noteq> attempt then s2
                else settle_flow rec attempt state (bounded_detail detail) now
                  (release_slot (dt_resource t)
                    (modify_flow (dt_flow t)
                      (\<lambda>r. (release_reserved (dt_quantum t) r)\<lparr>fr_open_attempt := unbound\<rparr>) s2)))"

section \<open>Completion\<close>

definition credit_flow :: "u64 \<Rightarrow> flow_runtime \<Rightarrow> flow_runtime" where
  "credit_flow credited r =
     (if credited > 0
      then r\<lparr>fr_served_work := saturating_add (fr_served_work r) credited,
             fr_accounting := (fr_accounting r)\<lparr>fa_service_credit :=
               saturating_add (fa_service_credit (fr_accounting r)) credited\<rparr>,
             fr_min_service_delivered := saturating_add (fr_min_service_delivered r) credited\<rparr>
      else r)"

definition count_completion :: "flow_runtime \<Rightarrow> flow_runtime" where
  "count_completion r = r\<lparr>fr_accounting := (fr_accounting r)\<lparr>fa_completions_committed :=
     fa_completions_committed (fr_accounting r) + 1\<rparr>\<rparr>"

definition settle_completion :: "u64 \<Rightarrow> u64 \<Rightarrow> flow_runtime \<Rightarrow> flow_runtime" where
  "settle_completion quantum credited r =
     count_completion (credit_flow credited
       (clear_scheduled ((release_reserved quantum r)\<lparr>fr_open_attempt := unbound\<rparr>)))"

definition apply_completion ::
  "completion_evidence \<Rightarrow> u64 \<Rightarrow> flow_lifecycle \<Rightarrow> ticks \<Rightarrow> impl \<Rightarrow> impl" where
  "apply_completion ev credited lifecycle_after now s = (case om_find (ce_attempt ev) (im_attempts s) of
     None \<Rightarrow> s
   | Some rec \<Rightarrow>
       let t = ar_ticket rec; flow = ce_flow ev;
           s1 = modify_attempt (ce_attempt ev) (\<lambda>rec. rec\<lparr>ar_state := AttemptCommitted,
                  ar_closed_tick := now, ar_has_evidence := True,
                  ar_evidence_digest := evidence_digest ev, ar_credited := credited\<rparr>) s;
           s2 = release_open_attempt (dt_schedule t) s1
       in case om_find flow (im_flows s2) of
            None \<Rightarrow> s2
          | Some _ \<Rightarrow>
              let s3 = release_slot (dt_resource t)
                    (modify_flow flow (settle_completion (dt_quantum t) credited) s2);
                  s4 = s3\<lparr>im_completions_applied := im_completions_applied s3 + 1\<rparr>
              in modify_flow flow (record_step now lifecycle_after ReasonSelected (dt_schedule t)
                   (ce_attempt ev) (lit ''completion committed with '' @ dec credited
                     @ lit '' units credited''))
                 (set_lifecycle flow lifecycle_after now s4))"

section \<open>Cancellation, transient states and epochs\<close>

text \<open>What \<^verbatim>\<open>update_flow\<close> and \<^verbatim>\<open>apply_cancel\<close> do with an undelivered entry of the flow.\<close>

definition release_scheduled_entry :: "flow_id \<Rightarrow> ticks \<Rightarrow> impl \<Rightarrow> impl" where
  "release_scheduled_entry flow now s = (case om_find flow (im_flows s) of
     None \<Rightarrow> s
   | Some r \<Rightarrow>
       if fr_lifecycle r = FlowScheduled
       then case find_schedule s (fr_scheduled_schedule r) of
              None \<Rightarrow> s
            | Some sr \<Rightarrow>
                if unat (fr_scheduled_ordinal r) < length (sr_consumed sr)
                then release_run_entry (fr_scheduled_schedule r) (unat (fr_scheduled_ordinal r)) now s
                else s
       else s)"

text \<open>
  \<^verbatim>\<open>apply_cancel\<close> reads the flow again after closing its attempt, because the C++ reference sees
  what the nested transition did to it.
\<close>

definition apply_cancel :: "flow_id \<Rightarrow> generation \<Rightarrow> ticks \<Rightarrow> impl \<Rightarrow> impl" where
  "apply_cancel flow generation now s = (case current_flow flow generation s of
     None \<Rightarrow> s
   | Some r \<Rightarrow>
       let s1 = (if id_valid (fr_open_attempt r)
                 then apply_attempt_closed (fr_open_attempt r) AttemptCancelled
                        (lit ''flow cancelled'') now s
                 else s);
           s2 = release_scheduled_entry flow now s1;
           s3 = set_lifecycle flow FlowCancelled now s2
       in modify_flow flow (record_step now FlowCancelled ReasonTerminal unbound unbound
            (lit ''cancelled by caller''))
          (modify_flow flow (\<lambda>r. (clear_scheduled r)\<lparr>fr_outstanding_reserved := 0\<rparr>) s3))"

definition normalize_flow :: "ticks \<Rightarrow> flow_id \<Rightarrow> impl \<Rightarrow> impl" where
  "normalize_flow now flow s = (case om_find flow (im_flows s) of
     None \<Rightarrow> s
   | Some r \<Rightarrow>
       if fr_lifecycle r = FlowPreempting then set_lifecycle flow FlowReady now s
       else if fr_lifecycle r = FlowCancelling then set_lifecycle flow FlowCancelled now s
       else s)"

definition normalize_transient_states :: "ticks \<Rightarrow> impl \<Rightarrow> impl" where
  "normalize_transient_states now s = fold (normalize_flow now) (om_keys (im_flows s)) s"

definition open_attempts :: "impl \<Rightarrow> attempt_id list" where
  "open_attempts s = map fst (filter (\<lambda>(_, rec). \<not> is_attempt_terminal (ar_state rec)) (im_attempts s))"

definition abandon_open_attempts :: "ticks \<Rightarrow> bytes \<Rightarrow> impl \<Rightarrow> impl" where
  "abandon_open_attempts now detail s =
     (let s1 = fold (\<lambda>attempt s.
            let s' = apply_attempt_closed attempt AttemptAbandoned detail now s in
            s'\<lparr>im_recovery := (im_recovery s')\<lparr>rp_attempts_abandoned :=
                 rp_attempts_abandoned (im_recovery s') + 1\<rparr>\<rparr>) (open_attempts s) s;
          s2 = fold (\<lambda>schedule. apply_release_schedule schedule now) (im_schedule_order s1) s1
      in normalize_transient_states now s2)"

definition retire_flow_authority :: "flow_runtime \<Rightarrow> flow_runtime" where
  "retire_flow_authority r = (clear_scheduled r)\<lparr>fr_outstanding_reserved := 0\<rparr>"

definition apply_epoch_advance ::
  "fabric_epoch \<Rightarrow> fabric_epoch \<Rightarrow> epoch_reason \<Rightarrow> ticks \<Rightarrow> impl \<Rightarrow> impl" where
  "apply_epoch_advance previous nxt reason now s =
     (let s1 = abandon_open_attempts now (lit ''epoch advanced: prior dispatch authority retired'') s;
          ambiguous = length (filter (\<lambda>r. fr_lifecycle r = FlowAmbiguous) (om_values (im_flows s1)));
          report = im_recovery s1;
          s2 = reindex_all (s1\<lparr>
                 im_flows := map (\<lambda>(k, r). (k, retire_flow_authority r)) (im_flows s1),
                 im_resources := map (\<lambda>(k, rr). (k, rr\<lparr>rr_in_flight := 0\<rparr>)) (im_resources s1),
                 im_recovery := report\<lparr>
                   rp_flows_made_ambiguous := rp_flows_made_ambiguous report + of_nat ambiguous,
                   rp_schedules_retired := rp_schedules_retired report
                     + of_nat (length (im_schedules s1))\<rparr>\<rparr>)
      in s2\<lparr>im_schedules := [], im_schedule_attempts := [], im_schedule_order := [],
            im_attempts := [], im_epoch := nxt, im_preemptions_in_window := 0,
            im_preemption_window_index := 0\<rparr>)"

section \<open>Retention of schedules\<close>

definition drop_schedule :: "schedule_id \<Rightarrow> impl \<Rightarrow> impl" where
  "drop_schedule front s =
     (case om_find front (im_schedule_attempts s) of
        None \<Rightarrow> s\<lparr>im_schedules := om_erase front (im_schedules s)\<rparr>
      | Some attempts \<Rightarrow>
          s\<lparr>im_attempts := fold om_erase attempts (im_attempts s),
            im_schedule_attempts := om_erase front (im_schedule_attempts s),
            im_schedules := om_erase front (im_schedules s)\<rparr>)"

text \<open>
  The \<^verbatim>\<open>while\<close> loop of \<^verbatim>\<open>maybe_retire_schedules\<close>, by recursion on the queue it shortens on every
  turn that does not leave it.
\<close>

fun retire_loop :: "schedule_id list \<Rightarrow> impl \<Rightarrow> impl" where
  "retire_loop [] s = s\<lparr>im_schedule_order := []\<rparr>"
| "retire_loop (front # rest) s =
     (if length (front # rest) \<le> unat (sp_retained_schedule_history (im_policy s))
      then s\<lparr>im_schedule_order := front # rest\<rparr>
      else case find_schedule s front of
        None \<Rightarrow> retire_loop rest s
      | Some sr \<Rightarrow>
          if sr_open_attempts sr > 0 \<or> sr_pending_entries sr > 0
          then s\<lparr>im_schedule_order := front # rest\<rparr>
          else retire_loop rest (drop_schedule front s))"

definition maybe_retire_schedules :: "impl \<Rightarrow> impl" where
  "maybe_retire_schedules s = retire_loop (im_schedule_order s) s"

end
