(* ===== verification/Tables.thy ===== *)
theory Tables
  imports Transitions
begin

text \<open>
  The flow table and its three indexes: what the primitive updates of theory \<open>State\<close> leave alone,
  what a lookup finds after them, and that they keep the table ordered and the indexes exact.
\<close>

section \<open>Frames\<close>

text \<open>Each primitive writes one table; every other member of the state is as before.\<close>

lemma modify_flow_frame [simp]:
  "im_options (modify_flow k f s) = im_options s" "im_policy (modify_flow k f s) = im_policy s"
  "im_policy_binding (modify_flow k f s) = im_policy_binding s"
  "im_epoch (modify_flow k f s) = im_epoch s" "im_resources (modify_flow k f s) = im_resources s"
  "im_reservations (modify_flow k f s) = im_reservations s"
  "im_priority_classes (modify_flow k f s) = im_priority_classes s"
  "im_qos_classes (modify_flow k f s) = im_qos_classes s"
  "im_virtual_time (modify_flow k f s) = im_virtual_time s"
  "im_waiting_index (modify_flow k f s) = im_waiting_index s"
  "im_ready_index (modify_flow k f s) = im_ready_index s"
  "im_inflight_index (modify_flow k f s) = im_inflight_index s"
  "im_attempts (modify_flow k f s) = im_attempts s"
  "im_schedules (modify_flow k f s) = im_schedules s"
  "im_schedule_attempts (modify_flow k f s) = im_schedule_attempts s"
  "im_schedule_order (modify_flow k f s) = im_schedule_order s"
  "im_next_attempt (modify_flow k f s) = im_next_attempt s"
  "im_next_schedule (modify_flow k f s) = im_next_schedule s"
  "im_next_schedule_generation (modify_flow k f s) = im_next_schedule_generation s"
  "im_last_tick (modify_flow k f s) = im_last_tick s"
  "im_provenance_sequence (modify_flow k f s) = im_provenance_sequence s"
  "im_arbitration_rounds (modify_flow k f s) = im_arbitration_rounds s"
  "im_schedules_issued (modify_flow k f s) = im_schedules_issued s"
  "im_schedule_entries_issued (modify_flow k f s) = im_schedule_entries_issued s"
  "im_completion_reports (modify_flow k f s) = im_completion_reports s"
  "im_completions_applied (modify_flow k f s) = im_completions_applied s"
  "im_completions_duplicate (modify_flow k f s) = im_completions_duplicate s"
  "im_completions_rejected (modify_flow k f s) = im_completions_rejected s"
  "im_deadline_misses (modify_flow k f s) = im_deadline_misses s"
  "im_preemptions_issued (modify_flow k f s) = im_preemptions_issued s"
  "im_preemption_window_index (modify_flow k f s) = im_preemption_window_index s"
  "im_preemptions_in_window (modify_flow k f s) = im_preemptions_in_window s"
  "im_reservations_retired (modify_flow k f s) = im_reservations_retired s"
  "im_store (modify_flow k f s) = im_store s" "im_recovery (modify_flow k f s) = im_recovery s"
  by (simp_all add: modify_flow_def)

lemma modify_resource_frame [simp]:
  "im_options (modify_resource k f s) = im_options s"
  "im_policy (modify_resource k f s) = im_policy s"
  "im_policy_binding (modify_resource k f s) = im_policy_binding s"
  "im_epoch (modify_resource k f s) = im_epoch s" "im_flows (modify_resource k f s) = im_flows s"
  "im_reservations (modify_resource k f s) = im_reservations s"
  "im_priority_classes (modify_resource k f s) = im_priority_classes s"
  "im_qos_classes (modify_resource k f s) = im_qos_classes s"
  "im_virtual_time (modify_resource k f s) = im_virtual_time s"
  "im_waiting_index (modify_resource k f s) = im_waiting_index s"
  "im_ready_index (modify_resource k f s) = im_ready_index s"
  "im_inflight_index (modify_resource k f s) = im_inflight_index s"
  "im_attempts (modify_resource k f s) = im_attempts s"
  "im_schedules (modify_resource k f s) = im_schedules s"
  "im_schedule_attempts (modify_resource k f s) = im_schedule_attempts s"
  "im_schedule_order (modify_resource k f s) = im_schedule_order s"
  "im_next_attempt (modify_resource k f s) = im_next_attempt s"
  "im_next_schedule (modify_resource k f s) = im_next_schedule s"
  "im_next_schedule_generation (modify_resource k f s) = im_next_schedule_generation s"
  "im_last_tick (modify_resource k f s) = im_last_tick s"
  "im_provenance_sequence (modify_resource k f s) = im_provenance_sequence s"
  "im_arbitration_rounds (modify_resource k f s) = im_arbitration_rounds s"
  "im_schedules_issued (modify_resource k f s) = im_schedules_issued s"
  "im_schedule_entries_issued (modify_resource k f s) = im_schedule_entries_issued s"
  "im_completion_reports (modify_resource k f s) = im_completion_reports s"
  "im_completions_applied (modify_resource k f s) = im_completions_applied s"
  "im_completions_duplicate (modify_resource k f s) = im_completions_duplicate s"
  "im_completions_rejected (modify_resource k f s) = im_completions_rejected s"
  "im_deadline_misses (modify_resource k f s) = im_deadline_misses s"
  "im_preemptions_issued (modify_resource k f s) = im_preemptions_issued s"
  "im_preemption_window_index (modify_resource k f s) = im_preemption_window_index s"
  "im_preemptions_in_window (modify_resource k f s) = im_preemptions_in_window s"
  "im_reservations_retired (modify_resource k f s) = im_reservations_retired s"
  "im_store (modify_resource k f s) = im_store s"
  "im_recovery (modify_resource k f s) = im_recovery s"
  by (simp_all add: modify_resource_def)

lemma modify_schedule_frame [simp]:
  "im_options (modify_schedule k f s) = im_options s"
  "im_policy (modify_schedule k f s) = im_policy s"
  "im_policy_binding (modify_schedule k f s) = im_policy_binding s"
  "im_epoch (modify_schedule k f s) = im_epoch s" "im_flows (modify_schedule k f s) = im_flows s"
  "im_resources (modify_schedule k f s) = im_resources s"
  "im_reservations (modify_schedule k f s) = im_reservations s"
  "im_priority_classes (modify_schedule k f s) = im_priority_classes s"
  "im_qos_classes (modify_schedule k f s) = im_qos_classes s"
  "im_virtual_time (modify_schedule k f s) = im_virtual_time s"
  "im_waiting_index (modify_schedule k f s) = im_waiting_index s"
  "im_ready_index (modify_schedule k f s) = im_ready_index s"
  "im_inflight_index (modify_schedule k f s) = im_inflight_index s"
  "im_attempts (modify_schedule k f s) = im_attempts s"
  "im_schedule_attempts (modify_schedule k f s) = im_schedule_attempts s"
  "im_schedule_order (modify_schedule k f s) = im_schedule_order s"
  "im_next_attempt (modify_schedule k f s) = im_next_attempt s"
  "im_next_schedule (modify_schedule k f s) = im_next_schedule s"
  "im_next_schedule_generation (modify_schedule k f s) = im_next_schedule_generation s"
  "im_last_tick (modify_schedule k f s) = im_last_tick s"
  "im_provenance_sequence (modify_schedule k f s) = im_provenance_sequence s"
  "im_arbitration_rounds (modify_schedule k f s) = im_arbitration_rounds s"
  "im_schedules_issued (modify_schedule k f s) = im_schedules_issued s"
  "im_schedule_entries_issued (modify_schedule k f s) = im_schedule_entries_issued s"
  "im_completion_reports (modify_schedule k f s) = im_completion_reports s"
  "im_completions_applied (modify_schedule k f s) = im_completions_applied s"
  "im_completions_duplicate (modify_schedule k f s) = im_completions_duplicate s"
  "im_completions_rejected (modify_schedule k f s) = im_completions_rejected s"
  "im_deadline_misses (modify_schedule k f s) = im_deadline_misses s"
  "im_preemptions_issued (modify_schedule k f s) = im_preemptions_issued s"
  "im_preemption_window_index (modify_schedule k f s) = im_preemption_window_index s"
  "im_preemptions_in_window (modify_schedule k f s) = im_preemptions_in_window s"
  "im_reservations_retired (modify_schedule k f s) = im_reservations_retired s"
  "im_store (modify_schedule k f s) = im_store s"
  "im_recovery (modify_schedule k f s) = im_recovery s"
  by (simp_all add: modify_schedule_def)

lemma modify_attempt_frame [simp]:
  "im_options (modify_attempt k f s) = im_options s"
  "im_policy (modify_attempt k f s) = im_policy s"
  "im_policy_binding (modify_attempt k f s) = im_policy_binding s"
  "im_epoch (modify_attempt k f s) = im_epoch s" "im_flows (modify_attempt k f s) = im_flows s"
  "im_resources (modify_attempt k f s) = im_resources s"
  "im_reservations (modify_attempt k f s) = im_reservations s"
  "im_priority_classes (modify_attempt k f s) = im_priority_classes s"
  "im_qos_classes (modify_attempt k f s) = im_qos_classes s"
  "im_virtual_time (modify_attempt k f s) = im_virtual_time s"
  "im_waiting_index (modify_attempt k f s) = im_waiting_index s"
  "im_ready_index (modify_attempt k f s) = im_ready_index s"
  "im_inflight_index (modify_attempt k f s) = im_inflight_index s"
  "im_schedules (modify_attempt k f s) = im_schedules s"
  "im_schedule_attempts (modify_attempt k f s) = im_schedule_attempts s"
  "im_schedule_order (modify_attempt k f s) = im_schedule_order s"
  "im_next_attempt (modify_attempt k f s) = im_next_attempt s"
  "im_next_schedule (modify_attempt k f s) = im_next_schedule s"
  "im_next_schedule_generation (modify_attempt k f s) = im_next_schedule_generation s"
  "im_last_tick (modify_attempt k f s) = im_last_tick s"
  "im_provenance_sequence (modify_attempt k f s) = im_provenance_sequence s"
  "im_arbitration_rounds (modify_attempt k f s) = im_arbitration_rounds s"
  "im_schedules_issued (modify_attempt k f s) = im_schedules_issued s"
  "im_schedule_entries_issued (modify_attempt k f s) = im_schedule_entries_issued s"
  "im_completion_reports (modify_attempt k f s) = im_completion_reports s"
  "im_completions_applied (modify_attempt k f s) = im_completions_applied s"
  "im_completions_duplicate (modify_attempt k f s) = im_completions_duplicate s"
  "im_completions_rejected (modify_attempt k f s) = im_completions_rejected s"
  "im_deadline_misses (modify_attempt k f s) = im_deadline_misses s"
  "im_preemptions_issued (modify_attempt k f s) = im_preemptions_issued s"
  "im_preemption_window_index (modify_attempt k f s) = im_preemption_window_index s"
  "im_preemptions_in_window (modify_attempt k f s) = im_preemptions_in_window s"
  "im_reservations_retired (modify_attempt k f s) = im_reservations_retired s"
  "im_store (modify_attempt k f s) = im_store s"
  "im_recovery (modify_attempt k f s) = im_recovery s"
  by (simp_all add: modify_attempt_def)

lemma release_slot_frame [simp]:
  "im_options (release_slot k s) = im_options s" "im_policy (release_slot k s) = im_policy s"
  "im_policy_binding (release_slot k s) = im_policy_binding s"
  "im_epoch (release_slot k s) = im_epoch s" "im_flows (release_slot k s) = im_flows s"
  "im_reservations (release_slot k s) = im_reservations s"
  "im_priority_classes (release_slot k s) = im_priority_classes s"
  "im_qos_classes (release_slot k s) = im_qos_classes s"
  "im_virtual_time (release_slot k s) = im_virtual_time s"
  "im_waiting_index (release_slot k s) = im_waiting_index s"
  "im_ready_index (release_slot k s) = im_ready_index s"
  "im_inflight_index (release_slot k s) = im_inflight_index s"
  "im_attempts (release_slot k s) = im_attempts s"
  "im_schedules (release_slot k s) = im_schedules s"
  "im_schedule_attempts (release_slot k s) = im_schedule_attempts s"
  "im_schedule_order (release_slot k s) = im_schedule_order s"
  "im_next_attempt (release_slot k s) = im_next_attempt s"
  "im_next_schedule (release_slot k s) = im_next_schedule s"
  "im_next_schedule_generation (release_slot k s) = im_next_schedule_generation s"
  "im_last_tick (release_slot k s) = im_last_tick s"
  "im_provenance_sequence (release_slot k s) = im_provenance_sequence s"
  "im_arbitration_rounds (release_slot k s) = im_arbitration_rounds s"
  "im_schedules_issued (release_slot k s) = im_schedules_issued s"
  "im_schedule_entries_issued (release_slot k s) = im_schedule_entries_issued s"
  "im_completion_reports (release_slot k s) = im_completion_reports s"
  "im_completions_applied (release_slot k s) = im_completions_applied s"
  "im_completions_duplicate (release_slot k s) = im_completions_duplicate s"
  "im_completions_rejected (release_slot k s) = im_completions_rejected s"
  "im_deadline_misses (release_slot k s) = im_deadline_misses s"
  "im_preemptions_issued (release_slot k s) = im_preemptions_issued s"
  "im_preemption_window_index (release_slot k s) = im_preemption_window_index s"
  "im_preemptions_in_window (release_slot k s) = im_preemptions_in_window s"
  "im_reservations_retired (release_slot k s) = im_reservations_retired s"
  "im_store (release_slot k s) = im_store s" "im_recovery (release_slot k s) = im_recovery s"
  by (simp_all add: release_slot_def)

lemma release_open_attempt_frame [simp]:
  "im_options (release_open_attempt k s) = im_options s"
  "im_policy (release_open_attempt k s) = im_policy s"
  "im_policy_binding (release_open_attempt k s) = im_policy_binding s"
  "im_epoch (release_open_attempt k s) = im_epoch s"
  "im_flows (release_open_attempt k s) = im_flows s"
  "im_resources (release_open_attempt k s) = im_resources s"
  "im_reservations (release_open_attempt k s) = im_reservations s"
  "im_priority_classes (release_open_attempt k s) = im_priority_classes s"
  "im_qos_classes (release_open_attempt k s) = im_qos_classes s"
  "im_virtual_time (release_open_attempt k s) = im_virtual_time s"
  "im_waiting_index (release_open_attempt k s) = im_waiting_index s"
  "im_ready_index (release_open_attempt k s) = im_ready_index s"
  "im_inflight_index (release_open_attempt k s) = im_inflight_index s"
  "im_attempts (release_open_attempt k s) = im_attempts s"
  "im_schedule_attempts (release_open_attempt k s) = im_schedule_attempts s"
  "im_schedule_order (release_open_attempt k s) = im_schedule_order s"
  "im_next_attempt (release_open_attempt k s) = im_next_attempt s"
  "im_next_schedule (release_open_attempt k s) = im_next_schedule s"
  "im_next_schedule_generation (release_open_attempt k s) = im_next_schedule_generation s"
  "im_last_tick (release_open_attempt k s) = im_last_tick s"
  "im_provenance_sequence (release_open_attempt k s) = im_provenance_sequence s"
  "im_arbitration_rounds (release_open_attempt k s) = im_arbitration_rounds s"
  "im_schedules_issued (release_open_attempt k s) = im_schedules_issued s"
  "im_schedule_entries_issued (release_open_attempt k s) = im_schedule_entries_issued s"
  "im_completion_reports (release_open_attempt k s) = im_completion_reports s"
  "im_completions_applied (release_open_attempt k s) = im_completions_applied s"
  "im_completions_duplicate (release_open_attempt k s) = im_completions_duplicate s"
  "im_completions_rejected (release_open_attempt k s) = im_completions_rejected s"
  "im_deadline_misses (release_open_attempt k s) = im_deadline_misses s"
  "im_preemptions_issued (release_open_attempt k s) = im_preemptions_issued s"
  "im_preemption_window_index (release_open_attempt k s) = im_preemption_window_index s"
  "im_preemptions_in_window (release_open_attempt k s) = im_preemptions_in_window s"
  "im_reservations_retired (release_open_attempt k s) = im_reservations_retired s"
  "im_store (release_open_attempt k s) = im_store s"
  "im_recovery (release_open_attempt k s) = im_recovery s"
  by (simp_all add: release_open_attempt_def)

lemma index_insert_frame [simp]:
  "im_options (index_insert n k s) = im_options s" "im_policy (index_insert n k s) = im_policy s"
  "im_policy_binding (index_insert n k s) = im_policy_binding s"
  "im_epoch (index_insert n k s) = im_epoch s" "im_flows (index_insert n k s) = im_flows s"
  "im_resources (index_insert n k s) = im_resources s"
  "im_reservations (index_insert n k s) = im_reservations s"
  "im_priority_classes (index_insert n k s) = im_priority_classes s"
  "im_qos_classes (index_insert n k s) = im_qos_classes s"
  "im_virtual_time (index_insert n k s) = im_virtual_time s"
  "im_attempts (index_insert n k s) = im_attempts s"
  "im_schedules (index_insert n k s) = im_schedules s"
  "im_schedule_attempts (index_insert n k s) = im_schedule_attempts s"
  "im_schedule_order (index_insert n k s) = im_schedule_order s"
  "im_next_attempt (index_insert n k s) = im_next_attempt s"
  "im_next_schedule (index_insert n k s) = im_next_schedule s"
  "im_next_schedule_generation (index_insert n k s) = im_next_schedule_generation s"
  "im_last_tick (index_insert n k s) = im_last_tick s"
  "im_provenance_sequence (index_insert n k s) = im_provenance_sequence s"
  "im_arbitration_rounds (index_insert n k s) = im_arbitration_rounds s"
  "im_schedules_issued (index_insert n k s) = im_schedules_issued s"
  "im_schedule_entries_issued (index_insert n k s) = im_schedule_entries_issued s"
  "im_completion_reports (index_insert n k s) = im_completion_reports s"
  "im_completions_applied (index_insert n k s) = im_completions_applied s"
  "im_completions_duplicate (index_insert n k s) = im_completions_duplicate s"
  "im_completions_rejected (index_insert n k s) = im_completions_rejected s"
  "im_deadline_misses (index_insert n k s) = im_deadline_misses s"
  "im_preemptions_issued (index_insert n k s) = im_preemptions_issued s"
  "im_preemption_window_index (index_insert n k s) = im_preemption_window_index s"
  "im_preemptions_in_window (index_insert n k s) = im_preemptions_in_window s"
  "im_reservations_retired (index_insert n k s) = im_reservations_retired s"
  "im_store (index_insert n k s) = im_store s" "im_recovery (index_insert n k s) = im_recovery s"
  by (simp_all add: index_insert_def)

lemma index_erase_frame [simp]:
  "im_options (index_erase n k s) = im_options s" "im_policy (index_erase n k s) = im_policy s"
  "im_policy_binding (index_erase n k s) = im_policy_binding s"
  "im_epoch (index_erase n k s) = im_epoch s" "im_flows (index_erase n k s) = im_flows s"
  "im_resources (index_erase n k s) = im_resources s"
  "im_reservations (index_erase n k s) = im_reservations s"
  "im_priority_classes (index_erase n k s) = im_priority_classes s"
  "im_qos_classes (index_erase n k s) = im_qos_classes s"
  "im_virtual_time (index_erase n k s) = im_virtual_time s"
  "im_attempts (index_erase n k s) = im_attempts s"
  "im_schedules (index_erase n k s) = im_schedules s"
  "im_schedule_attempts (index_erase n k s) = im_schedule_attempts s"
  "im_schedule_order (index_erase n k s) = im_schedule_order s"
  "im_next_attempt (index_erase n k s) = im_next_attempt s"
  "im_next_schedule (index_erase n k s) = im_next_schedule s"
  "im_next_schedule_generation (index_erase n k s) = im_next_schedule_generation s"
  "im_last_tick (index_erase n k s) = im_last_tick s"
  "im_provenance_sequence (index_erase n k s) = im_provenance_sequence s"
  "im_arbitration_rounds (index_erase n k s) = im_arbitration_rounds s"
  "im_schedules_issued (index_erase n k s) = im_schedules_issued s"
  "im_schedule_entries_issued (index_erase n k s) = im_schedule_entries_issued s"
  "im_completion_reports (index_erase n k s) = im_completion_reports s"
  "im_completions_applied (index_erase n k s) = im_completions_applied s"
  "im_completions_duplicate (index_erase n k s) = im_completions_duplicate s"
  "im_completions_rejected (index_erase n k s) = im_completions_rejected s"
  "im_deadline_misses (index_erase n k s) = im_deadline_misses s"
  "im_preemptions_issued (index_erase n k s) = im_preemptions_issued s"
  "im_preemption_window_index (index_erase n k s) = im_preemption_window_index s"
  "im_preemptions_in_window (index_erase n k s) = im_preemptions_in_window s"
  "im_reservations_retired (index_erase n k s) = im_reservations_retired s"
  "im_store (index_erase n k s) = im_store s" "im_recovery (index_erase n k s) = im_recovery s"
  by (simp_all add: index_erase_def)

lemma update_index_frame [simp]:
  "im_options (update_index k l l' s) = im_options s"
  "im_policy (update_index k l l' s) = im_policy s"
  "im_policy_binding (update_index k l l' s) = im_policy_binding s"
  "im_epoch (update_index k l l' s) = im_epoch s" "im_flows (update_index k l l' s) = im_flows s"
  "im_resources (update_index k l l' s) = im_resources s"
  "im_reservations (update_index k l l' s) = im_reservations s"
  "im_priority_classes (update_index k l l' s) = im_priority_classes s"
  "im_qos_classes (update_index k l l' s) = im_qos_classes s"
  "im_virtual_time (update_index k l l' s) = im_virtual_time s"
  "im_attempts (update_index k l l' s) = im_attempts s"
  "im_schedules (update_index k l l' s) = im_schedules s"
  "im_schedule_attempts (update_index k l l' s) = im_schedule_attempts s"
  "im_schedule_order (update_index k l l' s) = im_schedule_order s"
  "im_next_attempt (update_index k l l' s) = im_next_attempt s"
  "im_next_schedule (update_index k l l' s) = im_next_schedule s"
  "im_next_schedule_generation (update_index k l l' s) = im_next_schedule_generation s"
  "im_last_tick (update_index k l l' s) = im_last_tick s"
  "im_provenance_sequence (update_index k l l' s) = im_provenance_sequence s"
  "im_arbitration_rounds (update_index k l l' s) = im_arbitration_rounds s"
  "im_schedules_issued (update_index k l l' s) = im_schedules_issued s"
  "im_schedule_entries_issued (update_index k l l' s) = im_schedule_entries_issued s"
  "im_completion_reports (update_index k l l' s) = im_completion_reports s"
  "im_completions_applied (update_index k l l' s) = im_completions_applied s"
  "im_completions_duplicate (update_index k l l' s) = im_completions_duplicate s"
  "im_completions_rejected (update_index k l l' s) = im_completions_rejected s"
  "im_deadline_misses (update_index k l l' s) = im_deadline_misses s"
  "im_preemptions_issued (update_index k l l' s) = im_preemptions_issued s"
  "im_preemption_window_index (update_index k l l' s) = im_preemption_window_index s"
  "im_preemptions_in_window (update_index k l l' s) = im_preemptions_in_window s"
  "im_reservations_retired (update_index k l l' s) = im_reservations_retired s"
  "im_store (update_index k l l' s) = im_store s"
  "im_recovery (update_index k l l' s) = im_recovery s"
  by (simp_all add: update_index_def)

lemma set_lifecycle_frame [simp]:
  "im_options (set_lifecycle k l now s) = im_options s"
  "im_policy (set_lifecycle k l now s) = im_policy s"
  "im_policy_binding (set_lifecycle k l now s) = im_policy_binding s"
  "im_epoch (set_lifecycle k l now s) = im_epoch s"
  "im_resources (set_lifecycle k l now s) = im_resources s"
  "im_reservations (set_lifecycle k l now s) = im_reservations s"
  "im_priority_classes (set_lifecycle k l now s) = im_priority_classes s"
  "im_qos_classes (set_lifecycle k l now s) = im_qos_classes s"
  "im_virtual_time (set_lifecycle k l now s) = im_virtual_time s"
  "im_attempts (set_lifecycle k l now s) = im_attempts s"
  "im_schedules (set_lifecycle k l now s) = im_schedules s"
  "im_schedule_attempts (set_lifecycle k l now s) = im_schedule_attempts s"
  "im_schedule_order (set_lifecycle k l now s) = im_schedule_order s"
  "im_next_attempt (set_lifecycle k l now s) = im_next_attempt s"
  "im_next_schedule (set_lifecycle k l now s) = im_next_schedule s"
  "im_next_schedule_generation (set_lifecycle k l now s) = im_next_schedule_generation s"
  "im_last_tick (set_lifecycle k l now s) = im_last_tick s"
  "im_provenance_sequence (set_lifecycle k l now s) = im_provenance_sequence s"
  "im_arbitration_rounds (set_lifecycle k l now s) = im_arbitration_rounds s"
  "im_schedules_issued (set_lifecycle k l now s) = im_schedules_issued s"
  "im_schedule_entries_issued (set_lifecycle k l now s) = im_schedule_entries_issued s"
  "im_completion_reports (set_lifecycle k l now s) = im_completion_reports s"
  "im_completions_applied (set_lifecycle k l now s) = im_completions_applied s"
  "im_completions_duplicate (set_lifecycle k l now s) = im_completions_duplicate s"
  "im_completions_rejected (set_lifecycle k l now s) = im_completions_rejected s"
  "im_deadline_misses (set_lifecycle k l now s) = im_deadline_misses s"
  "im_preemptions_issued (set_lifecycle k l now s) = im_preemptions_issued s"
  "im_preemption_window_index (set_lifecycle k l now s) = im_preemption_window_index s"
  "im_preemptions_in_window (set_lifecycle k l now s) = im_preemptions_in_window s"
  "im_reservations_retired (set_lifecycle k l now s) = im_reservations_retired s"
  "im_store (set_lifecycle k l now s) = im_store s"
  "im_recovery (set_lifecycle k l now s) = im_recovery s"
  by (simp_all add: set_lifecycle_def split: option.split)

section \<open>Lookups\<close>

lemma find_modify_flow [simp]:
  "om_find k (im_flows (modify_flow flow f s)) =
     (if k = flow then map_option f (om_find k (im_flows s)) else om_find k (im_flows s))"
  by (simp add: modify_flow_def)

lemma find_modify_schedule [simp]:
  "om_find k (im_schedules (modify_schedule schedule f s)) =
     (if k = schedule then map_option f (om_find k (im_schedules s)) else om_find k (im_schedules s))"
  by (simp add: modify_schedule_def)

lemma find_modify_attempt [simp]:
  "om_find k (im_attempts (modify_attempt attempt f s)) =
     (if k = attempt then map_option f (om_find k (im_attempts s)) else om_find k (im_attempts s))"
  by (simp add: modify_attempt_def)

text \<open>What \<^verbatim>\<open>set_lifecycle\<close> does to the flow it names.\<close>

definition moved :: "impl \<Rightarrow> flow_lifecycle \<Rightarrow> ticks \<Rightarrow> flow_runtime \<Rightarrow> flow_runtime" where
  "moved s next now r = (if fr_lifecycle r = next then r else enter_lifecycle s next now r)"

lemma find_set_lifecycle [simp]:
  "om_find k (im_flows (set_lifecycle flow next now s)) =
     (if k = flow then map_option (moved s next now) (om_find k (im_flows s))
      else om_find k (im_flows s))"
  by (auto simp: set_lifecycle_def moved_def split: option.split)

lemmas enter_defs = enter_lifecycle_def leave_lifecycle_def stamp_virtual_finish_def
  refresh_min_service_window_def Let_def

lemma moved_simps [simp]:
  "fr_lifecycle (moved s next now r) = next"
  "fr_descriptor (moved s next now r) = fr_descriptor r"
  "fr_served_work (moved s next now r) = fr_served_work r"
  "fr_outstanding_reserved (moved s next now r) = fr_outstanding_reserved r"
  "fr_open_attempt (moved s next now r) = fr_open_attempt r"
  "fr_scheduled_schedule (moved s next now r) = fr_scheduled_schedule r"
  "fr_scheduled_ordinal (moved s next now r) = fr_scheduled_ordinal r"
  by (simp_all add: moved_def enter_defs)

lemma record_step_simps [simp]:
  "fr_lifecycle (record_step now l reason i a detail r) = fr_lifecycle r"
  "fr_descriptor (record_step now l reason i a detail r) = fr_descriptor r"
  "fr_served_work (record_step now l reason i a detail r) = fr_served_work r"
  "fr_outstanding_reserved (record_step now l reason i a detail r) = fr_outstanding_reserved r"
  "fr_open_attempt (record_step now l reason i a detail r) = fr_open_attempt r"
  "fr_scheduled_schedule (record_step now l reason i a detail r) = fr_scheduled_schedule r"
  "fr_scheduled_ordinal (record_step now l reason i a detail r) = fr_scheduled_ordinal r"
  by (simp_all add: record_step_def Let_def)

lemma om_keys_modify_flow [simp]: "om_keys (im_flows (modify_flow k f s)) = om_keys (im_flows s)"
  by (simp add: modify_flow_def)

lemma om_keys_set_lifecycle [simp]:
  "om_keys (im_flows (set_lifecycle k l now s)) = om_keys (im_flows s)"
  by (simp add: set_lifecycle_def split: option.split)

section \<open>Table and indexes\<close>

definition tables_wf :: "impl \<Rightarrow> bool" where
  "tables_wf s \<longleftrightarrow> flows_wf s \<and> index_wf s"

lemma tables_wf_cong:
  assumes "im_flows s = im_flows t" "im_waiting_index s = im_waiting_index t"
    "im_ready_index s = im_ready_index t" "im_inflight_index s = im_inflight_index t"
  shows "tables_wf s = tables_wf t"
  using assms by (simp add: tables_wf_def flows_wf_def index_wf_def in_slot_def)

lemma tables_wf_key: "tables_wf s \<Longrightarrow> om_find k (im_flows s) = Some r \<Longrightarrow> fd_flow (fr_descriptor r) = k"
  by (simp add: tables_wf_def flows_wf_def)

lemma index_members:
  assumes "tables_wf s"
  shows "k \<in> set (im_waiting_index s) \<longleftrightarrow>
      (\<exists>r. om_find k (im_flows s) = Some r \<and> index_slot (fr_lifecycle r) = 1)"
    "k \<in> set (im_ready_index s) \<longleftrightarrow>
      (\<exists>r. om_find k (im_flows s) = Some r \<and> index_slot (fr_lifecycle r) = 2)"
    "k \<in> set (im_inflight_index s) \<longleftrightarrow>
      (\<exists>r. om_find k (im_flows s) = Some r \<and> index_slot (fr_lifecycle r) = 3)"
  using assms by (simp_all add: tables_wf_def index_wf_def in_slot_def)

lemma tables_wf_modify_flow:
  assumes "tables_wf s"
    and "\<And>r. om_find k (im_flows s) = Some r \<Longrightarrow>
      fd_flow (fr_descriptor (f r)) = fd_flow (fr_descriptor r) \<and>
      index_slot (fr_lifecycle (f r)) = index_slot (fr_lifecycle r)"
  shows "tables_wf (modify_flow k f s)"
proof -
  have "in_slot (modify_flow k f s) n = in_slot s n" for n
    using assms(2) by (auto simp: in_slot_def split: if_splits)
  moreover have "flows_wf (modify_flow k f s)"
    using assms by (auto simp: tables_wf_def flows_wf_def om_wf_def split: if_splits)
  ultimately show ?thesis using assms(1) by (simp add: tables_wf_def index_wf_def)
qed

lemma index_slot_cases: "index_slot l = 0 \<or> index_slot l = 1 \<or> index_slot l = 2 \<or> index_slot l = 3"
  by (cases l) simp_all

lemma in_slot_set_lifecycle:
  assumes "om_find k (im_flows s) = Some r"
  shows "in_slot (set_lifecycle k next now s) n =
    (if index_slot next = n then insert k (in_slot s n) else in_slot s n - {k})"
  using assms by (auto simp: in_slot_def split: if_splits)

lemma tables_wf_set_lifecycle: "tables_wf s \<Longrightarrow> tables_wf (set_lifecycle k next now s)"
proof (cases "om_find k (im_flows s)")
  case (Some r)
  assume wf: "tables_wf s"
  then have key: "fd_flow (fr_descriptor r) = k" using Some by (rule tables_wf_key)
  have flows: "flows_wf (set_lifecycle k next now s)"
    using wf by (auto simp: tables_wf_def flows_wf_def om_wf_def split: if_splits)
  show ?thesis
  proof (cases "fr_lifecycle r = next")
    case True
    then show ?thesis using wf Some by (simp add: set_lifecycle_def)
  next
    case False
    let ?s1 = "modify_flow k (enter_lifecycle s next now) s"
    have eq: "set_lifecycle k next now s = update_index k (fr_lifecycle r) next ?s1"
      using False Some key by (simp add: set_lifecycle_def)
    have here: "k \<in> in_slot s n \<longleftrightarrow> index_slot (fr_lifecycle r) = n" for n
      using Some by (simp add: in_slot_def)
    have "index_wf (set_lifecycle k next now s)"
      using wf index_slot_cases [of "next"] index_slot_cases [of "fr_lifecycle r"]
      unfolding index_wf_def in_slot_set_lifecycle [OF Some] unfolding eq
      by (auto simp: tables_wf_def index_wf_def update_index_def index_insert_def index_erase_def
          os_wf_insert os_wf_erase here)
    with flows show ?thesis by (simp add: tables_wf_def)
  qed
qed (simp add: set_lifecycle_def)

end
