(* ===== verification/Codecs.thy ===== *)
theory Codecs
  imports State
begin

text \<open>
  The durable encodings of descriptors and schedules (the \<^verbatim>\<open>write_\<close> and \<^verbatim>\<open>read_\<close> routines of
  \<^verbatim>\<open>src/scheduler.cpp\<close>).  Each pair is an interpretation of the locale \<open>codec\<close>: what the journal
  holds reads back as the value that was written, in front of any further bytes.
\<close>

section \<open>Shared fields\<close>

definition rw_id :: "'tag ident \<Rightarrow> writing" where
  "rw_id i = rw_u64 (id_value i)"

definition rd_id :: "'tag ident reader" where
  "rd_id = rd_bind rd_u64 (\<lambda>value. rd_return (Ident value))"

definition write_binding :: "'tag binding \<Rightarrow> writing" where
  "write_binding b = rw_block [rw_id (bd_id b), rw_id (bd_generation b)]"

definition read_binding :: "'tag binding reader" where
  "read_binding = rd_bind rd_id (\<lambda>i. rd_bind rd_id (\<lambda>g.
     rd_return \<lparr>bd_id = i, bd_generation = g\<rparr>))"

text \<open>A byte that must not exceed a bound, and one that numbers the cases of an enumeration.\<close>

definition rd_bounded :: "u8 \<Rightarrow> u8 reader" where
  "rd_bounded limit = rd_bind rd_u8 (\<lambda>v. if v > limit then rd_fail CorruptData else rd_return v)"

definition rd_enum :: "'a list \<Rightarrow> 'a reader" where
  "rd_enum cases = rd_bind rd_u8 (\<lambda>v.
     if unat v \<ge> length cases then rd_fail CorruptData else rd_return (cases ! unat v))"

definition write_provenance :: "provenance \<Rightarrow> writing" where
  "write_provenance p = rw_block [
     rw_u8 (origin_code (pv_origin p)), rw_u64 (pv_sequence p), rw_u64 (pv_digest p)]"

definition read_provenance :: "provenance reader" where
  "read_provenance = rd_bind (rd_enum origins) (\<lambda>origin. rd_bind rd_u64 (\<lambda>sequence.
     rd_bind rd_u64 (\<lambda>digest. rd_return
       \<lparr>pv_origin = origin, pv_sequence = sequence, pv_digest = digest\<rparr>)))"

definition preemption_modes :: "preemption_mode list" where
  "preemption_modes = [PreemptNone, PreemptStrictPriority, PreemptDeadline, PreemptTiered]"

definition write_ids :: "flow_id list \<Rightarrow> writing" where
  "write_ids is = rw_seq (rw_u64 (of_nat (length is))) (rw_each rw_id is)"

definition read_ids :: "flow_id list reader" where
  "read_ids = rd_bind rd_u64 (\<lambda>count.
     if unat count > unat kMaxDependenciesPerFlow then rd_fail CorruptData
     else rd_times (unat count) rd_id)"

definition rd_detail :: "bytes reader" where
  "rd_detail = rd_bind rd_text (\<lambda>detail.
     if length detail > kMaxExplanationBytes then rd_fail CorruptData else rd_return detail)"

section \<open>Descriptors\<close>

definition write_flow_descriptor :: "flow_descriptor \<Rightarrow> writing" where
  "write_flow_descriptor d = rw_block [
     rw_id (fd_flow d),
     rw_id (fd_generation d),
     write_binding (fd_path d),
     write_binding (fd_resource d),
     write_binding (fd_reservation d),
     write_binding (fd_priority d),
     write_binding (fd_qos d),
     rw_id (fd_fairness_group d),
     rw_u64 (fd_estimated_work d),
     rw_u64 (fd_service_quantum d),
     rw_u64 (fd_min_service d),
     rw_u64 (fd_min_service_window d),
     rw_u64 (fd_release_tick d),
     rw_u64 (fd_deadline_tick d),
     rw_u64 (fd_weight d),
     rw_boolean (fd_preemptible d),
     rw_boolean (fd_auto_ready d),
     rw_u8 (fd_readiness_signal d),
     write_ids (fd_dependencies d),
     rw_id (fd_trace d),
     write_provenance (fd_provenance d)]"

definition read_flow_descriptor :: "flow_descriptor reader" where
  "read_flow_descriptor =
     rd_bind rd_id (\<lambda>x0.
     rd_bind rd_id (\<lambda>x1.
     rd_bind read_binding (\<lambda>x2.
     rd_bind read_binding (\<lambda>x3.
     rd_bind read_binding (\<lambda>x4.
     rd_bind read_binding (\<lambda>x5.
     rd_bind read_binding (\<lambda>x6.
     rd_bind rd_id (\<lambda>x7.
     rd_bind rd_u64 (\<lambda>x8.
     rd_bind rd_u64 (\<lambda>x9.
     rd_bind rd_u64 (\<lambda>x10.
     rd_bind rd_u64 (\<lambda>x11.
     rd_bind rd_u64 (\<lambda>x12.
     rd_bind rd_u64 (\<lambda>x13.
     rd_bind rd_u64 (\<lambda>x14.
     rd_bind rd_boolean (\<lambda>x15.
     rd_bind rd_boolean (\<lambda>x16.
     rd_bind (rd_bounded 2) (\<lambda>x17.
     rd_bind read_ids (\<lambda>x18.
     rd_bind rd_id (\<lambda>x19.
     rd_bind read_provenance (\<lambda>x20.
     rd_return \<lparr>fd_flow = x0, fd_generation = x1, fd_path = x2, fd_resource = x3, fd_reservation =
       x4, fd_priority = x5, fd_qos = x6, fd_fairness_group = x7, fd_estimated_work = x8,
       fd_service_quantum = x9, fd_min_service = x10, fd_min_service_window = x11,
       fd_release_tick = x12, fd_deadline_tick = x13, fd_weight = x14, fd_preemptible =
       x15, fd_auto_ready = x16, fd_readiness_signal = x17, fd_dependencies = x18, fd_trace
       = x19, fd_provenance = x20\<rparr>)))))))))))))))))))))"

definition write_policy :: "scheduling_policy \<Rightarrow> writing" where
  "write_policy p = rw_block [
     rw_id (sp_policy p),
     rw_id (sp_generation p),
     rw_u8 (preemption_code (sp_preemption p)),
     rw_boolean (sp_deadline_ordering p),
     rw_boolean (sp_weighted_fairness p),
     rw_boolean (sp_min_service_guarantee p),
     rw_boolean (sp_strict_deadlines p),
     rw_u64 (sp_starvation_bound_ticks p),
     rw_u64 (sp_deadline_urgency_ticks p),
     rw_u64 (sp_min_preempt_service p),
     rw_u32 (sp_max_preemptions_per_interval p),
     rw_u64 (sp_preemption_interval_ticks p),
     rw_u32 (sp_max_flows p),
     rw_u32 (sp_max_resources p),
     rw_u32 (sp_max_reservations p),
     rw_u32 (sp_max_entries_per_schedule p),
     rw_u64 (sp_max_quantum p),
     rw_u64 (sp_default_max_overlap p),
     rw_u32 (sp_retained_schedule_history p),
     rw_u64 (sp_dispatch_delivery_horizon p),
     write_provenance (sp_provenance p)]"

definition read_policy :: "scheduling_policy reader" where
  "read_policy =
     rd_bind rd_id (\<lambda>x0.
     rd_bind rd_id (\<lambda>x1.
     rd_bind (rd_enum preemption_modes) (\<lambda>x2.
     rd_bind rd_boolean (\<lambda>x3.
     rd_bind rd_boolean (\<lambda>x4.
     rd_bind rd_boolean (\<lambda>x5.
     rd_bind rd_boolean (\<lambda>x6.
     rd_bind rd_u64 (\<lambda>x7.
     rd_bind rd_u64 (\<lambda>x8.
     rd_bind rd_u64 (\<lambda>x9.
     rd_bind rd_u32 (\<lambda>x10.
     rd_bind rd_u64 (\<lambda>x11.
     rd_bind rd_u32 (\<lambda>x12.
     rd_bind rd_u32 (\<lambda>x13.
     rd_bind rd_u32 (\<lambda>x14.
     rd_bind rd_u32 (\<lambda>x15.
     rd_bind rd_u64 (\<lambda>x16.
     rd_bind rd_u64 (\<lambda>x17.
     rd_bind rd_u32 (\<lambda>x18.
     rd_bind rd_u64 (\<lambda>x19.
     rd_bind read_provenance (\<lambda>x20.
     rd_return \<lparr>sp_policy = x0, sp_generation = x1, sp_preemption = x2, sp_deadline_ordering = x3,
       sp_weighted_fairness = x4, sp_min_service_guarantee = x5, sp_strict_deadlines = x6,
       sp_starvation_bound_ticks = x7, sp_deadline_urgency_ticks = x8,
       sp_min_preempt_service = x9, sp_max_preemptions_per_interval = x10,
       sp_preemption_interval_ticks = x11, sp_max_flows = x12, sp_max_resources = x13,
       sp_max_reservations = x14, sp_max_entries_per_schedule = x15, sp_max_quantum = x16,
       sp_default_max_overlap = x17, sp_retained_schedule_history = x18,
       sp_dispatch_delivery_horizon = x19, sp_provenance = x20\<rparr>)))))))))))))))))))))"

definition write_resource :: "resource_descriptor \<Rightarrow> writing" where
  "write_resource d = rw_block [
     rw_id (res_resource d),
     rw_id (res_generation d),
     rw_u64 (res_capacity d),
     rw_u64 (res_interval d),
     rw_u64 (res_max_overlap d),
     write_provenance (res_provenance d)]"

definition read_resource :: "resource_descriptor reader" where
  "read_resource =
     rd_bind rd_id (\<lambda>x0.
     rd_bind rd_id (\<lambda>x1.
     rd_bind rd_u64 (\<lambda>x2.
     rd_bind rd_u64 (\<lambda>x3.
     rd_bind rd_u64 (\<lambda>x4.
     rd_bind read_provenance (\<lambda>x5.
     rd_return \<lparr>res_resource = x0, res_generation = x1, res_capacity = x2, res_interval = x3,
       res_max_overlap = x4, res_provenance = x5\<rparr>))))))"

definition write_reservation :: "reservation_descriptor \<Rightarrow> writing" where
  "write_reservation d = rw_block [
     rw_id (rsv_reservation d),
     rw_id (rsv_generation d),
     rw_id (rsv_resource d),
     rw_id (rsv_resource_generation d),
     rw_u64 (rsv_window_begin d),
     rw_u64 (rsv_window_end d),
     rw_u64 (rsv_capacity d),
     rw_boolean (rsv_exclusive d),
     write_provenance (rsv_provenance d)]"

definition read_reservation :: "reservation_descriptor reader" where
  "read_reservation =
     rd_bind rd_id (\<lambda>x0.
     rd_bind rd_id (\<lambda>x1.
     rd_bind rd_id (\<lambda>x2.
     rd_bind rd_id (\<lambda>x3.
     rd_bind rd_u64 (\<lambda>x4.
     rd_bind rd_u64 (\<lambda>x5.
     rd_bind rd_u64 (\<lambda>x6.
     rd_bind rd_boolean (\<lambda>x7.
     rd_bind read_provenance (\<lambda>x8.
     rd_return \<lparr>rsv_reservation = x0, rsv_generation = x1, rsv_resource = x2,
       rsv_resource_generation = x3, rsv_window_begin = x4, rsv_window_end = x5,
       rsv_capacity = x6, rsv_exclusive = x7, rsv_provenance = x8\<rparr>)))))))))"

definition write_priority_class :: "priority_class_descriptor \<Rightarrow> writing" where
  "write_priority_class d = rw_block [
     rw_id (prio_priority d),
     rw_id (prio_generation d),
     rw_u32 (prio_rank d),
     rw_u64 (prio_weight d),
     write_provenance (prio_provenance d)]"

definition read_priority_class :: "priority_class_descriptor reader" where
  "read_priority_class =
     rd_bind rd_id (\<lambda>x0.
     rd_bind rd_id (\<lambda>x1.
     rd_bind rd_u32 (\<lambda>x2.
     rd_bind rd_u64 (\<lambda>x3.
     rd_bind read_provenance (\<lambda>x4.
     rd_return \<lparr>prio_priority = x0, prio_generation = x1, prio_rank = x2, prio_weight = x3,
       prio_provenance = x4\<rparr>)))))"

definition write_qos_class :: "qos_class_descriptor \<Rightarrow> writing" where
  "write_qos_class d = rw_block [
     rw_id (qos_qos d),
     rw_id (qos_generation d),
     rw_boolean (qos_preemption_protected d),
     rw_u64 (qos_max_service_per_dispatch d),
     write_provenance (qos_provenance d)]"

definition read_qos_class :: "qos_class_descriptor reader" where
  "read_qos_class =
     rd_bind rd_id (\<lambda>x0.
     rd_bind rd_id (\<lambda>x1.
     rd_bind rd_boolean (\<lambda>x2.
     rd_bind rd_u64 (\<lambda>x3.
     rd_bind read_provenance (\<lambda>x4.
     rd_return \<lparr>qos_qos = x0, qos_generation = x1, qos_preemption_protected = x2,
       qos_max_service_per_dispatch = x3, qos_provenance = x4\<rparr>)))))"

section \<open>Schedules\<close>

definition write_schedule_entry :: "schedule_entry \<Rightarrow> writing" where
  "write_schedule_entry e = rw_block [
     rw_u32 (se_ordinal e),
     rw_u8 (kind_code (se_kind e)),
     rw_id (se_flow e),
     rw_id (se_flow_generation e),
     rw_id (se_attempt e),
     rw_id (se_path e),
     rw_id (se_path_generation e),
     rw_id (se_resource e),
     rw_id (se_resource_generation e),
     rw_id (se_reservation e),
     rw_id (se_reservation_generation e),
     rw_id (se_qos e),
     rw_id (se_qos_generation e),
     rw_id (se_priority e),
     rw_id (se_priority_generation e),
     rw_u64 (se_quantum e),
     rw_u64 (se_start_tick e),
     rw_u64 (se_deadline_tick e),
     rw_u64 (se_reservation_end e),
     rw_u32 (se_tier e),
     rw_u8 (reason_code (se_reason e)),
     rw_u64 (se_ordering_digest e),
     rw_text (se_detail e)]"

definition read_schedule_entry :: "schedule_entry reader" where
  "read_schedule_entry =
     rd_bind rd_u32 (\<lambda>x0.
     rd_bind (rd_enum [KindRun, KindPreempt]) (\<lambda>x1.
     rd_bind rd_id (\<lambda>x2.
     rd_bind rd_id (\<lambda>x3.
     rd_bind rd_id (\<lambda>x4.
     rd_bind rd_id (\<lambda>x5.
     rd_bind rd_id (\<lambda>x6.
     rd_bind rd_id (\<lambda>x7.
     rd_bind rd_id (\<lambda>x8.
     rd_bind rd_id (\<lambda>x9.
     rd_bind rd_id (\<lambda>x10.
     rd_bind rd_id (\<lambda>x11.
     rd_bind rd_id (\<lambda>x12.
     rd_bind rd_id (\<lambda>x13.
     rd_bind rd_id (\<lambda>x14.
     rd_bind rd_u64 (\<lambda>x15.
     rd_bind rd_u64 (\<lambda>x16.
     rd_bind rd_u64 (\<lambda>x17.
     rd_bind rd_u64 (\<lambda>x18.
     rd_bind rd_u32 (\<lambda>x19.
     rd_bind (rd_enum (take 16 reasons)) (\<lambda>x20.
     rd_bind rd_u64 (\<lambda>x21.
     rd_bind rd_detail (\<lambda>x22.
     rd_return \<lparr>se_ordinal = x0, se_kind = x1, se_flow = x2, se_flow_generation = x3, se_attempt =
       x4, se_path = x5, se_path_generation = x6, se_resource = x7, se_resource_generation
       = x8, se_reservation = x9, se_reservation_generation = x10, se_qos = x11,
       se_qos_generation = x12, se_priority = x13, se_priority_generation = x14, se_quantum
       = x15, se_start_tick = x16, se_deadline_tick = x17, se_reservation_end = x18,
       se_tier = x19, se_reason = x20, se_detail = x22, se_ordering_digest = x21\<rparr>)))))))))))))))))))))))"

definition write_schedule :: "schedule \<Rightarrow> writing" where
  "write_schedule sched = rw_block [
     rw_id (sc_schedule sched), rw_id (sc_generation sched), rw_id (sc_epoch sched),
     rw_id (sc_policy sched), rw_id (sc_policy_generation sched),
     rw_id (pb_policy (sc_policy_binding sched)), rw_id (pb_generation (sc_policy_binding sched)),
     rw_u64 (pb_digest (sc_policy_binding sched)), rw_u64 (sc_at_tick sched),
     rw_u64 (of_nat (length (sc_entries sched))), rw_each write_schedule_entry (sc_entries sched),
     rw_u64 (sc_digest sched), write_provenance (sc_provenance sched)]"

definition read_schedule :: "schedule reader" where
  "read_schedule =
     rd_bind rd_id (\<lambda>x0. rd_bind rd_id (\<lambda>x1. rd_bind rd_id (\<lambda>x2. rd_bind rd_id (\<lambda>x3.
     rd_bind rd_id (\<lambda>x4. rd_bind rd_id (\<lambda>x5. rd_bind rd_id (\<lambda>x6. rd_bind rd_u64 (\<lambda>x7.
     rd_bind rd_u64 (\<lambda>x8. rd_bind rd_u64 (\<lambda>count.
     if unat count > unat kMaxEntriesPerSchedule then rd_fail CorruptData
     else rd_bind (rd_times (unat count) read_schedule_entry) (\<lambda>es.
     rd_bind rd_u64 (\<lambda>x9. rd_bind read_provenance (\<lambda>x10. rd_return
       \<lparr>sc_schedule = x0, sc_generation = x1, sc_epoch = x2, sc_policy = x3,
        sc_policy_generation = x4,
        sc_policy_binding = \<lparr>pb_policy = x5, pb_generation = x6, pb_digest = x7\<rparr>,
        sc_at_tick = x8, sc_entries = es, sc_digest = x9, sc_provenance = x10\<rparr>)))))))))))))"

text \<open>\<^verbatim>\<open>require_exhausted\<close>: a record read to its last byte.\<close>

definition require_exhausted :: "'a reader \<Rightarrow> bytes \<Rightarrow> 'a result" where
  "require_exhausted r data =
     try_assign (r data) (\<lambda>(x, rest). if rest \<noteq> [] then Inl CorruptData else Inr x)"

section \<open>What each field appends and reads back\<close>

lemma writes_id [writes_intros]: "writes (rw_id i) (encode_u64_le (id_value i))"
  unfolding rw_id_def by (rule writes_u64)

lemma rd_id_roundtrip [simp, codec_simps]: "rd_id (encode_u64_le (id_value i) @ rest) = Inr (i, rest)"
  by (simp add: rd_id_def)

lemma writes_binding [writes_intros]:
  "writes (write_binding b) (encode_u64_le (id_value (bd_id b)) @ encode_u64_le (id_value (bd_generation b)))"
  using writes_block(2) [OF writes_id writes_block(2) [OF writes_id writes_block(1)]]
  by (simp add: write_binding_def)

lemma read_binding_roundtrip [simp, codec_simps]:
  "read_binding (encode_u64_le (id_value (bd_id b)) @ encode_u64_le (id_value (bd_generation b)) @ rest)
   = Inr (b, rest)"
  by (simp add: read_binding_def)

lemma writes_provenance [writes_intros]:
  "writes (write_provenance p) (origin_code (pv_origin p)
     # encode_u64_le (pv_sequence p) @ encode_u64_le (pv_digest p))"
  using writes_block(2) [OF writes_u8 writes_block(2) [OF writes_u64 writes_block(2) [OF writes_u64 writes_block(1)]]]
  by (simp add: write_provenance_def)

lemma rd_enum_roundtrip:
  "unat c < length cases \<Longrightarrow> rd_enum cases (c # rest) = Inr (cases ! unat c, rest)"
  by (simp add: rd_enum_def)

lemma rd_origin [simp, codec_simps]: "rd_enum origins (origin_code x # rest) = Inr (x, rest)"
  by (cases x) (simp_all add: rd_enum_def origins_def)

lemma rd_preemption [simp, codec_simps]:
  "rd_enum preemption_modes (preemption_code x # rest) = Inr (x, rest)"
  by (cases x) (simp_all add: rd_enum_def preemption_modes_def)

lemma rd_kind [simp, codec_simps]: "rd_enum [KindRun, KindPreempt] (kind_code x # rest) = Inr (x, rest)"
  by (cases x) (simp_all add: rd_enum_def)

lemma rd_reason [simp, codec_simps]:
  "reason_code x < 16 \<Longrightarrow> rd_enum (take 16 reasons) (reason_code x # rest) = Inr (x, rest)"
  by (cases x) (simp_all add: rd_enum_def reasons_def)

lemma rd_bounded_roundtrip [simp, codec_simps]: "v \<le> limit \<Longrightarrow> rd_bounded limit (v # rest) = Inr (v, rest)"
  by (simp add: rd_bounded_def)

lemma read_provenance_roundtrip [simp, codec_simps]:
  "read_provenance (origin_code (pv_origin p) # encode_u64_le (pv_sequence p)
     @ encode_u64_le (pv_digest p) @ rest) = Inr (p, rest)"
  by (simp add: read_provenance_def)

definition ids_bytes :: "'tag ident list \<Rightarrow> bytes" where
  "ids_bytes is = concat (map (\<lambda>i. encode_u64_le (id_value i)) is)"

lemma writes_ids [writes_intros]:
  "writes (write_ids is) (encode_u64_le (of_nat (length is)) @ ids_bytes is)"
  unfolding write_ids_def ids_bytes_def by (intro writes_seq writes_u64 writes_each writes_id)

lemma read_ids_roundtrip [simp, codec_simps]:
  assumes "length is \<le> 4096"
  shows "read_ids (encode_u64_le (of_nat (length is)) @ ids_bytes is @ rest) = Inr (is, rest)"
proof -
  have "unat (of_nat (length is) :: u64) = length is" using assms by (intro unat_of_nat_u64) simp
  moreover have "rd_times (length is) rd_id (ids_bytes is @ rest) = Inr (is, rest)"
    unfolding ids_bytes_def by (rule rd_times_roundtrip) (simp add: reads_def)
  ultimately show ?thesis using assms by (simp add: read_ids_def kMaxDependenciesPerFlow_def)
qed

lemma rd_detail_roundtrip [simp, codec_simps]:
  "length v \<le> kMaxExplanationBytes \<Longrightarrow>
   rd_detail (encode_u64_le (of_nat (length v)) @ v @ rest) = Inr (v, rest)"
  by (simp add: rd_detail_def kMaxExplanationBytes_def)

section \<open>The codecs\<close>

interpretation binding_codec: codec write_binding read_binding "\<lambda>_. True"
  by unfold_locales (rule exI, rule conjI, rule writes_binding, simp add: reads_def)

interpretation provenance_codec: codec write_provenance read_provenance "\<lambda>_. True"
  by unfold_locales (rule exI, rule conjI, rule writes_provenance, simp add: reads_def)

interpretation resource_codec: codec write_resource read_resource "\<lambda>_. True"
  unfolding write_resource_def
  by unfold_locales
    (rule exI, rule conjI, (rule writes_intros)+, simp add: reads_def read_resource_def)

interpretation reservation_codec: codec write_reservation read_reservation "\<lambda>_. True"
  unfolding write_reservation_def
  by unfold_locales
    (rule exI, rule conjI, (rule writes_intros)+, simp add: reads_def read_reservation_def)

interpretation priority_codec: codec write_priority_class read_priority_class "\<lambda>_. True"
  unfolding write_priority_class_def
  by unfold_locales
    (rule exI, rule conjI, (rule writes_intros)+, simp add: reads_def read_priority_class_def)

interpretation qos_codec: codec write_qos_class read_qos_class "\<lambda>_. True"
  unfolding write_qos_class_def
  by unfold_locales
    (rule exI, rule conjI, (rule writes_intros)+, simp add: reads_def read_qos_class_def)

interpretation policy_codec: codec write_policy read_policy "\<lambda>_. True"
  unfolding write_policy_def
  by unfold_locales
    (rule exI, rule conjI, (rule writes_intros)+, simp add: reads_def read_policy_def)

definition flow_encodable :: "flow_descriptor \<Rightarrow> bool" where
  "flow_encodable d \<longleftrightarrow> fd_readiness_signal d \<le> 2 \<and> length (fd_dependencies d) \<le> 4096"

interpretation flow_codec: codec write_flow_descriptor read_flow_descriptor flow_encodable
  unfolding write_flow_descriptor_def
  by unfold_locales
    (rule exI, rule conjI, (rule writes_intros)+,
      simp add: reads_def read_flow_descriptor_def flow_encodable_def)

definition entry_encodable :: "schedule_entry \<Rightarrow> bool" where
  "entry_encodable e \<longleftrightarrow> reason_code (se_reason e) < 16 \<and> length (se_detail e) \<le> kMaxExplanationBytes"

interpretation entry_codec: codec write_schedule_entry read_schedule_entry entry_encodable
  unfolding write_schedule_entry_def
  by unfold_locales
    (rule exI, rule conjI, (rule writes_intros)+,
      simp add: reads_def read_schedule_entry_def entry_encodable_def)

definition schedule_encodable :: "schedule \<Rightarrow> bool" where
  "schedule_encodable sched \<longleftrightarrow>
     list_all entry_encodable (sc_entries sched) \<and> length (sc_entries sched) \<le> 0x10000"

lemma schedule_codec_encodes:
  "\<exists>bs. writes (write_schedule sched) bs \<and> (schedule_encodable sched \<longrightarrow> reads read_schedule bs sched)"
proof -
  obtain enc where enc: "\<And>e. writes (write_schedule_entry e) (enc e)
      \<and> (entry_encodable e \<longrightarrow> reads read_schedule_entry (enc e) e)"
    using entry_codec.encodes by metis
  have each: "writes (rw_each write_schedule_entry es) (concat (map enc es))" for es
    by (rule writes_each) (simp add: enc)
  have times: "list_all entry_encodable es \<Longrightarrow>
      rd_times (length es) read_schedule_entry (concat (map enc es) @ rest) = Inr (es, rest)" for es rest
    using enc by (intro rd_times_roundtrip) (simp add: list_all_iff)
  show ?thesis
    unfolding write_schedule_def
    by (rule exI, rule conjI, (rule writes_intros each)+)
      (simp add: reads_def read_schedule_def schedule_encodable_def times unat_of_nat_u64
        kMaxEntriesPerSchedule_def)
qed

interpretation schedule_codec: codec write_schedule read_schedule schedule_encodable
  by unfold_locales (rule schedule_codec_encodes)

end
