(* ===== verification/Operations.thy ===== *)
theory Operations
  imports Transitions Codecs
begin

text \<open>
  Registration, the flow lifecycle, policy and epoch: the public methods of \<^verbatim>\<open>Scheduler::Impl\<close>
  (\<^verbatim>\<open>src/scheduler.cpp\<close>) that validate their argument, append a record to the journal and then
  apply the transition.  Each returns its status with the state after it.
\<close>

section \<open>Registration\<close>

text \<open>
  The generation discipline shared by every registration: a new entry needs room in its table and
  starts at generation 1, an update advances the generation by exactly one.
\<close>

definition generation_step :: "generation option \<Rightarrow> bool \<Rightarrow> generation \<Rightarrow> status" where
  "generation_step found full generation = (case found of
     None \<Rightarrow> guards [(full, Bounded), (id_value generation \<noteq> 1, InvalidArgument)]
   | Some current \<Rightarrow> (case advance current of
       Inl e \<Rightarrow> e
     | Inr expected \<Rightarrow> if generation \<noteq> expected then InvalidArgument else Ok))"

definition register_resource :: "resource_descriptor \<Rightarrow> impl action" where
  "register_resource d s =
     and_then (check (validate_resource d))
     (and_then (check (generation_step
         (map_option (\<lambda>rr. res_generation (rr_descriptor rr)) (om_find (res_resource d) (im_resources s)))
         (length (im_resources s) \<ge> unat (sp_max_resources (im_policy s))) (res_generation d)))
     (and_then (journal RecResourceRegistered (take_record [write_resource d]))
       (succeed (apply_resource d)))) s"

definition register_reservation :: "reservation_descriptor \<Rightarrow> impl action" where
  "register_reservation d s =
     and_then (check (validate_reservation d))
     (and_then (check (case om_find (rsv_resource d) (im_resources s) of
         None \<Rightarrow> UnknownResource
       | Some rr \<Rightarrow>
           if res_generation (rr_descriptor rr) \<noteq> rsv_resource_generation d
           then StaleResourceGeneration else Ok))
     (and_then (check (generation_step
         (map_option (\<lambda>rv. rsv_generation (rv_descriptor rv))
           (om_find (rsv_reservation d) (im_reservations s)))
         (length (im_reservations s) \<ge> unat (sp_max_reservations (im_policy s))) (rsv_generation d)))
     (and_then (journal RecReservationRegistered (take_record [write_reservation d]))
       (succeed (apply_reservation d))))) s"

definition retire_reservation :: "reservation_id \<Rightarrow> generation \<Rightarrow> impl action" where
  "retire_reservation reservation generation s =
     (case om_find reservation (im_reservations s) of
        None \<Rightarrow> (UnknownReservation, s)
      | Some rv \<Rightarrow>
          if rsv_generation (rv_descriptor rv) \<noteq> generation then (StaleReservationGeneration, s)
          else if rv_retired rv then (Ok, s)
          else and_then (journal RecReservationRetired (take_record [rw_id reservation, rw_id generation]))
                 (succeed (apply_retire_reservation reservation generation)) s)"

definition register_priority_class :: "priority_class_descriptor \<Rightarrow> impl action" where
  "register_priority_class d s =
     and_then (check (validate_priority d))
     (and_then (check (generation_step
         (map_option prio_generation (om_find (prio_priority d) (im_priority_classes s)))
         (length (im_priority_classes s) \<ge> unat kMaxPriorityClasses) (prio_generation d)))
     (and_then (journal RecPriorityClassRegistered (take_record [write_priority_class d]))
       (succeed (apply_priority_class d)))) s"

definition register_qos_class :: "qos_class_descriptor \<Rightarrow> impl action" where
  "register_qos_class d s =
     and_then (check (validate_qos d))
     (and_then (check (generation_step
         (map_option qos_generation (om_find (qos_qos d) (im_qos_classes s)))
         (length (im_qos_classes s) \<ge> unat kMaxQoSClasses) (qos_generation d)))
     (and_then (journal RecQoSClassRegistered (take_record [write_qos_class d]))
       (succeed (apply_qos_class d)))) s"

section \<open>Flow lifecycle\<close>

definition check_resource_binding :: "flow_descriptor \<Rightarrow> impl \<Rightarrow> status" where
  "check_resource_binding d s = (case om_find (bd_id (fd_resource d)) (im_resources s) of
     None \<Rightarrow> UnknownResource
   | Some rr \<Rightarrow>
       if res_generation (rr_descriptor rr) \<noteq> bd_generation (fd_resource d)
       then StaleResourceGeneration else Ok)"

definition check_class_bindings :: "flow_descriptor \<Rightarrow> impl \<Rightarrow> status" where
  "check_class_bindings d s = (case om_find (bd_id (fd_priority d)) (im_priority_classes s) of
     None \<Rightarrow> UnknownPolicy
   | Some prio \<Rightarrow>
       if prio_generation prio \<noteq> bd_generation (fd_priority d) then StalePriorityGeneration
       else case om_find (bd_id (fd_qos d)) (im_qos_classes s) of
         None \<Rightarrow> UnknownPolicy
       | Some qos \<Rightarrow>
           if qos_generation qos \<noteq> bd_generation (fd_qos d) then StaleQoSGeneration else Ok)"

definition check_reservation_binding :: "flow_descriptor \<Rightarrow> impl \<Rightarrow> status" where
  "check_reservation_binding d s =
     (if \<not> bound (fd_reservation d) then Ok
      else case om_find (bd_id (fd_reservation d)) (im_reservations s) of
        None \<Rightarrow> UnknownReservation
      | Some rv \<Rightarrow> guards [
          (rv_retired rv, UnknownReservation),
          (rsv_generation (rv_descriptor rv) \<noteq> bd_generation (fd_reservation d),
            StaleReservationGeneration),
          (rsv_resource (rv_descriptor rv) \<noteq> bd_id (fd_resource d), InvalidArgument)])"

definition admit_flow :: "flow_descriptor \<Rightarrow> impl action" where
  "admit_flow d s =
     and_then (check (validate_flow d))
     (and_then (check (if om_find (fd_flow d) (im_flows s) \<noteq> None then AlreadyExists else Ok))
     (and_then (check (check_resource_binding d s))
     (and_then (check (check_class_bindings d s))
     (and_then (check (check_reservation_binding d s))
     (and_then (journal RecFlowAdmitted (take_record [write_flow_descriptor d]))
       (apply_admit d)))))) s"

definition update_flow :: "flow_descriptor \<Rightarrow> impl action" where
  "update_flow d s =
     and_then (check (validate_flow d))
     (\<lambda>s. case om_find (fd_flow d) (im_flows s) of
        None \<Rightarrow> (UnknownFlow, s)
      | Some r \<Rightarrow>
          and_then (check (case advance (fd_generation (fr_descriptor r)) of
              Inl e \<Rightarrow> e
            | Inr expected \<Rightarrow> if fd_generation d \<noteq> expected then InvalidArgument else Ok))
          (and_then (check (if (fd_dependencies (fr_descriptor r) \<noteq> [] \<or> fd_dependencies d \<noteq> []
                \<or> fd_estimated_work (fr_descriptor r) \<noteq> fd_estimated_work d)
                \<and> fr_lifecycle r \<noteq> FlowWaiting \<and> fr_served_work r > 0
              then InvalidState else Ok))
          (and_then (check (check_resource_binding d s))
          (and_then (journal RecFlowUpdated (take_record [write_flow_descriptor d]))
          (and_then (apply_update d)
            (succeed (\<lambda>s. release_scheduled_entry (fd_flow d) (im_last_tick s) s)))))) s) s"

definition observe_tick :: "ticks \<Rightarrow> impl \<Rightarrow> impl" where
  "observe_tick now s = s\<lparr>im_last_tick := max (im_last_tick s) now\<rparr>"

text \<open>The checks with which the operations on one flow begin.\<close>

definition with_flow :: "flow_id \<Rightarrow> generation \<Rightarrow> (flow_runtime \<Rightarrow> impl action) \<Rightarrow> impl action" where
  "with_flow flow generation k s = (case om_find flow (im_flows s) of
     None \<Rightarrow> (UnknownFlow, s)
   | Some r \<Rightarrow>
       if fd_generation (fr_descriptor r) \<noteq> generation then (StaleFlowGeneration, s) else k r s)"

definition cancel_flow :: "flow_id \<Rightarrow> generation \<Rightarrow> bytes \<Rightarrow> ticks \<Rightarrow> impl action" where
  "cancel_flow flow generation reason now s =
     with_flow flow generation (\<lambda>r s.
       if fr_lifecycle r = FlowCancelled then (Ok, s)
       else if is_terminal (fr_lifecycle r) then (InvalidState, s)
       else and_then (journal RecFlowCancelled (take_record
              [rw_id flow, rw_id generation, rw_u64 now, rw_text (bounded_detail reason)]))
              (succeed (\<lambda>s. normalize_transient_states now (apply_cancel flow generation now s))) s)
     (observe_tick now s)"

definition notify_readiness :: "flow_id \<Rightarrow> generation \<Rightarrow> readiness_signal \<Rightarrow> ticks \<Rightarrow> impl action" where
  "notify_readiness flow generation signal now s =
     with_flow flow generation (\<lambda>r s.
       if is_terminal (fr_lifecycle r) then (InvalidState, s)
       else if fd_readiness_signal (fr_descriptor r) = signal_code signal then (Ok, s)
       else and_then (journal RecFlowReadinessChanged (take_record
              [rw_id flow, rw_id generation, rw_u8 (signal_code signal), rw_u64 now]))
              (succeed (apply_readiness flow generation signal now)) s)
     (observe_tick now s)"

definition resolve_ambiguous :: "flow_id \<Rightarrow> generation \<Rightarrow> ambiguity_resolution \<Rightarrow> ticks \<Rightarrow> impl action" where
  "resolve_ambiguous flow generation resolution now s =
     with_flow flow generation (\<lambda>r s.
       if fr_lifecycle r \<noteq> FlowAmbiguous then (InvalidState, s)
       else and_then (journal RecAmbiguityResolved (take_record
              [rw_id flow, rw_id generation, rw_u8 (resolution_code resolution), rw_u64 now]))
              (succeed (apply_ambiguity_resolved flow generation resolution now)) s)
     (observe_tick now s)"

definition retire_flow :: "flow_id \<Rightarrow> generation \<Rightarrow> impl action" where
  "retire_flow flow generation =
     with_flow flow generation (\<lambda>r s.
       if \<not> is_terminal (fr_lifecycle r) then (InvalidState, s)
       else and_then (journal RecFlowRetired (take_record [rw_id flow, rw_id generation]))
              (succeed (apply_retire_flow flow generation)) s)"

section \<open>Policy and epoch\<close>

definition install_policy :: "scheduling_policy \<Rightarrow> impl action" where
  "install_policy p s =
     and_then (check (validate_policy p))
     (and_then (check (if id_valid (sp_policy (im_policy s)) \<and> sp_policy p = sp_policy (im_policy s)
         then case advance (sp_generation (im_policy s)) of
             Inl e \<Rightarrow> e
           | Inr expected \<Rightarrow> if sp_generation p \<noteq> expected then InvalidArgument else Ok
         else if id_value (sp_generation p) \<noteq> 1 then InvalidArgument else Ok))
     (and_then (check (if unat (sp_max_flows p) < length (im_flows s) then Bounded else Ok))
     (and_then (journal RecPolicyInstalled (take_record [write_policy p]))
       (succeed (apply_policy p))))) s"

definition advance_epoch :: "epoch_reason \<Rightarrow> ticks \<Rightarrow> impl \<Rightarrow> fabric_epoch result \<times> impl" where
  "advance_epoch reason now s0 =
     (let s = observe_tick now s0;
          previous = (if id_valid (im_epoch s) then im_epoch s else Ident 0)
      in case advance previous of
           Inl e \<Rightarrow> (Inl e, s)
         | Inr nxt \<Rightarrow>
             (case journal RecEpochAdvanced (take_record
                [rw_id previous, rw_id nxt, rw_u8 (epoch_reason_code reason), rw_u64 now]) s of
                (code, s') \<Rightarrow>
                  if code \<noteq> Ok then (Inl code, s')
                  else (Inr nxt, apply_epoch_advance previous nxt reason now s')))"

end
