(* ===== verification/Arbitration.thy ===== *)
theory Arbitration
  imports Operations
begin

text \<open>
  One arbitration round: \<^verbatim>\<open>Scheduler::Impl::arbitrate\<close> and its helpers in \<^verbatim>\<open>src/scheduler.cpp\<close>.
  The locals of the function (the outcome, the entries placed so far, what they charge to resources
  and reservations) are the record \<open>round\<close>; the body of the placement loop is
  \<open>consider_candidate\<close>.
\<close>

section \<open>Diagnostics of a round\<close>

definition empty_schedule :: schedule where
  "empty_schedule = \<lparr>sc_schedule = unbound, sc_generation = unbound, sc_epoch = unbound,
     sc_policy = unbound, sc_policy_generation = unbound,
     sc_policy_binding = \<lparr>pb_policy = unbound, pb_generation = unbound, pb_digest = 0\<rparr>,
     sc_at_tick = 0, sc_entries = [], sc_digest = 0,
     sc_provenance = \<lparr>pv_origin = OriginUnknown, pv_sequence = 0, pv_digest = 0\<rparr>\<rparr>"

definition empty_outcome :: arbitration_outcome where
  "empty_outcome = \<lparr>ao_schedule = empty_schedule, ao_deferred = [], ao_deferred_truncated = False,
     ao_deadline_misses = [], ao_delivery_reclaims = []\<rparr>"

definition defer_flow :: "flow_runtime \<Rightarrow> decision_reason \<Rightarrow> bytes \<Rightarrow> arbitration_outcome \<Rightarrow> arbitration_outcome" where
  "defer_flow r reason detail outcome =
     (if length (ao_deferred outcome) \<ge> kMaxDeferredPerRound
      then outcome\<lparr>ao_deferred_truncated := True\<rparr>
      else outcome\<lparr>ao_deferred := ao_deferred outcome
             @ [\<lparr>df_flow = fd_flow (fr_descriptor r), df_generation = fd_generation (fr_descriptor r),
                 df_reason = reason, df_detail = bounded_detail detail\<rparr>]\<rparr>)"

definition push_bounded :: "'a \<Rightarrow> 'a list \<Rightarrow> 'a list" where
  "push_bounded x xs = (if length xs < kMaxDeferredPerRound then xs @ [x] else xs)"

text \<open>The miss is counted once per flow: on the flow, in the total and in the outcome.\<close>

definition count_deadline_miss :: "flow_runtime \<Rightarrow> flow_runtime" where
  "count_deadline_miss r = r\<lparr>fr_deadline_missed_counted := True,
     fr_accounting := (fr_accounting r)\<lparr>fa_deadline_misses := fa_deadline_misses (fr_accounting r) + 1\<rparr>\<rparr>"

definition note_deadline_miss :: "flow_id \<Rightarrow> flow_runtime \<Rightarrow> impl \<times> arbitration_outcome \<Rightarrow> impl \<times> arbitration_outcome" where
  "note_deadline_miss flow r so = (case so of (s, outcome) \<Rightarrow>
     let s1 = modify_flow flow count_deadline_miss s in
     (s1\<lparr>im_deadline_misses := im_deadline_misses s1 + 1\<rparr>,
      outcome\<lparr>ao_deadline_misses := push_bounded (fd_flow (fr_descriptor r)) (ao_deadline_misses outcome)\<rparr>))"

definition handle_deadline_miss :: "flow_id \<Rightarrow> ticks \<Rightarrow> impl \<times> arbitration_outcome \<Rightarrow> impl \<times> arbitration_outcome" where
  "handle_deadline_miss flow now so = (case om_find flow (im_flows (fst so)) of
     None \<Rightarrow> so
   | Some r \<Rightarrow>
       if fr_deadline_missed_counted r then so
       else case note_deadline_miss flow r so of (s, outcome) \<Rightarrow>
         if sp_strict_deadlines (im_policy s) \<and> \<not> is_terminal (fr_lifecycle r)
         then (modify_flow flow (record_step now FlowFailed ReasonDeadlineMissed unbound unbound
                 (lit ''deadline crossed before the flow could be dispatched''))
                 (set_lifecycle flow FlowFailed now s), outcome)
         else (s, outcome))"

definition fail_dependent :: "flow_id \<Rightarrow> ticks \<Rightarrow> impl \<Rightarrow> impl" where
  "fail_dependent flow now s =
     modify_flow flow (record_step now FlowFailed ReasonDependencyFailed unbound unbound
       (lit ''a dependency reached a terminal state without completing''))
     (set_lifecycle flow FlowFailed now s)"

definition close_attempt :: "attempt_id \<Rightarrow> attempt_state \<Rightarrow> bytes \<Rightarrow> ticks \<Rightarrow> impl action" where
  "close_attempt attempt state detail now =
     and_then (journal RecAttemptClosed (take_record [rw_id attempt,
         rw_u8 (attempt_state_code state), rw_u64 now, rw_text (bounded_detail detail)]))
       (succeed (apply_attempt_closed attempt state detail now))"

section \<open>Before the ranking\<close>

text \<open>The loop of \<^verbatim>\<open>reclaim_expired_deliveries\<close>, which may stop at a schedule that is not due.\<close>

definition undelivered_runs :: "schedule_runtime \<Rightarrow> flow_id list" where
  "undelivered_runs sr = map se_flow
     (filter (\<lambda>e. se_kind e = KindRun)
       (map fst (filter (\<lambda>(_, c). c = 0) (zip (sc_entries (sr_schedule sr)) (sr_consumed sr)))))"

fun reclaim_loop :: "ticks \<Rightarrow> schedule_id list \<Rightarrow> impl \<times> arbitration_outcome \<Rightarrow> impl \<times> arbitration_outcome" where
  "reclaim_loop now [] so = so"
| "reclaim_loop now (schedule # rest) (s, outcome) = (case find_schedule s schedule of
     None \<Rightarrow> reclaim_loop now rest (s, outcome)
   | Some sr \<Rightarrow>
       if sr_pending_entries sr = 0 then reclaim_loop now rest (s, outcome)
       else if saturating_add (sc_at_tick (sr_schedule sr))
                 (sp_dispatch_delivery_horizon (im_policy s)) > now
       then (s, outcome)
       else case journal RecScheduleReleased (take_record [rw_id schedule, rw_u64 now]) s of
         (appended, s') \<Rightarrow>
           if appended \<noteq> Ok then (s', outcome\<lparr>ao_deferred_truncated := True\<rparr>)
           else reclaim_loop now rest
             (apply_release_schedule schedule now s',
              outcome\<lparr>ao_delivery_reclaims :=
                fold push_bounded (undelivered_runs sr) (ao_delivery_reclaims outcome)\<rparr>))"

definition reclaim_expired_deliveries :: "ticks \<Rightarrow> impl \<times> arbitration_outcome \<Rightarrow> impl \<times> arbitration_outcome" where
  "reclaim_expired_deliveries now so = reclaim_loop now (im_schedule_order (fst so)) so"

definition refresh_waiting :: "ticks \<Rightarrow> flow_id \<Rightarrow> impl \<times> arbitration_outcome \<Rightarrow> impl \<times> arbitration_outcome" where
  "refresh_waiting now flow so = (case so of (s, outcome) \<Rightarrow>
     (case om_find flow (im_flows s) of
        None \<Rightarrow> so
      | Some r \<Rightarrow>
          if fr_lifecycle r = FlowAmbiguous
          then (s, defer_flow r ReasonAmbiguousRequiresResolution
                 (lit ''recovered outcome requires explicit resolution'') outcome)
          else if now < fd_release_tick (fr_descriptor r)
          then (s, defer_flow r ReasonAwaitingRelease (lit ''not released'') outcome)
          else case derived_readiness s r now of (ready, reason) \<Rightarrow>
            if ready
            then (modify_flow flow (record_step now FlowReady ReasonSelected unbound unbound (lit ''ready''))
                    (set_lifecycle flow FlowReady now s), outcome)
            else if reason = ReasonDeadlineMissed then handle_deadline_miss flow now so
            else if reason = ReasonDependencyFailed
            then (fail_dependent flow now s, defer_flow r reason (lit (reason_text reason)) outcome)
            else (s, defer_flow r reason (lit (reason_text reason)) outcome)))"

definition refresh_inflight :: "ticks \<Rightarrow> flow_id \<Rightarrow> impl \<times> arbitration_outcome \<Rightarrow> impl \<times> arbitration_outcome" where
  "refresh_inflight now flow so = (case om_find flow (im_flows (fst so)) of
     None \<Rightarrow> so
   | Some r \<Rightarrow>
       if \<not> has_deadline (fd_deadline_tick (fr_descriptor r)) \<or> now < fd_deadline_tick (fr_descriptor r)
          \<or> fr_deadline_missed_counted r
       then so else note_deadline_miss flow r so)"

definition refresh_lifecycles :: "ticks \<Rightarrow> impl \<times> arbitration_outcome \<Rightarrow> impl \<times> arbitration_outcome" where
  "refresh_lifecycles now so =
     (let so1 = fold (refresh_waiting now) (im_waiting_index (fst so)) so
      in fold (refresh_inflight now) (im_inflight_index (fst so1)) so1)"

text \<open>Step 1 of the round: attempts that run past the deadline of their flow.\<close>

definition overdue_attempts :: "ticks \<Rightarrow> impl \<Rightarrow> attempt_id list" where
  "overdue_attempts now s = List.map_filter (\<lambda>flow. case om_find flow (im_flows s) of
       None \<Rightarrow> None
     | Some r \<Rightarrow>
         if \<not> has_deadline (fd_deadline_tick (fr_descriptor r)) \<or> now < fd_deadline_tick (fr_descriptor r)
         then None
         else if id_valid (fr_open_attempt r) then Some (fr_open_attempt r) else None)
     (im_inflight_index s)"

definition stop_overdue :: "ticks \<Rightarrow> attempt_id \<Rightarrow> impl action" where
  "stop_overdue now attempt =
     and_then (close_attempt attempt AttemptPreempted (lit ''deadline crossed while running'') now)
       (succeed (\<lambda>s. s\<lparr>im_preemptions_issued := im_preemptions_issued s + 1\<rparr>))"

section \<open>Ranking\<close>

definition mark_starvation :: "ticks \<Rightarrow> flow_id \<Rightarrow> impl \<Rightarrow> impl" where
  "mark_starvation now flow s = (case om_find flow (im_flows s) of
     None \<Rightarrow> s
   | Some r \<Rightarrow>
       if fr_lifecycle r = FlowReady \<and> ok_tier (compute_key s r now) = kTierStarvation
          \<and> \<not> fr_starvation_counted r
       then modify_flow flow (\<lambda>r. r\<lparr>fr_starvation_counted := True,
              fr_accounting := (fr_accounting r)\<lparr>fa_starvation_boosts :=
                fa_starvation_boosts (fr_accounting r) + 1\<rparr>\<rparr>) s
       else s)"

definition ready_candidates :: "ticks \<Rightarrow> impl \<Rightarrow> (flow_id \<times> order_key) list" where
  "ready_candidates now s = List.map_filter (\<lambda>flow. case om_find flow (im_flows s) of
       None \<Rightarrow> None
     | Some r \<Rightarrow> if fr_lifecycle r \<noteq> FlowReady then None else Some (flow, compute_key s r now))
     (im_ready_index s)"

definition ranked_candidates :: "ticks \<Rightarrow> impl \<Rightarrow> (flow_id \<times> order_key) list" where
  "ranked_candidates now s = sort_key snd (ready_candidates now s)"

definition entry_limit :: "scheduling_policy \<Rightarrow> nat" where
  "entry_limit p =
     (let hard = kMaxJournalRecordPayload div kScheduleEntryBudgetBytes;
          wanted = unat (sp_max_entries_per_schedule p)
      in if wanted > hard then hard else wanted)"

definition roll_preemption_window :: "ticks \<Rightarrow> impl \<Rightarrow> impl" where
  "roll_preemption_window now s =
     (let window = (if sp_preemption_interval_ticks (im_policy s) = 0 then 0
                    else now div sp_preemption_interval_ticks (im_policy s))
      in if window \<noteq> im_preemption_window_index s
         then s\<lparr>im_preemption_window_index := window, im_preemptions_in_window := 0\<rparr> else s)"

section \<open>Displacement\<close>

definition reservation_window_end :: "impl \<Rightarrow> reservation_id \<Rightarrow> ticks" where
  "reservation_window_end s reservation = (case om_find reservation (im_reservations s) of
     None \<Rightarrow> kNoWindowBound | Some rv \<Rightarrow> rsv_window_end (rv_descriptor rv))"

text \<open>\<^verbatim>\<open>worst_incumbent\<close>: the key and attempt that rank last among the resource's open attempts.\<close>

definition incumbent_step :: "impl \<Rightarrow> resource_id \<Rightarrow> ticks \<Rightarrow> flow_id \<Rightarrow> (order_key \<times> attempt_id) option \<Rightarrow> (order_key \<times> attempt_id) option" where
  "incumbent_step s resource now flow worst = (case om_find flow (im_flows s) of
     None \<Rightarrow> worst
   | Some r \<Rightarrow>
       if \<not> id_valid (fr_open_attempt r) then worst
       else if bd_id (fd_resource (fr_descriptor r)) \<noteq> resource then worst
       else
         let key = compute_key s r now in
         case worst of
           None \<Rightarrow> Some (key, fr_open_attempt r)
         | Some (k, a) \<Rightarrow> if k < key then Some (key, fr_open_attempt r) else worst)"

definition worst_incumbent :: "impl \<Rightarrow> resource_id \<Rightarrow> ticks \<Rightarrow> attempt_id option" where
  "worst_incumbent s resource now =
     map_option snd (fold (incumbent_step s resource now) (im_inflight_index s) None)"

definition preemption_allowed :: "impl \<Rightarrow> order_key \<Rightarrow> flow_runtime \<Rightarrow> ticks \<Rightarrow> bool \<times> decision_reason" where
  "preemption_allowed s candidate_key incumbent now =
     (let p = im_policy s; d = fr_descriptor incumbent;
          protected = (case om_find (bd_id (fd_qos d)) (im_qos_classes s) of
              None \<Rightarrow> False
            | Some qos \<Rightarrow> qos_generation qos = bd_generation (fd_qos d) \<and> qos_preemption_protected qos);
          incumbent_key = compute_key s incumbent now;
          priority_better = ok_priority_rank candidate_key < ok_priority_rank incumbent_key;
          tier_better = ok_tier candidate_key < ok_tier incumbent_key;
          deadline_urgent = (ok_tier candidate_key = kTierDeadlineUrgent
            \<and> ok_tier incumbent_key \<noteq> kTierDeadlineUrgent);
          incumbent_overdue = (has_deadline (fd_deadline_tick d) \<and> now \<ge> fd_deadline_tick d);
          authorized = (case sp_preemption p of
              PreemptNone \<Rightarrow> False
            | PreemptStrictPriority \<Rightarrow> priority_better \<or> incumbent_overdue
            | PreemptDeadline \<Rightarrow> deadline_urgent \<or> incumbent_overdue
            | PreemptTiered \<Rightarrow> tier_better \<or> priority_better \<or> incumbent_overdue)
      in if sp_preemption p = PreemptNone then (False, ReasonPreemptionDisabled)
         else if protected then (False, ReasonIncumbentNotPreemptible)
         else if \<not> fd_preemptible d then (False, ReasonIncumbentNotPreemptible)
         else if fr_served_work incumbent < sp_min_preempt_service p
         then (False, ReasonPreemptionThrottled)
         else if im_preemptions_in_window s \<ge> sp_max_preemptions_per_interval p
         then (False, ReasonPreemptionThrottled)
         else if authorized then (True, ReasonPreemptionDisabled)
         else (False, ReasonPreemptionNotAuthorized))"

section \<open>The round\<close>

record round =
  rn_impl :: impl
  rn_outcome :: arbitration_outcome
  rn_entries :: "schedule_entry list"
  rn_decided :: "flow_id list"
  rn_next_ordinal :: u32
  rn_pending_in_flight :: "(resource_id, u64) omap"
  rn_pending_capacity :: "(resource_id, u64) omap"
  rn_pending_reservation :: "(reservation_id, u64) omap"

definition round_start :: "impl \<times> arbitration_outcome \<Rightarrow> round" where
  "round_start so = \<lparr>rn_impl = fst so, rn_outcome = snd so, rn_entries = [], rn_decided = [],
     rn_next_ordinal = 0, rn_pending_in_flight = [], rn_pending_capacity = [],
     rn_pending_reservation = []\<rparr>"

text \<open>\<^verbatim>\<open>operator[]\<close> on the maps of pending charges: absent means zero.\<close>

definition pending :: "'k \<Rightarrow> ('k, u64) omap \<Rightarrow> u64" where
  "pending k m = (case om_find k m of None \<Rightarrow> 0 | Some v \<Rightarrow> v)"

definition on_impl :: "(impl \<Rightarrow> impl) \<Rightarrow> round \<Rightarrow> round" where
  "on_impl f rn = rn\<lparr>rn_impl := f (rn_impl rn)\<rparr>"

definition on_outcome :: "(arbitration_outcome \<Rightarrow> arbitration_outcome) \<Rightarrow> round \<Rightarrow> round" where
  "on_outcome f rn = rn\<lparr>rn_outcome := f (rn_outcome rn)\<rparr>"

definition round_defer :: "flow_runtime \<Rightarrow> decision_reason \<Rightarrow> bytes \<Rightarrow> round \<Rightarrow> round" where
  "round_defer r reason detail = on_outcome (defer_flow r reason detail)"

text \<open>A flow of the ready set whose readiness lapsed before its turn.\<close>

definition readiness_lapsed :: "flow_id \<Rightarrow> flow_runtime \<Rightarrow> decision_reason \<Rightarrow> ticks \<Rightarrow> round \<Rightarrow> round" where
  "readiness_lapsed flow r reason now rn =
     (if reason = ReasonDeadlineMissed
      then case handle_deadline_miss flow now (rn_impl rn, rn_outcome rn) of (s, outcome) \<Rightarrow>
        rn\<lparr>rn_impl := s, rn_outcome := outcome\<rparr>
      else if reason = ReasonDependencyFailed
      then round_defer r reason (lit (reason_text reason)) (on_impl (fail_dependent flow now) rn)
      else round_defer r reason (lit (reason_text reason)) rn)"

definition preempt_entry :: "u32 \<Rightarrow> order_key \<Rightarrow> flow_id \<Rightarrow> flow_id \<Rightarrow> generation \<Rightarrow> attempt_id \<Rightarrow> dispatch_ticket \<Rightarrow> ticks \<Rightarrow> schedule_entry" where
  "preempt_entry ordinal key candidate victim victim_generation attempt t now =
     \<lparr>se_ordinal = ordinal, se_kind = KindPreempt, se_flow = victim,
      se_flow_generation = victim_generation, se_attempt = attempt, se_path = dt_path t,
      se_path_generation = dt_path_generation t, se_resource = dt_resource t,
      se_resource_generation = dt_resource_generation t, se_reservation = dt_reservation t,
      se_reservation_generation = dt_reservation_generation t, se_qos = dt_qos t,
      se_qos_generation = dt_qos_generation t, se_priority = dt_priority t,
      se_priority_generation = dt_priority_generation t, se_quantum = dt_quantum t,
      se_start_tick = now, se_deadline_tick = dt_deadline_tick t,
      se_reservation_end = dt_reservation_end t, se_tier = ok_tier key,
      se_reason = ReasonDisplacedByHigherAuthority,
      se_detail = bounded_detail (lit ''displaced by '' @ id_text ''flow'' candidate),
      se_ordering_digest = digest_of_key key\<rparr>"

text \<open>Revoke the window of the victim: the entry, the closed attempt, the throttle.\<close>

definition displace :: "order_key \<Rightarrow> flow_runtime \<Rightarrow> attempt_id \<Rightarrow> attempt_runtime \<Rightarrow> flow_runtime \<Rightarrow> ticks \<Rightarrow> round action" where
  "displace key r victim va vr now rn =
     (let vf = dt_flow (ar_ticket va);
          rn1 = rn\<lparr>rn_next_ordinal := rn_next_ordinal rn + 1,
                 rn_entries := rn_entries rn @ [preempt_entry (rn_next_ordinal rn) key
                   (fd_flow (fr_descriptor r)) vf (fd_generation (fr_descriptor vr)) victim
                   (ar_ticket va) now]\<rparr>
      in case close_attempt victim AttemptPreempted (lit ''displaced by higher authority'') now (rn_impl rn1) of
           (code, s) \<Rightarrow>
             if code \<noteq> Ok then (code, rn1\<lparr>rn_impl := s\<rparr>)
             else (Ok, round_defer vr ReasonDisplacedByHigherAuthority
                 (lit ''displaced by higher authority'')
                 (rn1\<lparr>rn_impl := modify_resource (bd_id (fd_resource (fr_descriptor r))) (roll_interval now)
                        (s\<lparr>im_preemptions_issued := im_preemptions_issued s + 1,
                           im_preemptions_in_window := im_preemptions_in_window s + 1\<rparr>),
                      rn_decided := os_insert vf (rn_decided rn1)\<rparr>)))"

text \<open>
  Room under the concurrency ceiling.  The boolean says whether the candidate goes on; when it does
  not, it was deferred.
\<close>

definition make_room :: "order_key \<Rightarrow> flow_runtime \<Rightarrow> resource_runtime \<Rightarrow> ticks \<Rightarrow> round \<Rightarrow> (status \<times> bool) \<times> round" where
  "make_room key r rr now rn =
     (let s = rn_impl rn; resource = bd_id (fd_resource (fr_descriptor r)) in
      if rr_in_flight rr + pending resource (rn_pending_in_flight rn) < res_max_overlap (rr_descriptor rr)
      then ((Ok, True), rn)
      else case worst_incumbent s resource now of
        None \<Rightarrow> ((Ok, False), round_defer r ReasonConcurrencyLimitReached
          (lit ''resource concurrency ceiling reached with no displaceable incumbent'') rn)
      | Some victim \<Rightarrow>
          (case om_find victim (im_attempts s) of
             None \<Rightarrow> ((Ok, False), round_defer r ReasonConcurrencyLimitReached
               (lit ''resource concurrency ceiling reached'') rn)
           | Some va \<Rightarrow>
               (case om_find (dt_flow (ar_ticket va)) (im_flows s) of
                  None \<Rightarrow> ((Ok, False), round_defer r ReasonConcurrencyLimitReached
                    (lit ''resource concurrency ceiling reached'') rn)
                | Some vr \<Rightarrow>
                    (case preemption_allowed s key vr now of (allowed, refusal) \<Rightarrow>
                       if \<not> allowed
                       then ((Ok, False), round_defer r refusal (lit (reason_text refusal)) rn)
                       else case displace key r victim va vr now rn of (code, rn') \<Rightarrow>
                         ((code, code = Ok), rn')))))"

section \<open>The largest legal window\<close>

definition remaining_work :: "flow_runtime \<Rightarrow> u64" where
  "remaining_work r = (if fd_estimated_work (fr_descriptor r) > fr_served_work r
     then fd_estimated_work (fr_descriptor r) - fr_served_work r else 0)"

definition qos_limit :: "impl \<Rightarrow> flow_descriptor \<Rightarrow> u64 option" where
  "qos_limit s d = (case om_find (bd_id (fd_qos d)) (im_qos_classes s) of
     None \<Rightarrow> None
   | Some qos \<Rightarrow>
       if qos_generation qos = bd_generation (fd_qos d) \<and> qos_max_service_per_dispatch qos > 0
       then Some (qos_max_service_per_dispatch qos) else None)"

text \<open>Capacity of the interval and slack of the reservation after what this round already granted.\<close>

definition round_capacity :: "round \<Rightarrow> flow_runtime \<Rightarrow> resource_runtime \<Rightarrow> ticks \<Rightarrow> u64" where
  "round_capacity rn r rr now =
     (let raw = capacity_remaining rr now;
          charged = pending (bd_id (fd_resource (fr_descriptor r))) (rn_pending_capacity rn)
      in if raw > charged then raw - charged else 0)"

definition reservation_slack :: "round \<Rightarrow> flow_runtime \<Rightarrow> ticks \<Rightarrow> u64" where
  "reservation_slack rn r now =
     (let raw = reservation_remaining (rn_impl rn) r now; b = fd_reservation (fr_descriptor r) in
      if bound b
      then let here = pending (bd_id b) (rn_pending_reservation rn) in if raw > here then raw - here else 0
      else raw)"

definition legal_quantum :: "round \<Rightarrow> flow_runtime \<Rightarrow> resource_runtime \<Rightarrow> ticks \<Rightarrow> u64" where
  "legal_quantum rn r rr now =
     (let s = rn_impl rn; p = im_policy s; d = fr_descriptor r;
          q1 = min (fd_service_quantum d) (remaining_work r);
          q2 = min q1 (sp_max_quantum p);
          q3 = (case qos_limit s d of None \<Rightarrow> q2 | Some limit \<Rightarrow> min q2 limit);
          q4 = min q3 (round_capacity rn r rr now);
          q5 = min q4 (reservation_slack rn r now)
      in if has_deadline (fd_deadline_tick d) \<and> sp_strict_deadlines p
         then min q5 (if fd_deadline_tick d > now then fd_deadline_tick d - now else 0)
         else q5)"

definition no_quantum_reason :: "round \<Rightarrow> flow_runtime \<Rightarrow> resource_runtime \<Rightarrow> ticks \<Rightarrow> decision_reason" where
  "no_quantum_reason rn r rr now =
     (if remaining_work r = 0 then ReasonNoLegalQuantum
      else if round_capacity rn r rr now = 0 then ReasonResourceCapacityExhausted
      else if reservation_slack rn r now = 0 then ReasonReservationExhausted
      else ReasonNoLegalQuantum)"

definition run_entry :: "impl \<Rightarrow> u32 \<Rightarrow> order_key \<Rightarrow> flow_descriptor \<Rightarrow> u64 \<Rightarrow> ticks \<Rightarrow> schedule_entry" where
  "run_entry s ordinal key d quantum now =
     \<lparr>se_ordinal = ordinal, se_kind = KindRun, se_flow = fd_flow d,
      se_flow_generation = fd_generation d, se_attempt = unbound, se_path = bd_id (fd_path d),
      se_path_generation = bd_generation (fd_path d), se_resource = bd_id (fd_resource d),
      se_resource_generation = bd_generation (fd_resource d),
      se_reservation = bd_id (fd_reservation d),
      se_reservation_generation = bd_generation (fd_reservation d), se_qos = bd_id (fd_qos d),
      se_qos_generation = bd_generation (fd_qos d), se_priority = bd_id (fd_priority d),
      se_priority_generation = bd_generation (fd_priority d), se_quantum = quantum,
      se_start_tick = now, se_deadline_tick = fd_deadline_tick d,
      se_reservation_end = (if bound (fd_reservation d)
        then reservation_window_end s (bd_id (fd_reservation d)) else kNoWindowBound),
      se_tier = ok_tier key, se_reason = ReasonSelected,
      se_detail = bounded_detail (lit ''tier '' @ dec (ok_tier key) @ lit '' priority ''
        @ dec (ok_priority_rank key)),
      se_ordering_digest = digest_of_key key\<rparr>"

text \<open>Place the entry and charge it to the round.\<close>

definition charge :: "u64 \<Rightarrow> 'k::linorder \<Rightarrow> ('k, u64) omap \<Rightarrow> ('k, u64) omap" where
  "charge quantum k m = om_put k (saturating_add (pending k m) quantum) m"

definition grant :: "order_key \<Rightarrow> flow_runtime \<Rightarrow> resource_runtime \<Rightarrow> ticks \<Rightarrow> round \<Rightarrow> round" where
  "grant key r rr now rn =
     (let d = fr_descriptor r; quantum = legal_quantum rn r rr now in
      if quantum = 0
      then round_defer r (no_quantum_reason rn r rr now)
             (lit (reason_text (no_quantum_reason rn r rr now))) rn
      else
        let e = run_entry (rn_impl rn) (rn_next_ordinal rn) key d quantum now
        in rn\<lparr>rn_next_ordinal := rn_next_ordinal rn + 1,
              rn_entries := rn_entries rn @ [e],
              rn_pending_in_flight := om_put (se_resource e)
                (pending (se_resource e) (rn_pending_in_flight rn) + 1) (rn_pending_in_flight rn),
              rn_pending_capacity := charge quantum (se_resource e) (rn_pending_capacity rn),
              rn_pending_reservation := (if id_valid (se_reservation e)
                then charge quantum (se_reservation e) (rn_pending_reservation rn)
                else rn_pending_reservation rn)\<rparr>)"

text \<open>
  The body of the placement loop for a flow that is still ready and below the entry limit: roll the
  interval, make room, grant.  Flow and resource are read again after a displacement.
\<close>

definition place_candidate :: "flow_id \<Rightarrow> order_key \<Rightarrow> flow_runtime \<Rightarrow> ticks \<Rightarrow> round action" where
  "place_candidate flow key r now rn =
     (let resource = bd_id (fd_resource (fr_descriptor r)) in
      case om_find resource (im_resources (rn_impl rn)) of
        None \<Rightarrow> (Ok, round_defer r ReasonResourceUnavailable
          (lit ''bound resource is missing or its generation advanced'') rn)
      | Some rr0 \<Rightarrow>
          if res_generation (rr_descriptor rr0) \<noteq> bd_generation (fd_resource (fr_descriptor r))
          then (Ok, round_defer r ReasonResourceUnavailable
            (lit ''bound resource is missing or its generation advanced'') rn)
          else
            let rr = roll_interval now rr0;
                rn1 = on_impl (modify_resource resource (roll_interval now)) rn
            in case make_room key r rr now rn1 of ((code, go), rn2) \<Rightarrow>
                 if code \<noteq> Ok then (code, rn2)
                 else if \<not> go then (Ok, rn2)
                 else (case (om_find flow (im_flows (rn_impl rn2)), om_find resource (im_resources (rn_impl rn2))) of
                     (Some r2, Some rr2) \<Rightarrow> (Ok, grant key r2 rr2 now rn2)
                   | _ \<Rightarrow> (Ok, rn2)))"

definition consider_candidate :: "nat \<Rightarrow> ticks \<Rightarrow> flow_id \<times> order_key \<Rightarrow> round action" where
  "consider_candidate limit now candidate rn = (case candidate of (flow, key) \<Rightarrow>
     (case om_find flow (im_flows (rn_impl rn)) of
        None \<Rightarrow> (Ok, rn)
      | Some r \<Rightarrow>
          if fr_lifecycle r \<noteq> FlowReady then (Ok, rn)
          else if flow \<in> set (rn_decided rn) then (Ok, rn)
          else case derived_readiness (rn_impl rn) r now of (ready, reason) \<Rightarrow>
            if \<not> ready then (Ok, readiness_lapsed flow r reason now rn)
            else if length (rn_entries rn) \<ge> limit
            then (Ok, round_defer r ReasonScheduleEntryLimitReached (lit ''round entry bound reached'') rn)
            else place_candidate flow key r now rn))"

section \<open>Issuing the schedule\<close>

definition build_schedule :: "impl \<Rightarrow> schedule_entry list \<Rightarrow> ticks \<Rightarrow> schedule" where
  "build_schedule s entries now =
     (let sched = \<lparr>sc_schedule = im_next_schedule s, sc_generation = im_next_schedule_generation s,
            sc_epoch = im_epoch s, sc_policy = sp_policy (im_policy s),
            sc_policy_generation = sp_generation (im_policy s),
            sc_policy_binding = im_policy_binding s, sc_at_tick = now, sc_entries = entries,
            sc_digest = 0,
            sc_provenance = \<lparr>pv_origin = OriginInternal, pv_sequence = im_provenance_sequence s + 1,
              pv_digest = 0\<rparr>\<rparr>
      in sched\<lparr>sc_digest := compute_schedule_digest sched\<rparr>)"

definition idle_schedule :: "impl \<Rightarrow> ticks \<Rightarrow> schedule" where
  "idle_schedule s now = empty_schedule\<lparr>sc_at_tick := now, sc_epoch := im_epoch s,
     sc_policy := sp_policy (im_policy s), sc_policy_generation := sp_generation (im_policy s),
     sc_policy_binding := im_policy_binding s\<rparr>"

definition advance_schedule_ids :: "impl action" where
  "advance_schedule_ids s = (case advance (im_next_schedule s) of
     Inl e \<Rightarrow> (e, s)
   | Inr schedule \<Rightarrow>
       (case advance (im_next_schedule_generation s) of
          Inl e \<Rightarrow> (e, s)
        | Inr generation \<Rightarrow> (Ok, s\<lparr>im_next_schedule := schedule, im_next_schedule_generation := generation\<rparr>)))"

definition issue_schedule :: "schedule_entry list \<Rightarrow> ticks \<Rightarrow> impl action" where
  "issue_schedule entries now s =
     (let sched = build_schedule s entries now in
      and_then (journal RecScheduleIssued (take_record [write_schedule sched]))
      (and_then (succeed (apply_schedule sched)) advance_schedule_ids)
        (s\<lparr>im_provenance_sequence := im_provenance_sequence s + 1\<rparr>))"

definition finish_round :: "ticks \<Rightarrow> impl \<Rightarrow> impl" where
  "finish_round now s = maybe_retire_schedules (normalize_transient_states now s)"

text \<open>Steps 1 and 2 and the roll of the throttle window, up to the placement loop.\<close>

definition prepare_round :: "ticks \<Rightarrow> impl \<Rightarrow> (status \<times> impl) \<times> arbitration_outcome" where
  "prepare_round now s0 =
     (let s = s0\<lparr>im_last_tick := now, im_arbitration_rounds := im_arbitration_rounds s0 + 1\<rparr>;
          so = refresh_lifecycles now (reclaim_expired_deliveries now (s, empty_outcome))
      in (for_each (stop_overdue now) (overdue_attempts now (fst so)) (fst so), snd so))"

definition placement :: "ticks \<Rightarrow> impl \<Rightarrow> arbitration_outcome \<Rightarrow> status \<times> round" where
  "placement now s outcome =
     (let s1 = fold (mark_starvation now) (im_ready_index s) s in
      for_each (consider_candidate (entry_limit (im_policy s)) now) (ranked_candidates now s)
        (round_start (roll_preemption_window now s1, outcome)))"

definition arbitrate :: "ticks \<Rightarrow> impl \<Rightarrow> arbitration_outcome result \<times> impl" where
  "arbitrate now s0 =
     (if now < im_last_tick s0 then (Inl InvalidArgument, s0)
      else case prepare_round now s0 of ((code1, s1), outcome1) \<Rightarrow>
        if code1 \<noteq> Ok then (Inl code1, s1)
        else case placement now s1 outcome1 of (code2, rn) \<Rightarrow>
          if code2 \<noteq> Ok then (Inl code2, rn_impl rn)
          else if rn_entries rn \<noteq> []
          then case issue_schedule (rn_entries rn) now (rn_impl rn) of (code3, s3) \<Rightarrow>
            if code3 \<noteq> Ok then (Inl code3, s3)
            else (Inr ((rn_outcome rn)\<lparr>ao_schedule := build_schedule (rn_impl rn) (rn_entries rn) now\<rparr>),
                  finish_round now s3)
          else (Inr ((rn_outcome rn)\<lparr>ao_schedule := idle_schedule (rn_impl rn) now\<rparr>),
                finish_round now (rn_impl rn)))"

definition release_schedule :: "schedule_id \<Rightarrow> generation \<Rightarrow> ticks \<Rightarrow> impl action" where
  "release_schedule schedule generation now s0 =
     (let s = observe_tick now s0 in
      case find_schedule s schedule of
        None \<Rightarrow> (UnknownSchedule, s)
      | Some sr \<Rightarrow>
          if sc_generation (sr_schedule sr) \<noteq> generation then (StaleScheduleGeneration, s)
          else and_then (journal RecScheduleReleased (take_record [rw_id schedule, rw_u64 now]))
                 (succeed (\<lambda>s. normalize_transient_states now (apply_release_schedule schedule now s))) s)"

end
