(* ===== verification/Framing.thy ===== *)
theory Framing
  imports Records
begin

text \<open>
  \<^verbatim>\<open>include/flow_scheduler/framing.hpp\<close>, \<^verbatim>\<open>src/framing.cpp\<close> and the \<^verbatim>\<open>FrameChannel\<close> of
  \<^verbatim>\<open>src/transport.cpp\<close>: one frame on the wire, the accumulator that reassembles frames from a byte
  stream, and the loop that reads the next frame from a socket.  What the socket delivers is an
  argument: one result of \<^verbatim>\<open>recv_some\<close> per element, and the orderly close when there are no more.
\<close>

section \<open>Frames\<close>

definition kFrameMagic :: u32 where "kFrameMagic = 0x31435346"
definition kProtocolVersion :: u16 where "kProtocolVersion = 1"
definition kFrameHeaderBytes :: nat where "kFrameHeaderBytes = 20"
definition kFrameTrailerBytes :: nat where "kFrameTrailerBytes = 4"
definition kFrameOverhead :: nat where "kFrameOverhead = kFrameHeaderBytes + kFrameTrailerBytes"
definition kMaxFramePayload :: u32 where "kMaxFramePayload = 0x100000"
definition kMaxMessageType :: u16 where "kMaxMessageType = 1024"

lemmas frame_consts = kFrameHeaderBytes_def kFrameTrailerBytes_def kFrameOverhead_def

record frame_header =
  fh_version :: u16
  fh_type :: u16
  fh_flags :: u32
  fh_payload_length :: u32

definition frame_header_bytes :: "u16 \<Rightarrow> bytes \<Rightarrow> u32 \<Rightarrow> bytes" where
  "frame_header_bytes type payload flags =
     encode_u32_le kFrameMagic @ encode_u16_le kProtocolVersion @ encode_u16_le type
     @ encode_u32_le flags @ encode_u32_le (of_nat (length payload))"

definition encode_frame :: "u16 \<Rightarrow> bytes \<Rightarrow> u32 \<Rightarrow> bytes result" where
  "encode_frame type payload flags =
     (if length payload > unat kMaxFramePayload then Inl Oversized
      else if type = 0 \<or> type > kMaxMessageType then Inl InvalidArgument
      else let header = frame_header_bytes type payload flags in
        Inr (header @ encode_u32_le (crc32c header) @ payload @ encode_u32_le (crc32c payload)))"

text \<open>
  \<^verbatim>\<open>decode_frame\<close> returns the result with the payload view it leaves in its reference argument: the
  view is empty until the body is known to be complete.
\<close>

definition decode_frame :: "bytes \<Rightarrow> frame_header result \<times> bytes" where
  "decode_frame buffer =
     (if length buffer < kFrameOverhead then (Inl Truncated, [])
      else if decode_u32_le buffer \<noteq> kFrameMagic then (Inl ProtocolViolation, [])
      else
        let header = \<lparr>fh_version = decode_u16_le (drop 4 buffer),
              fh_type = decode_u16_le (drop 6 buffer), fh_flags = decode_u32_le (drop 8 buffer),
              fh_payload_length = decode_u32_le (drop 12 buffer)\<rparr>
        in if fh_version header \<noteq> kProtocolVersion then (Inl Unsupported, [])
           else if fh_flags header \<noteq> 0 then (Inl ProtocolViolation, [])
           else if fh_type header = 0 \<or> fh_type header > kMaxMessageType
           then (Inl ProtocolViolation, [])
           else if fh_payload_length header > kMaxFramePayload then (Inl Oversized, [])
           else if decode_u32_le (drop 16 buffer) \<noteq> crc32c (take 16 buffer)
           then (Inl CorruptData, [])
           else
             let n = unat (fh_payload_length header) in
             if length buffer < kFrameOverhead + n then (Inl Truncated, [])
             else
               let payload = take n (drop kFrameHeaderBytes buffer) in
               if decode_u32_le (drop (kFrameHeaderBytes + n) buffer) \<noteq> crc32c payload
               then (Inl CorruptData, payload)
               else (Inr header, payload))"

section \<open>\<^verbatim>\<open>FrameAccumulator\<close>\<close>

record frame_accumulator =
  ac_buffer :: bytes
  ac_frames_decoded :: nat
  ac_bytes_discarded :: nat

definition frame_accumulator_new :: frame_accumulator where
  "frame_accumulator_new = \<lparr>ac_buffer = [], ac_frames_decoded = 0, ac_bytes_discarded = 0\<rparr>"

definition push :: "bytes \<Rightarrow> frame_accumulator action" where
  "push data a =
     (if length data > unat kMaxFramePayload + kFrameOverhead
         \<or> length (ac_buffer a) + length data > 2 * (unat kMaxFramePayload + kFrameOverhead)
      then (Oversized, a)
      else (Ok, a\<lparr>ac_buffer := ac_buffer a @ data\<rparr>))"

text \<open>\<^verbatim>\<open>next\<close>: \<open>None\<close> when more bytes are needed, otherwise the header and payload popped.\<close>

definition next_frame :: "frame_accumulator \<Rightarrow> (frame_header \<times> bytes) option result \<times> frame_accumulator" where
  "next_frame a =
     (if length (ac_buffer a) < kFrameHeaderBytes then (Inr None, a)
      else
        let declared = decode_u32_le (drop 12 (ac_buffer a)) in
        if declared > kMaxFramePayload then (Inl Oversized, a)
        else
          let total = kFrameOverhead + unat declared in
          if length (ac_buffer a) < total then (Inr None, a)
          else case decode_frame (take total (ac_buffer a)) of
            (Inl e, _) \<Rightarrow> (Inl e, a)
          | (Inr header, payload) \<Rightarrow>
              (Inr (Some (header, payload)),
               a\<lparr>ac_buffer := drop total (ac_buffer a), ac_frames_decoded := ac_frames_decoded a + 1\<rparr>))"

definition reset :: "frame_accumulator \<Rightarrow> frame_accumulator" where
  "reset a = a\<lparr>ac_buffer := [], ac_bytes_discarded := ac_bytes_discarded a + length (ac_buffer a)\<rparr>"

text \<open>
  \<^verbatim>\<open>FrameChannel::read_frame\<close>.  \<open>None\<close> is the orderly close at a frame boundary; the third component
  is what the socket has yet to deliver.
\<close>

fun read_frame :: "bytes result list \<Rightarrow> frame_accumulator \<Rightarrow>
    (u16 \<times> bytes) option result \<times> frame_accumulator \<times> bytes result list" where
  "read_frame socket a = (case next_frame a of
     (Inl e, a') \<Rightarrow> (Inl e, a', socket)
   | (Inr (Some (header, body)), a') \<Rightarrow> (Inr (Some (fh_type header, body)), a', socket)
   | (Inr None, a') \<Rightarrow> (case socket of
       [] \<Rightarrow> (if ac_buffer a' = [] then Inr None else Inl Truncated, a', [])
     | Inl e # rest \<Rightarrow> (Inl e, a', rest)
     | Inr data # rest \<Rightarrow>
         if data = [] then (if ac_buffer a' = [] then Inr None else Inl Truncated, a', rest)
         else case push data a' of (code, a'') \<Rightarrow>
           if code \<noteq> Ok then (Inl code, a'', rest) else read_frame rest a''))"

declare read_frame.simps [simp del]

section \<open>What a frame on the wire is\<close>

definition sendable :: "u16 \<Rightarrow> bytes \<Rightarrow> bool" where
  "sendable type payload \<longleftrightarrow>
     type \<noteq> 0 \<and> type \<le> kMaxMessageType \<and> length payload \<le> unat kMaxFramePayload"

definition frame_bytes :: "u16 \<Rightarrow> bytes \<Rightarrow> bytes" where
  "frame_bytes type payload =
     (let header = frame_header_bytes type payload 0
      in header @ encode_u32_le (crc32c header) @ payload @ encode_u32_le (crc32c payload))"

definition header_of :: "u16 \<Rightarrow> bytes \<Rightarrow> frame_header" where
  "header_of type payload = \<lparr>fh_version = kProtocolVersion, fh_type = type, fh_flags = 0,
     fh_payload_length = of_nat (length payload)\<rparr>"

lemma unat_max_payload [simp]: "unat kMaxFramePayload = 0x100000"
  by (simp add: kMaxFramePayload_def)

lemma length_header_bytes [simp]: "length (frame_header_bytes type payload flags) = 16"
  by (simp add: frame_header_bytes_def)

lemma length_frame_bytes: "length (frame_bytes type payload) = kFrameOverhead + length payload"
  by (simp add: frame_bytes_def Let_def frame_consts)

lemma encode_frame_sendable:
  "encode_frame type payload 0 = Inr frame \<longleftrightarrow> sendable type payload \<and> frame = frame_bytes type payload"
  by (auto simp: encode_frame_def sendable_def frame_bytes_def Let_def)

lemma payload_length_fits:
  assumes "sendable type payload"
  shows "unat (of_nat (length payload) :: u32) = length payload"
    "\<not> (of_nat (length payload) :: u32) > kMaxFramePayload"
proof -
  have "length payload < 2 ^ 32" using assms by (simp add: sendable_def)
  then show *: "unat (of_nat (length payload) :: u32) = length payload"
    by (simp add: unat_of_nat take_bit_nat_eq_self)
  show "\<not> (of_nat (length payload) :: u32) > kMaxFramePayload"
    using assms * by (simp add: sendable_def word_less_nat_alt)
qed

lemma header_fields:
  "decode_u32_le (frame_header_bytes type payload flags @ rest) = kFrameMagic"
  "decode_u16_le (drop 4 (frame_header_bytes type payload flags @ rest)) = kProtocolVersion"
  "decode_u16_le (drop 6 (frame_header_bytes type payload flags @ rest)) = type"
  "decode_u32_le (drop 8 (frame_header_bytes type payload flags @ rest)) = flags"
  "decode_u32_le (drop 12 (frame_header_bytes type payload flags @ rest)) = of_nat (length payload)"
  by (simp_all add: frame_header_bytes_def)

lemma decode_frame_bytes:
  assumes "sendable type payload"
  shows "decode_frame (frame_bytes type payload @ rest) = (Inr (header_of type payload), payload)"
proof -
  let ?h = "frame_header_bytes type payload 0"
  let ?tail = "encode_u32_le (crc32c ?h) @ payload @ encode_u32_le (crc32c payload) @ rest"
  have split: "frame_bytes type payload @ rest = ?h @ ?tail" by (simp add: frame_bytes_def Let_def)
  have drops: "drop 16 (?h @ ?tail) = ?tail" "take 16 (?h @ ?tail) = ?h"
    "drop kFrameHeaderBytes (?h @ ?tail) = payload @ encode_u32_le (crc32c payload) @ rest"
    "drop (kFrameHeaderBytes + length payload) (?h @ ?tail) = encode_u32_le (crc32c payload) @ rest"
    by (simp_all add: kFrameHeaderBytes_def)
  show ?thesis
    unfolding split decode_frame_def Let_def header_fields drops
    using assms payload_length_fits [OF assms]
    by (simp add: frame_consts header_of_def sendable_def header_fields leD)
qed

section \<open>Reassembly\<close>

lemma next_frame_complete:
  assumes "sendable type payload" "ac_buffer a = frame_bytes type payload @ rest"
  shows "next_frame a = (Inr (Some (header_of type payload, payload)),
    a\<lparr>ac_buffer := rest, ac_frames_decoded := ac_frames_decoded a + 1\<rparr>)"
proof -
  have declared: "decode_u32_le (drop 12 (ac_buffer a)) = of_nat (length payload)"
    using header_fields(5) by (simp add: assms(2) frame_bytes_def Let_def)
  have total: "take (kFrameOverhead + length payload) (ac_buffer a) = frame_bytes type payload"
    "drop (kFrameOverhead + length payload) (ac_buffer a) = rest"
    by (simp_all add: assms(2) length_frame_bytes)
  have long: "\<not> length (ac_buffer a) < kFrameOverhead + length payload"
    "\<not> length (ac_buffer a) < kFrameHeaderBytes"
    by (simp_all add: assms(2) length_frame_bytes frame_consts)
  show ?thesis
    using long payload_length_fits [OF assms(1)] decode_frame_bytes [OF assms(1), of "[]"]
    by (simp add: next_frame_def declared total)
qed

lemma next_frame_partial:
  assumes "sendable type payload" "frame_bytes type payload = ac_buffer a @ tail" "tail \<noteq> []"
  shows "next_frame a = (Inr None, a)"
proof (cases "length (ac_buffer a) < kFrameHeaderBytes")
  case False
  have "take 16 (ac_buffer a) = frame_header_bytes type payload 0"
    using False arg_cong [OF assms(2), of "take 16"]
    by (simp add: frame_bytes_def Let_def kFrameHeaderBytes_def)
  then have "ac_buffer a = frame_header_bytes type payload 0 @ drop 16 (ac_buffer a)"
    by (metis append_take_drop_id)
  then have declared: "decode_u32_le (drop 12 (ac_buffer a)) = of_nat (length payload)"
    using header_fields(5) by metis
  have "length (ac_buffer a) < kFrameOverhead + length payload"
    using arg_cong [OF assms(2), of length] assms(3) by (simp add: length_frame_bytes)
  with False show ?thesis
    using payload_length_fits [OF assms(1)] by (simp add: next_frame_def declared)
qed (simp add: next_frame_def)

text \<open>
  Chunks are what \<^verbatim>\<open>recv_some\<close> returns into a buffer of 8192 bytes while the peer is connected.
\<close>

definition chunk :: "bytes \<Rightarrow> bool" where
  "chunk data \<longleftrightarrow> data \<noteq> [] \<and> length data \<le> 8192"

lemma read_frame_stream:
  assumes "sendable type payload" "list_all chunk cs"
    and "ac_buffer a @ concat cs = frame_bytes type payload @ rest"
  shows "\<exists>a' cs'. read_frame (map Inr cs) a = (Inr (Some (type, payload)), a', map Inr cs')
    \<and> list_all chunk cs' \<and> ac_buffer a' @ concat cs' = rest"
  using assms(2,3)
proof (induction cs arbitrary: a)
  case Nil
  then show ?case
    by (subst read_frame.simps)
      (simp add: next_frame_complete [OF assms(1)] header_of_def)
next
  case (Cons data cs)
  obtain us where "ac_buffer a = frame_bytes type payload @ us \<and> us @ concat (data # cs) = rest
      \<or> ac_buffer a @ us = frame_bytes type payload \<and> concat (data # cs) = us @ rest"
    using Cons.prems(2) unfolding append_eq_append_conv2 by blast
  then consider
      (full) us where "ac_buffer a = frame_bytes type payload @ us" "us @ concat (data # cs) = rest"
    | (short) us where "frame_bytes type payload = ac_buffer a @ us" "us \<noteq> []"
    by (metis append_Nil append_Nil2)
  then show ?case
  proof cases
    case full
    then show ?thesis
      using Cons.prems(1) next_frame_complete [OF assms(1) full(1)]
      by (subst read_frame.simps) (auto simp: header_of_def intro!: exI [of _ "data # cs"])
  next
    case short
    have nonempty: "data \<noteq> []" using Cons.prems(1) by (simp add: chunk_def)
    have "length (ac_buffer a) \<le> kFrameOverhead + length payload"
      using arg_cong [OF short(1), of length] by (simp add: length_frame_bytes)
    then have "push data a = (Ok, a\<lparr>ac_buffer := ac_buffer a @ data\<rparr>)"
      using assms(1) Cons.prems(1) by (simp add: push_def sendable_def chunk_def frame_consts)
    then show ?thesis
      using Cons.IH [of "a\<lparr>ac_buffer := ac_buffer a @ data\<rparr>"] Cons.prems
        next_frame_partial [OF assms(1) short] nonempty
      by (subst read_frame.simps) simp
  qed
qed

text \<open>Reading \<open>n\<close> frames in a row.\<close>

fun read_frames :: "nat \<Rightarrow> bytes result list \<Rightarrow> frame_accumulator \<Rightarrow>
    (u16 \<times> bytes) list \<times> frame_accumulator \<times> bytes result list" where
  "read_frames 0 socket a = ([], a, socket)"
| "read_frames (Suc n) socket a = (case read_frame socket a of
     (Inr (Some message), a', socket') \<Rightarrow>
       (case read_frames n socket' a' of (messages, final) \<Rightarrow> (message # messages, final))
   | (_, a', socket') \<Rightarrow> ([], a', socket'))"

definition wire_stream :: "(u16 \<times> bytes) list \<Rightarrow> bytes" where
  "wire_stream messages = concat (map (\<lambda>(type, payload). frame_bytes type payload) messages)"

lemma read_frames_stream:
  assumes "list_all (\<lambda>(type, payload). sendable type payload) messages" "list_all chunk cs"
    "ac_buffer a @ concat cs = wire_stream messages"
  shows "\<exists>a'. read_frames (length messages) (map Inr cs) a = (messages, a', []) \<and> ac_buffer a' = []"
  using assms
proof (induction messages arbitrary: cs a)
  case Nil
  then have "cs = []" by (cases cs) (auto simp: wire_stream_def chunk_def)
  with Nil show ?case by (simp add: wire_stream_def)
next
  case (Cons m messages)
  obtain type payload where m: "m = (type, payload)" by (cases m)
  obtain a' cs' where step: "read_frame (map Inr cs) a = (Inr (Some (type, payload)), a', map Inr cs')"
    "list_all chunk cs'" "ac_buffer a' @ concat cs' = wire_stream messages"
    using read_frame_stream [of type payload cs a "wire_stream messages"] Cons.prems
    by (auto simp: m wire_stream_def)
  with Cons.IH [OF _ step(2,3)] Cons.prems(1) show ?case by (auto simp: m)
qed

section \<open>Corruption\<close>

lemma decode_frame_header_crc:
  "fst (decode_frame buffer) = Inr h \<Longrightarrow> decode_u32_le (drop 16 buffer) = crc32c (take 16 buffer)"
  by (auto simp: decode_frame_def Let_def split: if_splits)

lemma header_crc_rejected:
  assumes "length header = 16" "crc32c header \<noteq> crc"
  shows "\<exists>e. fst (decode_frame (header @ encode_u32_le crc @ rest)) = Inl e"
proof (cases "fst (decode_frame (header @ encode_u32_le crc @ rest))")
  case (Inr h)
  with decode_frame_header_crc [OF Inr] assms show ?thesis by simp
qed simp

text \<open>
  A frame whose header or whose payload was overwritten by another byte string of the same length
  that differs within four consecutive bytes is never accepted.
\<close>

lemma header_burst_rejected:
  assumes frame: "sendable type payload" "frame_header_bytes type payload 0 = p @ bs @ q"
    and burst: "length cs = length bs" "length bs \<le> 4" "cs \<noteq> bs"
  shows "\<exists>e. fst (decode_frame ((p @ cs @ q) @ encode_u32_le (crc32c (p @ bs @ q)) @ payload
    @ encode_u32_le (crc32c payload))) = Inl e"
proof (rule header_crc_rejected)
  show "length (p @ cs @ q) = 16" using arg_cong [OF frame(2), of length] burst(1) by simp
  show "crc32c (p @ cs @ q) \<noteq> crc32c (p @ bs @ q)"
    using crc32c_burst burst by metis
qed

lemma payload_crc_rejected:
  assumes "sendable type v" "length v' = length v" "crc32c v \<noteq> crc32c v'"
  shows "decode_frame (frame_header_bytes type v 0 @ encode_u32_le (crc32c (frame_header_bytes type v 0))
    @ v' @ encode_u32_le (crc32c v)) = (Inl CorruptData, v')"
proof -
  let ?h = "frame_header_bytes type v 0"
  let ?tail = "encode_u32_le (crc32c ?h) @ v' @ encode_u32_le (crc32c v)"
  have drops: "drop 16 (?h @ ?tail) = ?tail" "take 16 (?h @ ?tail) = ?h"
    "drop kFrameHeaderBytes (?h @ ?tail) = v' @ encode_u32_le (crc32c v)"
    "drop (kFrameHeaderBytes + length v) (?h @ ?tail) = encode_u32_le (crc32c v)"
    using assms(2) by (simp_all add: kFrameHeaderBytes_def)
  show ?thesis
    unfolding decode_frame_def Let_def header_fields drops
    using assms payload_length_fits [OF assms(1)]
    by (simp add: frame_consts sendable_def header_fields leD)
qed

lemma payload_burst_rejected:
  assumes "sendable type (p @ bs @ q)" "length cs = length bs" "length bs \<le> 4" "cs \<noteq> bs"
  shows "decode_frame (frame_header_bytes type (p @ bs @ q) 0
      @ encode_u32_le (crc32c (frame_header_bytes type (p @ bs @ q) 0))
      @ (p @ cs @ q) @ encode_u32_le (crc32c (p @ bs @ q)))
    = (Inl CorruptData, p @ cs @ q)"
  by (rule payload_crc_rejected [OF assms(1)]) (use crc32c_burst assms(2-4) in \<open>simp, metis\<close>)

end
