(* ===== verification/Protocol.thy ===== *)
theory Protocol
  imports Codecs Framing
begin

text \<open>
  \<^verbatim>\<open>include/flow_scheduler/protocol.hpp\<close> and \<^verbatim>\<open>src/protocol.cpp\<close>: the tickets and evidence that
  travel between the coordinator and a worker, the eight messages that carry them, and their strict
  decoders.  A decoded \<^verbatim>\<open>ErrorCode\<close> may be any 16-bit value, because the decoders cast it without
  a check; the messages hold that value.
\<close>

section \<open>Shared fields\<close>

definition kMaxLabelBytes :: nat where "kMaxLabelBytes = 128"
definition kMaxDetailBytes :: nat where "kMaxDetailBytes = 512"

definition bounded_text :: "nat \<Rightarrow> bytes reader" where
  "bounded_text limit = rd_bind rd_text (\<lambda>value.
     if length value > limit then rd_fail Oversized else rd_return value)"

text \<open>\<^verbatim>\<open>bounded_enum\<close>: the byte numbers one of the listed cases.\<close>

definition wire_enum :: "'a list \<Rightarrow> 'a reader" where
  "wire_enum cases = rd_bind rd_u8 (\<lambda>v.
     if unat v \<ge> length cases then rd_fail ProtocolViolation else rd_return (cases ! unat v))"

definition wire_exhausted :: "'a reader \<Rightarrow> bytes \<Rightarrow> 'a result" where
  "wire_exhausted r payload =
     try_assign (r payload) (\<lambda>(x, rest). if rest \<noteq> [] then Inl ProtocolViolation else Inr x)"

section \<open>Tickets and evidence\<close>

definition write_ticket :: "dispatch_ticket \<Rightarrow> writing" where
  "write_ticket t = rw_block [
     rw_id (dt_attempt t), rw_id (dt_epoch t), rw_id (dt_schedule t),
     rw_id (dt_schedule_generation t), rw_id (dt_flow t), rw_id (dt_flow_generation t),
     rw_id (dt_path t), rw_id (dt_path_generation t), rw_id (dt_resource t),
     rw_id (dt_resource_generation t), rw_id (dt_reservation t),
     rw_id (dt_reservation_generation t), rw_id (dt_qos t), rw_id (dt_qos_generation t),
     rw_id (dt_priority t), rw_id (dt_priority_generation t), rw_id (dt_policy t),
     rw_id (dt_policy_generation t), rw_id (dt_worker t), rw_id (dt_boot t),
     rw_u64 (dt_start_tick t), rw_u64 (dt_deadline_tick t), rw_u64 (dt_reservation_end t),
     rw_u64 (dt_quantum t), rw_u8 (attempt_state_code (dt_state t)), rw_u64 (dt_digest t)]"

definition ticket_bound :: "dispatch_ticket \<Rightarrow> bool" where
  "ticket_bound t \<longleftrightarrow>
     id_valid (dt_attempt t) \<and> id_valid (dt_epoch t) \<and> id_valid (dt_schedule t)
     \<and> id_valid (dt_schedule_generation t) \<and> id_valid (dt_flow t) \<and> id_valid
     (dt_flow_generation t) \<and> id_valid (dt_path t) \<and> id_valid (dt_path_generation
     t) \<and> id_valid (dt_resource t) \<and> id_valid (dt_resource_generation t) \<and>
     id_valid (dt_policy t) \<and> id_valid (dt_policy_generation t) \<and> id_valid (dt_qos
     t) \<and> id_valid (dt_qos_generation t) \<and> id_valid (dt_priority t) \<and>
     id_valid (dt_priority_generation t)"

definition read_ticket :: "dispatch_ticket reader" where
  "read_ticket =
     rd_bind rd_id (\<lambda>x0. rd_bind rd_id (\<lambda>x1. rd_bind rd_id (\<lambda>x2.
     rd_bind rd_id (\<lambda>x3. rd_bind rd_id (\<lambda>x4. rd_bind rd_id (\<lambda>x5.
     rd_bind rd_id (\<lambda>x6. rd_bind rd_id (\<lambda>x7. rd_bind rd_id (\<lambda>x8.
     rd_bind rd_id (\<lambda>x9. rd_bind rd_id (\<lambda>x10. rd_bind rd_id (\<lambda>x11.
     rd_bind rd_id (\<lambda>x12. rd_bind rd_id (\<lambda>x13. rd_bind rd_id (\<lambda>x14.
     rd_bind rd_id (\<lambda>x15. rd_bind rd_id (\<lambda>x16. rd_bind rd_id (\<lambda>x17.
     rd_bind rd_id (\<lambda>x18. rd_bind rd_id (\<lambda>x19. rd_bind rd_u64 (\<lambda>x20.
     rd_bind rd_u64 (\<lambda>x21. rd_bind rd_u64 (\<lambda>x22. rd_bind rd_u64 (\<lambda>x23.
     rd_bind (wire_enum attempt_states) (\<lambda>x24. rd_bind rd_u64 (\<lambda>x25.
     let t = \<lparr>
      dt_attempt = x0, dt_epoch = x1, dt_schedule = x2, dt_schedule_generation = x3, dt_flow = x4,
      dt_flow_generation = x5, dt_path = x6, dt_path_generation = x7, dt_resource = x8,
      dt_resource_generation = x9, dt_reservation = x10, dt_reservation_generation = x11,
      dt_qos = x12, dt_qos_generation = x13, dt_priority = x14, dt_priority_generation = x15,
      dt_policy = x16, dt_policy_generation = x17, dt_worker = x18, dt_boot = x19,
      dt_start_tick = x20, dt_deadline_tick = x21, dt_reservation_end = x22, dt_quantum = x23,
      dt_state = x24, dt_digest = x25\<rparr>
     in if \<not> ticket_bound t then rd_fail ProtocolViolation
        else if dt_quantum t = 0 then rd_fail ProtocolViolation
        else if dt_quantum t > kMaxQuantum then rd_fail ProtocolViolation
        else rd_return t))))))))))))))))))))))))))"

definition write_evidence :: "completion_evidence \<Rightarrow> writing" where
  "write_evidence e = rw_block [
     rw_id (ce_schedule e), rw_id (ce_schedule_generation e), rw_id (ce_attempt e),
     rw_id (ce_epoch e), rw_id (ce_flow e), rw_id (ce_flow_generation e), rw_id (ce_worker e),
     rw_id (ce_boot e), rw_u8 (outcome_code (ce_outcome e)), rw_u64 (ce_served e),
     rw_u32 (ce_effect_code e), rw_u64 (ce_effect_digest e), rw_u64 (ce_observed_tick e),
     rw_u8 (origin_code (pv_origin (ce_provenance e))), rw_u64 (pv_sequence (ce_provenance e)),
     rw_u64 (pv_digest (ce_provenance e))]"

definition evidence_bound :: "completion_evidence \<Rightarrow> bool" where
  "evidence_bound e \<longleftrightarrow>
     id_valid (ce_attempt e) \<and> id_valid (ce_epoch e) \<and> id_valid (ce_schedule e)
     \<and> id_valid (ce_schedule_generation e) \<and> id_valid (ce_flow e) \<and> id_valid
     (ce_flow_generation e) \<and> id_valid (ce_worker e) \<and> id_valid (ce_boot e)"

definition read_evidence :: "completion_evidence reader" where
  "read_evidence =
     rd_bind rd_id (\<lambda>x0. rd_bind rd_id (\<lambda>x1. rd_bind rd_id (\<lambda>x2.
     rd_bind rd_id (\<lambda>x3. rd_bind rd_id (\<lambda>x4. rd_bind rd_id (\<lambda>x5.
     rd_bind rd_id (\<lambda>x6. rd_bind rd_id (\<lambda>x7. rd_bind (wire_enum outcomes) (\<lambda>x8.
     rd_bind rd_u64 (\<lambda>x9. rd_bind rd_u32 (\<lambda>x10. rd_bind rd_u64 (\<lambda>x11.
     rd_bind rd_u64 (\<lambda>x12. rd_bind (wire_enum origins) (\<lambda>x13. rd_bind rd_u64 (\<lambda>x14.
     rd_bind rd_u64 (\<lambda>x15.
     let e = \<lparr>
      ce_schedule = x0, ce_schedule_generation = x1, ce_attempt = x2, ce_epoch = x3, ce_flow = x4,
      ce_flow_generation = x5, ce_worker = x6, ce_boot = x7, ce_outcome = x8, ce_served = x9,
      ce_effect_code = x10, ce_effect_digest = x11, ce_observed_tick = x12,
      ce_provenance = \<lparr>pv_origin = x13, pv_sequence = x14, pv_digest = x15\<rparr>\<rparr>
     in if \<not> evidence_bound e then rd_fail ProtocolViolation
        else if ce_served e > kMaxServiceUnits then rd_fail ProtocolViolation
        else rd_return e))))))))))))))))"

section \<open>Messages\<close>

datatype message_type =
  MsgInvalid | MsgHello | MsgHelloAck | MsgDispatch | MsgDispatchRejected | MsgStarted
  | MsgCompletion | MsgShutdown | MsgError | MsgHeartbeat

fun message_text :: "message_type \<Rightarrow> string" where
  "message_text MsgInvalid = ''invalid''"
| "message_text MsgHello = ''hello''"
| "message_text MsgHelloAck = ''hello-ack''"
| "message_text MsgDispatch = ''dispatch''"
| "message_text MsgDispatchRejected = ''dispatch-rejected''"
| "message_text MsgStarted = ''started''"
| "message_text MsgCompletion = ''completion''"
| "message_text MsgShutdown = ''shutdown''"
| "message_text MsgError = ''error''"
| "message_text MsgHeartbeat = ''heartbeat''"

record hello_message =
  hm_worker :: worker_id
  hm_boot :: boot_id
  hm_label :: bytes
  hm_supported_protocol :: u64

record hello_ack_message =
  ha_accepted :: bool
  ha_reason :: u16
  ha_detail :: bytes
  ha_worker :: worker_id
  ha_boot :: boot_id
  ha_epoch :: fabric_epoch
  ha_policy :: policy_id
  ha_policy_generation :: generation
  ha_policy_digest :: u64
  ha_max_frame_payload :: u32
  ha_heartbeat_ticks :: ticks

record dispatch_message =
  dm_ticket :: dispatch_ticket
  dm_nominal_work :: u64

record dispatch_rejected_message =
  dr_attempt :: attempt_id
  dr_epoch :: fabric_epoch
  dr_code :: u16
  dr_detail :: bytes

record started_message =
  sm_attempt :: attempt_id
  sm_epoch :: fabric_epoch
  sm_at_tick :: ticks

record error_message =
  em_code :: u16
  em_detail :: bytes

definition encode_hello :: "hello_message \<Rightarrow> bytes" where
  "encode_hello m = take_record [
     rw_id (hm_worker m), rw_id (hm_boot m), rw_text (take kMaxLabelBytes (hm_label m)),
     rw_u64 (hm_supported_protocol m)]"

definition encode_hello_ack :: "hello_ack_message \<Rightarrow> bytes" where
  "encode_hello_ack m = take_record [
     rw_boolean (ha_accepted m), rw_u16 (ha_reason m), rw_text (take kMaxDetailBytes (ha_detail m)),
     rw_id (ha_worker m), rw_id (ha_boot m), rw_id (ha_epoch m), rw_id (ha_policy m),
     rw_id (ha_policy_generation m), rw_u64 (ha_policy_digest m), rw_u32 (ha_max_frame_payload m),
     rw_u64 (ha_heartbeat_ticks m)]"

definition encode_dispatch :: "dispatch_message \<Rightarrow> bytes" where
  "encode_dispatch m = take_record [write_ticket (dm_ticket m), rw_u64 (dm_nominal_work m)]"

definition encode_dispatch_rejected :: "dispatch_rejected_message \<Rightarrow> bytes" where
  "encode_dispatch_rejected m = take_record [
     rw_id (dr_attempt m), rw_id (dr_epoch m), rw_u16 (dr_code m),
     rw_text (take kMaxDetailBytes (dr_detail m))]"

definition encode_started :: "started_message \<Rightarrow> bytes" where
  "encode_started m = take_record [
     rw_id (sm_attempt m), rw_id (sm_epoch m), rw_u64 (sm_at_tick m)]"

definition encode_completion :: "completion_evidence \<Rightarrow> bytes" where
  "encode_completion evidence = take_record [write_evidence evidence]"

definition encode_shutdown :: "bytes \<Rightarrow> bytes" where
  "encode_shutdown reason = take_record [rw_text (take kMaxDetailBytes reason)]"

definition encode_error :: "error_message \<Rightarrow> bytes" where
  "encode_error m = take_record [rw_u16 (em_code m), rw_text (take kMaxDetailBytes (em_detail m))]"

definition decode_hello :: "bytes \<Rightarrow> hello_message result" where
  "decode_hello payload =
     try_assign (wire_exhausted (
       rd_bind rd_id (\<lambda>worker. rd_bind rd_id (\<lambda>boot. rd_bind (bounded_text kMaxLabelBytes) (\<lambda>label.
       rd_bind rd_u64 (\<lambda>supported. rd_return
         \<lparr>hm_worker = worker, hm_boot = boot, hm_label = label,
          hm_supported_protocol = supported\<rparr>))))) payload)
     (\<lambda>m. if \<not> id_valid (hm_worker m) then Inl HandshakeRejected
          else if hm_supported_protocol m \<noteq> ucast kProtocolVersion then Inl HandshakeRejected
          else Inr m)"

definition decode_hello_ack :: "bytes \<Rightarrow> hello_ack_message result" where
  "decode_hello_ack payload =
     try_assign (wire_exhausted (
       rd_bind rd_boolean (\<lambda>x0. rd_bind rd_u16 (\<lambda>x1. rd_bind (bounded_text kMaxDetailBytes) (\<lambda>x2.
       rd_bind rd_id (\<lambda>x3. rd_bind rd_id (\<lambda>x4. rd_bind rd_id (\<lambda>x5. rd_bind rd_id (\<lambda>x6.
       rd_bind rd_id (\<lambda>x7. rd_bind rd_u64 (\<lambda>x8. rd_bind rd_u32 (\<lambda>x9. rd_bind rd_u64 (\<lambda>x10.
       rd_return
         \<lparr>ha_accepted = x0, ha_reason = x1, ha_detail = x2, ha_worker = x3, ha_boot = x4,
          ha_epoch = x5, ha_policy = x6, ha_policy_generation = x7, ha_policy_digest = x8,
          ha_max_frame_payload = x9, ha_heartbeat_ticks = x10\<rparr>)))))))))))) payload)
     (\<lambda>m. if ha_accepted m
          then if \<not> id_valid (ha_worker m) \<or> \<not> id_valid (ha_boot m) \<or> \<not> id_valid (ha_epoch m)
            then Inl ProtocolViolation
            else if ha_max_frame_payload m = 0 \<or> ha_max_frame_payload m > kMaxFramePayload
            then Inl ProtocolViolation
            else Inr m
          else Inr m)"

definition decode_dispatch :: "bytes \<Rightarrow> dispatch_message result" where
  "decode_dispatch payload = wire_exhausted (
     rd_bind read_ticket (\<lambda>ticket. rd_bind rd_u64 (\<lambda>nominal. rd_return
       \<lparr>dm_ticket = ticket, dm_nominal_work = nominal\<rparr>))) payload"

definition decode_dispatch_rejected :: "bytes \<Rightarrow> dispatch_rejected_message result" where
  "decode_dispatch_rejected payload = wire_exhausted (
     rd_bind rd_id (\<lambda>attempt. rd_bind rd_id (\<lambda>epoch. rd_bind rd_u16 (\<lambda>code.
     rd_bind (bounded_text kMaxDetailBytes) (\<lambda>detail. rd_return
       \<lparr>dr_attempt = attempt, dr_epoch = epoch, dr_code = code, dr_detail = detail\<rparr>))))) payload"

definition decode_started :: "bytes \<Rightarrow> started_message result" where
  "decode_started payload =
     try_assign (wire_exhausted (
       rd_bind rd_id (\<lambda>attempt. rd_bind rd_id (\<lambda>epoch. rd_bind rd_u64 (\<lambda>at. rd_return
         \<lparr>sm_attempt = attempt, sm_epoch = epoch, sm_at_tick = at\<rparr>)))) payload)
     (\<lambda>m. if \<not> id_valid (sm_attempt m) then Inl ProtocolViolation else Inr m)"

definition decode_completion :: "bytes \<Rightarrow> completion_evidence result" where
  "decode_completion payload = wire_exhausted read_evidence payload"

definition decode_shutdown :: "bytes \<Rightarrow> bytes result" where
  "decode_shutdown payload = wire_exhausted (bounded_text kMaxDetailBytes) payload"

definition decode_error :: "bytes \<Rightarrow> error_message result" where
  "decode_error payload = wire_exhausted (
     rd_bind rd_u16 (\<lambda>code. rd_bind (bounded_text kMaxDetailBytes) (\<lambda>detail. rd_return
       \<lparr>em_code = code, em_detail = detail\<rparr>))) payload"

section \<open>The codecs of tickets and evidence\<close>

lemma wire_state [simp, codec_simps]:
  "wire_enum attempt_states (attempt_state_code x # rest) = Inr (x, rest)"
  by (cases x) (simp_all add: wire_enum_def attempt_states_def)

lemma wire_outcome [simp, codec_simps]: "wire_enum outcomes (outcome_code x # rest) = Inr (x, rest)"
  by (cases x) (simp_all add: wire_enum_def outcomes_def)

lemma wire_origin [simp, codec_simps]: "wire_enum origins (origin_code x # rest) = Inr (x, rest)"
  by (cases x) (simp_all add: wire_enum_def origins_def)

definition ticket_encodable :: "dispatch_ticket \<Rightarrow> bool" where
  "ticket_encodable t \<longleftrightarrow> ticket_bound t \<and> 0 < dt_quantum t \<and> dt_quantum t \<le> kMaxQuantum"

definition evidence_encodable :: "completion_evidence \<Rightarrow> bool" where
  "evidence_encodable e \<longleftrightarrow> evidence_bound e \<and> ce_served e \<le> kMaxServiceUnits"

lemma ticket_bytes:
  "\<exists>bs. writes (write_ticket t) bs \<and> length bs = 201 \<and>
     (ticket_encodable t \<longrightarrow> reads read_ticket bs t)"
  unfolding write_ticket_def
  by (rule exI, rule conjI, (rule writes_intros)+,
      simp add: reads_def read_ticket_def ticket_encodable_def ticket_bound_def Let_def leD)

lemma evidence_bytes:
  "\<exists>bs. writes (write_evidence e) bs \<and> length bs = 110 \<and>
     (evidence_encodable e \<longrightarrow> reads read_evidence bs e)"
  unfolding write_evidence_def
  by (rule exI, rule conjI, (rule writes_intros)+,
      simp add: reads_def read_evidence_def evidence_encodable_def evidence_bound_def Let_def leD)

interpretation ticket_codec: codec write_ticket read_ticket ticket_encodable
  using ticket_bytes by unfold_locales blast

interpretation evidence_codec: codec write_evidence read_evidence evidence_encodable
  using evidence_bytes by unfold_locales blast

section \<open>Every message survives the wire\<close>

lemma decode_take_record:
  assumes "writes (rw_block parts) bs" "length bs \<le> kDefaultLimit" "decode bs = r"
  shows "decode (take_record parts) = r"
  using writes_buffer(1) [OF assms(1) writes_fits [OF assms(1,2)]] assms(3)
  by (simp add: take_record_def)

lemma bounded_text_roundtrip [simp, codec_simps]:
  assumes "length v \<le> limit" "limit < 2 ^ 64"
  shows "bounded_text limit (encode_u64_le (of_nat (length v)) @ v @ rest) = Inr (v, rest)"
  using assms by (simp add: bounded_text_def)

lemma bounded_text_last [simp, codec_simps]:
  assumes "length v \<le> limit" "limit < 2 ^ 64"
  shows "bounded_text limit (encode_u64_le (of_nat (length v)) @ v) = Inr (v, [])"
  using bounded_text_roundtrip [OF assms, of "[]"] by simp

lemmas rd_last [simp, codec_simps] =
  rd_ints(4) [of _ "[]", simplified] rd_id_roundtrip [of _ "[]", simplified]

lemmas wire_defs = wire_exhausted_def try_assign_def kMaxLabelBytes_def kMaxDetailBytes_def
  kDefaultLimit_def

lemma hello_roundtrip:
  assumes "id_valid (hm_worker m)" "hm_supported_protocol m = ucast kProtocolVersion"
    "length (hm_label m) \<le> kMaxLabelBytes"
  shows "decode_hello (encode_hello m) = Inr m"
  unfolding encode_hello_def
  by (rule decode_take_record, (rule writes_intros)+)
    (use assms in \<open>simp_all add: decode_hello_def wire_defs\<close>)

lemma hello_ack_roundtrip:
  assumes "ha_accepted m \<Longrightarrow> id_valid (ha_worker m) \<and> id_valid (ha_boot m) \<and> id_valid (ha_epoch m)
      \<and> 0 < ha_max_frame_payload m \<and> ha_max_frame_payload m \<le> kMaxFramePayload"
    "length (ha_detail m) \<le> kMaxDetailBytes"
  shows "decode_hello_ack (encode_hello_ack m) = Inr m"
  unfolding encode_hello_ack_def
  by (rule decode_take_record, (rule writes_intros)+)
    (use assms in \<open>auto simp add: decode_hello_ack_def wire_defs\<close>)

lemma dispatch_rejected_roundtrip:
  assumes "length (dr_detail m) \<le> kMaxDetailBytes"
  shows "decode_dispatch_rejected (encode_dispatch_rejected m) = Inr m"
  unfolding encode_dispatch_rejected_def
  by (rule decode_take_record, (rule writes_intros)+)
    (use assms in \<open>simp_all add: decode_dispatch_rejected_def wire_defs\<close>)

lemma started_roundtrip:
  assumes "id_valid (sm_attempt m)"
  shows "decode_started (encode_started m) = Inr m"
  unfolding encode_started_def
  by (rule decode_take_record, (rule writes_intros)+)
    (use assms in \<open>simp_all add: decode_started_def wire_defs\<close>)

lemma shutdown_roundtrip:
  "decode_shutdown (encode_shutdown reason) = Inr (take kMaxDetailBytes reason)"
proof -
  define v where "v = take kMaxDetailBytes reason"
  then have v: "length v \<le> kMaxDetailBytes" by simp
  show ?thesis
    unfolding encode_shutdown_def v_def [symmetric]
    by (rule decode_take_record, (rule writes_intros)+)
      (use v in \<open>simp_all add: decode_shutdown_def wire_defs\<close>)
qed

lemma error_roundtrip:
  assumes "length (em_detail m) \<le> kMaxDetailBytes"
  shows "decode_error (encode_error m) = Inr m"
  unfolding encode_error_def
  by (rule decode_take_record, (rule writes_intros)+)
    (use assms in \<open>simp_all add: decode_error_def wire_defs\<close>)

lemma dispatch_roundtrip:
  assumes "ticket_encodable (dm_ticket m)"
  shows "decode_dispatch (encode_dispatch m) = Inr m"
proof -
  obtain bs where bs: "writes (write_ticket (dm_ticket m)) bs" "length bs = 201"
    "reads read_ticket bs (dm_ticket m)"
    using ticket_bytes assms by blast
  show ?thesis
    unfolding encode_dispatch_def
    by (rule decode_take_record, (rule bs(1) writes_intros)+)
      (use bs(2,3) in \<open>simp_all add: decode_dispatch_def wire_defs reads_def\<close>)
qed

lemma completion_roundtrip:
  assumes "evidence_encodable e"
  shows "decode_completion (encode_completion e) = Inr e"
proof -
  obtain bs where bs: "writes (write_evidence e) bs" "length bs = 110" "reads read_evidence bs e"
    using evidence_bytes assms by blast
  have "read_evidence bs = Inr (e, [])" using bs(3) unfolding reads_def by (metis append_Nil2)
  with bs(2) show ?thesis
    unfolding encode_completion_def
    by - (rule decode_take_record, (rule bs(1) writes_intros)+,
        simp_all add: decode_completion_def wire_defs)
qed

end
