(* ===== verification/Dispatching.thy ===== *)
theory Dispatching
  imports Arbitration Protocol
begin

text \<open>
  Dispatch and completion: the public methods of \<^verbatim>\<open>Scheduler::Impl\<close> (\<^verbatim>\<open>src/scheduler.cpp\<close>) that turn
  a schedule entry into a ticket, follow the attempt and commit or reject the evidence a worker
  reports for it.
\<close>

section \<open>Authority\<close>

definition check_reservation_open ::
  "reservation_id \<Rightarrow> generation \<Rightarrow> ticks \<Rightarrow> impl \<Rightarrow> status" where
  "check_reservation_open reservation generation now s =
     (if id_valid reservation
      then case om_find reservation (im_reservations s) of
        None \<Rightarrow> ReservationClosed
      | Some rv \<Rightarrow> guards [
          (rv_retired rv, ReservationClosed),
          (rsv_generation (rv_descriptor rv) \<noteq> generation, StaleReservationGeneration),
          (\<not> window_contains (rv_descriptor rv) now, ReservationClosed)]
      else if id_valid generation then InvalidArgument else Ok)"

text \<open>
  \<^verbatim>\<open>validate_ticket_fields\<close>; its arguments are the authority fields of a ticket, and the checks run
  in the order of the code.
\<close>

definition validate_ticket_fields :: "dispatch_ticket \<Rightarrow> ticks \<Rightarrow> impl \<Rightarrow> status" where
  "validate_ticket_fields t now s =
     (if \<not> id_valid (dt_epoch t) \<or> dt_epoch t \<noteq> im_epoch s then StaleEpoch
      else if dt_policy t \<noteq> pb_policy (im_policy_binding s)
        \<or> dt_policy_generation t \<noteq> pb_generation (im_policy_binding s) then StalePolicyGeneration
      else case om_find (dt_flow t) (im_flows s) of None \<Rightarrow> UnknownFlow
      | Some r \<Rightarrow>
        if fd_generation (fr_descriptor r) \<noteq> dt_flow_generation t then StaleFlowGeneration
        else if bd_id (fd_path (fr_descriptor r)) \<noteq> dt_path t
          \<or> bd_generation (fd_path (fr_descriptor r)) \<noteq> dt_path_generation t
        then StalePathGeneration
        else case om_find (dt_resource t) (im_resources s) of None \<Rightarrow> UnknownResource
        | Some rr \<Rightarrow>
          if res_generation (rr_descriptor rr) \<noteq> dt_resource_generation t
          then StaleResourceGeneration
          else case om_find (dt_priority t) (im_priority_classes s) of None \<Rightarrow> UnknownPolicy
          | Some priority \<Rightarrow>
            if prio_generation priority \<noteq> dt_priority_generation t then StalePriorityGeneration
            else case om_find (dt_qos t) (im_qos_classes s) of None \<Rightarrow> UnknownPolicy
            | Some qos \<Rightarrow>
              if qos_generation qos \<noteq> dt_qos_generation t then StaleQoSGeneration
              else
                let code = check_reservation_open (dt_reservation t) (dt_reservation_generation t)
                      now s
                in if code \<noteq> Ok then code
                   else if has_deadline (dt_deadline_tick t) \<and> now \<ge> dt_deadline_tick t
                   then DeadlinePassed
                   else if dt_reservation_end t \<noteq> kNoWindowBound \<and> now \<ge> dt_reservation_end t
                   then ReservationClosed
                   else Ok)"

definition ticket_digest :: "dispatch_ticket \<Rightarrow> u64" where
  "ticket_digest t = digest64 [
     add_u64 (id_value (dt_attempt t)), add_u64 (id_value (dt_epoch t)),
     add_u64 (id_value (dt_schedule t)), add_u64 (id_value (dt_schedule_generation t)),
     add_u64 (id_value (dt_flow t)), add_u64 (id_value (dt_flow_generation t)),
     add_u64 (id_value (dt_path t)), add_u64 (id_value (dt_path_generation t)),
     add_u64 (id_value (dt_resource t)), add_u64 (id_value (dt_resource_generation t)),
     add_u64 (id_value (dt_reservation t)), add_u64 (id_value (dt_reservation_generation t)),
     add_u64 (id_value (dt_qos t)), add_u64 (id_value (dt_qos_generation t)),
     add_u64 (id_value (dt_priority t)), add_u64 (id_value (dt_priority_generation t)),
     add_u64 (id_value (dt_policy t)), add_u64 (id_value (dt_policy_generation t)),
     add_u64 (id_value (dt_worker t)), add_u64 (id_value (dt_boot t)), add_u64 (dt_start_tick t),
     add_u64 (dt_deadline_tick t), add_u64 (dt_reservation_end t), add_u64 (dt_quantum t)]"

section \<open>Opening an attempt\<close>

definition make_ticket ::
  "impl \<Rightarrow> schedule_id \<Rightarrow> generation \<Rightarrow> schedule_entry \<Rightarrow> worker_id \<Rightarrow> boot_id \<Rightarrow> ticks \<Rightarrow> dispatch_ticket" where
  "make_ticket s schedule generation e worker boot now =
     (let t = \<lparr>dt_attempt = im_next_attempt s, dt_epoch = im_epoch s, dt_schedule = schedule,
            dt_schedule_generation = generation, dt_flow = se_flow e,
            dt_flow_generation = se_flow_generation e, dt_path = se_path e,
            dt_path_generation = se_path_generation e, dt_resource = se_resource e,
            dt_resource_generation = se_resource_generation e, dt_reservation = se_reservation e,
            dt_reservation_generation = se_reservation_generation e, dt_qos = se_qos e,
            dt_qos_generation = se_qos_generation e, dt_priority = se_priority e,
            dt_priority_generation = se_priority_generation e, dt_policy = sp_policy (im_policy s),
            dt_policy_generation = sp_generation (im_policy s), dt_worker = worker, dt_boot = boot,
            dt_start_tick = now, dt_deadline_tick = se_deadline_tick e,
            dt_reservation_end = se_reservation_end e, dt_quantum = se_quantum e,
            dt_state = AttemptOpen, dt_digest = 0\<rparr>
      in t\<lparr>dt_digest := ticket_digest t\<rparr>)"

text \<open>Delivering the entry: the entry is consumed and the next attempt identity is drawn.\<close>

definition consume_entry :: "schedule_id \<Rightarrow> nat \<Rightarrow> impl \<Rightarrow> impl" where
  "consume_entry schedule ordinal = modify_schedule schedule
     (\<lambda>sr. sr\<lparr>sr_consumed := (sr_consumed sr)[ordinal := 1],
              sr_pending_entries := decrement (sr_pending_entries sr)\<rparr>)"

definition open_attempt ::
  "dispatch_ticket \<Rightarrow> nat \<Rightarrow> u64 \<Rightarrow> ticks \<Rightarrow> impl \<Rightarrow> dispatch_ticket result \<times> impl" where
  "open_attempt t ordinal remaining now s =
     (case journal RecAttemptOpened (take_record [write_ticket t, rw_u64 remaining, rw_u64 now]) s of
        (code, s') \<Rightarrow>
          if code \<noteq> Ok then (Inl code, s')
          else
            let s'' = consume_entry (dt_schedule t) ordinal (apply_attempt_opened t (dt_quantum t) now s')
            in case advance (im_next_attempt s'') of
                 Inl e \<Rightarrow> (Inl e, s'')
               | Inr nxt \<Rightarrow> (Inr t, s''\<lparr>im_next_attempt := nxt\<rparr>))"

text \<open>Everything \<^verbatim>\<open>begin_dispatch\<close> checks of the entry before it looks at the authority tuple.\<close>

definition entry_checks ::
  "schedule_id \<Rightarrow> generation \<Rightarrow> nat \<Rightarrow> schedule_runtime \<Rightarrow> impl \<Rightarrow> status" where
  "entry_checks schedule generation ordinal sr s =
     (if sc_generation (sr_schedule sr) \<noteq> generation then StaleScheduleGeneration
      else if sc_epoch (sr_schedule sr) \<noteq> im_epoch s then StaleEpoch
      else if ordinal \<ge> length (sc_entries (sr_schedule sr)) then OutOfRange
      else
        let e = sc_entries (sr_schedule sr) ! ordinal in
        if se_kind e \<noteq> KindRun then InvalidArgument
        else if sr_consumed sr ! ordinal \<noteq> 0 then InvalidState
        else case om_find (se_flow e) (im_flows s) of
          None \<Rightarrow> UnknownFlow
        | Some r \<Rightarrow>
            if fr_lifecycle r \<noteq> FlowScheduled \<or> fr_scheduled_schedule r \<noteq> schedule then InvalidState
            else if fd_generation (fr_descriptor r) \<noteq> se_flow_generation e then StaleFlowGeneration
            else Ok)"

definition begin_dispatch ::
  "schedule_id \<Rightarrow> generation \<Rightarrow> u32 \<Rightarrow> worker_id \<Rightarrow> boot_id \<Rightarrow> ticks \<Rightarrow> impl \<Rightarrow>
     dispatch_ticket result \<times> impl" where
  "begin_dispatch schedule generation ordinal worker boot now s0 =
     (let s = observe_tick now s0 in
      if \<not> id_valid worker \<or> \<not> id_valid boot then (Inl InvalidArgument, s)
      else case find_schedule s schedule of
        None \<Rightarrow> (Inl UnknownSchedule, s)
      | Some sr \<Rightarrow>
          let code = entry_checks schedule generation (unat ordinal) sr s in
          if code \<noteq> Ok then (Inl code, s)
          else
            let e = sc_entries (sr_schedule sr) ! unat ordinal;
                t = make_ticket s schedule generation e worker boot now;
                authority = validate_ticket_fields t now s
            in if authority \<noteq> Ok then (Inl authority, s)
               else case om_find (se_flow e) (im_flows s) of
                 None \<Rightarrow> (Inl UnknownFlow, s)
               | Some r \<Rightarrow> open_attempt t (unat ordinal) (remaining_work r) now s)"

section \<open>Following an attempt\<close>

definition revalidate :: "dispatch_ticket \<Rightarrow> ticks \<Rightarrow> impl \<Rightarrow> status" where
  "revalidate t now s =
     (if dt_digest t = 0 then InvalidArgument
      else if ticket_digest t \<noteq> dt_digest t then ContradictoryCompletion
      else if \<not> is_attempt_terminal (dt_state t) \<and> dt_state t \<noteq> AttemptOpen
        \<and> dt_state t \<noteq> AttemptStarted then InvalidState
      else validate_ticket_fields t now s)"

definition mark_started :: "dispatch_ticket \<Rightarrow> ticks \<Rightarrow> impl action" where
  "mark_started t now s0 =
     (let s = observe_tick now s0 in
      case om_find (dt_attempt t) (im_attempts s) of
        None \<Rightarrow> (UnknownAttempt, s)
      | Some rec \<Rightarrow>
          if is_attempt_terminal (ar_state rec) then (CompletionForClosedAttempt, s)
          else if revalidate t now s \<noteq> Ok then (revalidate t now s, s)
          else if ar_state rec = AttemptStarted then (Ok, s)
          else and_then (journal RecAttemptStarted (take_record [rw_id (dt_attempt t), rw_u64 now]))
                 (succeed (apply_attempt_started (dt_attempt t) now)) s)"

definition abandon_attempt :: "attempt_id \<Rightarrow> bytes \<Rightarrow> ticks \<Rightarrow> impl action" where
  "abandon_attempt attempt reason now s0 =
     (let s = observe_tick now s0 in
      case om_find attempt (im_attempts s) of
        None \<Rightarrow> (UnknownAttempt, s)
      | Some rec \<Rightarrow>
          if is_attempt_terminal (ar_state rec) then (Ok, s)
          else and_then (close_attempt attempt AttemptAbandoned reason now)
                 (succeed (normalize_transient_states now)) s)"

definition preempt_attempt :: "attempt_id \<Rightarrow> bytes \<Rightarrow> ticks \<Rightarrow> impl action" where
  "preempt_attempt attempt reason now s0 =
     (let s = observe_tick now s0 in
      case om_find attempt (im_attempts s) of
        None \<Rightarrow> (UnknownAttempt, s)
      | Some rec \<Rightarrow>
          if is_attempt_terminal (ar_state rec) then (CompletionForClosedAttempt, s)
          else and_then (close_attempt attempt AttemptPreempted reason now)
                 (succeed (\<lambda>s. normalize_transient_states now
                    (s\<lparr>im_preemptions_issued := im_preemptions_issued s + 1\<rparr>))) s)"

section \<open>Completion\<close>

definition rejected_outcome :: "error_code \<Rightarrow> bytes \<Rightarrow> commit_outcome" where
  "rejected_outcome code detail = \<lparr>co_disposition = CommitRejected, co_code = code,
     co_lifecycle_after = FlowWaiting, co_credited = 0, co_flow_completed = False,
     co_outstanding_reserved_released = 0, co_detail = detail\<rparr>"

text \<open>A rejection is counted; once the flow is known, it is counted on the flow as well.\<close>

definition reject :: "error_code \<Rightarrow> bytes \<Rightarrow> impl \<Rightarrow> commit_outcome result \<times> impl" where
  "reject code detail s =
     (Inr (rejected_outcome code detail), s\<lparr>im_completions_rejected := im_completions_rejected s + 1\<rparr>)"

definition reject_flow :: "flow_id \<Rightarrow> error_code \<Rightarrow> bytes \<Rightarrow> impl \<Rightarrow> commit_outcome result \<times> impl" where
  "reject_flow flow code detail s = reject code detail (modify_flow flow
     (\<lambda>r. r\<lparr>fr_accounting := (fr_accounting r)\<lparr>fa_rejected_completions :=
        fa_rejected_completions (fr_accounting r) + 1\<rparr>\<rparr>) s)"

definition acknowledge_duplicate ::
  "flow_id \<Rightarrow> flow_runtime \<Rightarrow> attempt_runtime \<Rightarrow> impl \<Rightarrow> commit_outcome result \<times> impl" where
  "acknowledge_duplicate flow r rec s =
     (let s1 = modify_flow flow (\<lambda>r. r\<lparr>fr_accounting := (fr_accounting r)\<lparr>fa_duplicate_completions :=
            fa_duplicate_completions (fr_accounting r) + 1\<rparr>\<rparr>) s
      in (Inr \<lparr>co_disposition = CommitIdempotentDuplicate, co_code = DuplicateCompletion,
            co_lifecycle_after = fr_lifecycle r, co_credited = ar_credited rec,
            co_flow_completed = (fr_lifecycle r = FlowCompleted),
            co_outstanding_reserved_released = 0,
            co_detail = lit ''exact duplicate completion; no state changed''\<rparr>,
          s1\<lparr>im_completions_duplicate := im_completions_duplicate s1 + 1\<rparr>))"

definition closed_detail :: "attempt_runtime \<Rightarrow> bytes" where
  "closed_detail rec = lit ''attempt was closed as '' @ lit (attempt_state_text (ar_state rec))
     @ lit ''; completion cannot revive it''"

text \<open>Evidence for an attempt that is already closed.\<close>

definition complete_closed ::
  "completion_evidence \<Rightarrow> flow_runtime \<Rightarrow> attempt_runtime \<Rightarrow> impl \<Rightarrow> commit_outcome result \<times> impl" where
  "complete_closed ev r rec s =
     (if ar_has_evidence rec \<and> ar_evidence_digest rec = evidence_digest ev
      then if ar_state rec = AttemptCommitted then acknowledge_duplicate (ce_flow ev) r rec s
           else reject_flow (ce_flow ev) CompletionForClosedAttempt (closed_detail rec) s
      else if ar_has_evidence rec
      then reject_flow (ce_flow ev) ContradictoryCompletion
             (lit ''a different completion was already committed for this attempt'') s
      else reject_flow (ce_flow ev) CompletionForClosedAttempt (closed_detail rec) s)"

definition credited_units :: "completion_evidence \<Rightarrow> u64" where
  "credited_units ev = (if ce_outcome ev = OutcomeServed then ce_served ev else 0)"

definition lifecycle_after :: "completion_evidence \<Rightarrow> flow_runtime \<Rightarrow> flow_lifecycle" where
  "lifecycle_after ev r =
     (if ce_outcome ev = OutcomeFailed then FlowFailed
      else if saturating_add (fr_served_work r) (credited_units ev) \<ge> fd_estimated_work (fr_descriptor r)
      then FlowCompleted
      else FlowWaiting)"

text \<open>A flow with work left is ready again at once when nothing blocks it.\<close>

definition rederive_readiness :: "flow_id \<Rightarrow> u64 \<Rightarrow> ticks \<Rightarrow> impl \<Rightarrow> impl" where
  "rederive_readiness flow credited now s = (case om_find flow (im_flows s) of
     None \<Rightarrow> s
   | Some r \<Rightarrow>
       if fst (derived_readiness s r now)
       then modify_flow flow (record_step now FlowReady ReasonSelected unbound unbound
              (lit ''eligible again after '' @ dec credited @ lit '' units of service''))
              (set_lifecycle flow FlowReady now s)
       else set_lifecycle flow FlowWaiting now s)"

definition commit_completion ::
  "completion_evidence \<Rightarrow> flow_runtime \<Rightarrow> ticks \<Rightarrow> impl \<Rightarrow> commit_outcome result \<times> impl" where
  "commit_completion ev r now s =
     (let credited = credited_units ev; after = lifecycle_after ev r in
      case journal RecCompletionCommitted (take_record [write_evidence ev, rw_u64 credited,
             rw_u8 (lifecycle_code after), rw_u64 now]) s of
        (code, s1) \<Rightarrow>
          if code \<noteq> Ok then (Inl code, s1)
          else
            let s2 = apply_completion ev credited after now s1;
                s3 = (if after = FlowWaiting then rederive_readiness (ce_flow ev) credited now s2 else s2);
                s4 = normalize_transient_states now s3;
                final = (case om_find (ce_flow ev) (im_flows s4) of
                           None \<Rightarrow> FlowWaiting | Some r \<Rightarrow> fr_lifecycle r)
            in (Inr \<lparr>co_disposition = CommitApplied, co_code = Ok, co_lifecycle_after = final,
                  co_credited = credited, co_flow_completed = (final = FlowCompleted),
                  co_outstanding_reserved_released = 0,
                  co_detail = lit ''completion committed''\<rparr>, s4))"

text \<open>The checks against the attempt the evidence names, in the order of the code.\<close>

definition complete_attempt ::
  "completion_evidence \<Rightarrow> flow_runtime \<Rightarrow> attempt_runtime \<Rightarrow> ticks \<Rightarrow> impl \<Rightarrow>
     commit_outcome result \<times> impl" where
  "complete_attempt ev r rec now s =
     (let t = ar_ticket rec; flow = ce_flow ev in
      if dt_flow t \<noteq> flow \<or> dt_schedule t \<noteq> ce_schedule ev
      then reject_flow flow ContradictoryCompletion
             (lit ''completion evidence contradicts the attempt it names'') s
      else if dt_schedule_generation t \<noteq> ce_schedule_generation ev
      then reject_flow flow StaleScheduleGeneration
             (lit ''completion evidence names a retired schedule generation'') s
      else if dt_worker t \<noteq> ce_worker ev \<or> dt_boot t \<noteq> ce_boot ev
      then reject_flow flow Fenced (lit ''completion evidence comes from a worker incarnation that ''
             @ lit ''does not own the attempt'') s
      else if is_attempt_terminal (ar_state rec) then complete_closed ev r rec s
      else if fr_open_attempt r \<noteq> ce_attempt ev
      then reject_flow flow StaleAttempt
             (lit ''the flow no longer holds the attempt named by the evidence'') s
      else if ce_served ev > dt_quantum t
      then reject_flow flow ContradictoryCompletion
             (lit ''reported service exceeds the authorized quantum'') s
      else if has_deadline (dt_deadline_tick t) \<and> now \<ge> dt_deadline_tick t
        \<and> ce_outcome ev = OutcomeServed
      then reject_flow flow DeadlinePassed
             (lit ''completion was observed after the authorized deadline'') s
      else commit_completion ev r now s)"

definition complete :: "completion_evidence \<Rightarrow> ticks \<Rightarrow> impl \<Rightarrow> commit_outcome result \<times> impl" where
  "complete ev now s0 =
     (let s1 = observe_tick now s0; s = s1\<lparr>im_completion_reports := im_completion_reports s1 + 1\<rparr> in
      if \<not> established (ce_provenance ev)
      then reject InvalidArgument (lit ''completion evidence has no established provenance'') s
      else if \<not> evidence_bound ev
      then reject InvalidArgument (lit ''completion evidence is missing an authority field'') s
      else if ce_served ev > kMaxServiceUnits
      then reject OutOfRange (lit ''completion evidence served exceeds the bound'') s
      else if ce_epoch ev \<noteq> im_epoch s
      then reject StaleEpoch
             (lit ''completion evidence was produced under a retired coordinator epoch'') s
      else case om_find (ce_flow ev) (im_flows s) of
        None \<Rightarrow> reject UnknownFlow (lit ''completion evidence names an unregistered flow'') s
      | Some r \<Rightarrow>
          if fd_generation (fr_descriptor r) \<noteq> ce_flow_generation ev
          then reject_flow (ce_flow ev) StaleFlowGeneration
                 (lit ''completion evidence names a retired flow generation'') s
          else case om_find (ce_attempt ev) (im_attempts s) of
            None \<Rightarrow> reject_flow (ce_flow ev) UnknownAttempt
                      (lit ''completion evidence names a retired attempt'') s
          | Some rec \<Rightarrow> complete_attempt ev r rec now s)"

end
