(* ===== verification/Accounting.thy ===== *)
theory Accounting
  imports Dispatching
begin

text \<open>
  The read side of the scheduler: \<^verbatim>\<open>include/flow_scheduler/accounting.hpp\<close>, \<^verbatim>\<open>src/accounting.cpp\<close>
  and the observers of \<^verbatim>\<open>Scheduler::Impl\<close> in \<^verbatim>\<open>src/scheduler.cpp\<close>.  None of them changes the state.
\<close>

section \<open>\<^verbatim>\<open>AccountingReport\<close>\<close>

record accounting_report =
  acc_total_flows :: u64
  acc_waiting :: u64
  acc_ready :: u64
  acc_scheduled :: u64
  acc_dispatched :: u64
  acc_running :: u64
  acc_completion_reported :: u64
  acc_cancelling :: u64
  acc_preempting :: u64
  acc_completed :: u64
  acc_cancelled :: u64
  acc_failed :: u64
  acc_ambiguous :: u64
  acc_attempts_total :: u64
  acc_attempts_open :: u64
  acc_attempts_started :: u64
  acc_attempts_committed :: u64
  acc_attempts_preempted :: u64
  acc_attempts_cancelled :: u64
  acc_attempts_abandoned :: u64
  acc_attempts_rejected :: u64
  acc_completion_reports_received :: u64
  acc_completions_applied :: u64
  acc_completions_duplicate :: u64
  acc_completions_rejected :: u64
  acc_schedules_issued :: u64
  acc_schedule_entries_issued :: u64
  acc_preemptions_issued :: u64
  acc_arbitration_rounds :: u64
  acc_starvation_boosts :: u64
  acc_deadline_misses :: u64
  acc_reservations_retired :: u64
  acc_outstanding_reserved_units :: u64
  acc_service_credit_total :: u64
  acc_estimated_work_total :: u64
  acc_epoch :: u64
  acc_recovered_flows :: u64
  acc_recovered_ambiguous_attempts :: u64

definition empty_report :: accounting_report where
  "empty_report = \<lparr>
     acc_total_flows = 0, acc_waiting = 0, acc_ready = 0, acc_scheduled = 0, acc_dispatched = 0,
     acc_running = 0, acc_completion_reported = 0, acc_cancelling = 0, acc_preempting = 0,
     acc_completed = 0, acc_cancelled = 0, acc_failed = 0, acc_ambiguous = 0,
     acc_attempts_total = 0, acc_attempts_open = 0, acc_attempts_started = 0,
     acc_attempts_committed = 0, acc_attempts_preempted = 0, acc_attempts_cancelled = 0,
     acc_attempts_abandoned = 0, acc_attempts_rejected = 0, acc_completion_reports_received = 0,
     acc_completions_applied = 0, acc_completions_duplicate = 0, acc_completions_rejected = 0,
     acc_schedules_issued = 0, acc_schedule_entries_issued = 0, acc_preemptions_issued = 0,
     acc_arbitration_rounds = 0, acc_starvation_boosts = 0, acc_deadline_misses = 0,
     acc_reservations_retired = 0, acc_outstanding_reserved_units = 0,
     acc_service_credit_total = 0, acc_estimated_work_total = 0, acc_epoch = 0,
     acc_recovered_flows = 0, acc_recovered_ambiguous_attempts = 0\<rparr>"

definition lifecycle_total :: "accounting_report \<Rightarrow> u64" where
  "lifecycle_total a =
     acc_waiting a + acc_ready a + acc_scheduled a + acc_dispatched a + acc_running a +
     acc_completion_reported a + acc_cancelling a + acc_preempting a + acc_completed a +
     acc_cancelled a + acc_failed a + acc_ambiguous a"

definition attempt_total :: "accounting_report \<Rightarrow> u64" where
  "attempt_total a =
     acc_attempts_open a + acc_attempts_started a + acc_attempts_committed a +
     acc_attempts_preempted a + acc_attempts_cancelled a + acc_attempts_abandoned a +
     acc_attempts_rejected a"

definition validate_report :: "accounting_report \<Rightarrow> status" where
  "validate_report a = guards [
     (lifecycle_total a \<noteq> acc_total_flows a, Internal),
     (acc_cancelling a \<noteq> 0 \<or> acc_preempting a \<noteq> 0, Internal),
     (attempt_total a \<noteq> acc_attempts_total a, Internal),
     (acc_completions_duplicate a + acc_completions_rejected a > acc_completion_reports_received a,
       Internal),
     (acc_outstanding_reserved_units a > 0
       \<and> acc_attempts_open a + acc_attempts_started a + acc_scheduled a = 0, Internal),
     (acc_schedules_issued a > 0 \<and> acc_schedule_entries_issued a < acc_schedules_issued a, Internal),
     (acc_deadline_misses a > acc_total_flows a + acc_cancelled a + acc_completed a + acc_failed a,
       Internal),
     (acc_epoch a = 0, Internal)]"

section \<open>The counting loops\<close>

fun count_lifecycle :: "flow_lifecycle \<Rightarrow> accounting_report \<Rightarrow> accounting_report" where
  "count_lifecycle FlowWaiting a = a\<lparr>acc_waiting := acc_waiting a + 1\<rparr>"
| "count_lifecycle FlowReady a = a\<lparr>acc_ready := acc_ready a + 1\<rparr>"
| "count_lifecycle FlowScheduled a = a\<lparr>acc_scheduled := acc_scheduled a + 1\<rparr>"
| "count_lifecycle FlowDispatched a = a\<lparr>acc_dispatched := acc_dispatched a + 1\<rparr>"
| "count_lifecycle FlowRunning a = a\<lparr>acc_running := acc_running a + 1\<rparr>"
| "count_lifecycle FlowCompletionReported a = a\<lparr>acc_completion_reported := acc_completion_reported a + 1\<rparr>"
| "count_lifecycle FlowCancelling a = a\<lparr>acc_cancelling := acc_cancelling a + 1\<rparr>"
| "count_lifecycle FlowPreempting a = a\<lparr>acc_preempting := acc_preempting a + 1\<rparr>"
| "count_lifecycle FlowCompleted a = a\<lparr>acc_completed := acc_completed a + 1\<rparr>"
| "count_lifecycle FlowCancelled a = a\<lparr>acc_cancelled := acc_cancelled a + 1\<rparr>"
| "count_lifecycle FlowFailed a = a\<lparr>acc_failed := acc_failed a + 1\<rparr>"
| "count_lifecycle FlowAmbiguous a = a\<lparr>acc_ambiguous := acc_ambiguous a + 1\<rparr>"

definition account_flow :: "flow_runtime \<Rightarrow> accounting_report \<Rightarrow> accounting_report" where
  "account_flow r a =
     (let b = count_lifecycle (fr_lifecycle r) (a\<lparr>acc_total_flows := acc_total_flows a + 1\<rparr>) in
      b\<lparr>acc_starvation_boosts :=
          saturating_add (acc_starvation_boosts b) (fa_starvation_boosts (fr_accounting r)),
        acc_outstanding_reserved_units :=
          saturating_add (acc_outstanding_reserved_units b) (fr_outstanding_reserved r),
        acc_service_credit_total :=
          saturating_add (acc_service_credit_total b) (fa_service_credit (fr_accounting r)),
        acc_estimated_work_total :=
          saturating_add (acc_estimated_work_total b) (fd_estimated_work (fr_descriptor r))\<rparr>)"

fun count_attempt :: "attempt_state \<Rightarrow> accounting_report \<Rightarrow> accounting_report" where
  "count_attempt AttemptOpen a = a\<lparr>acc_attempts_open := acc_attempts_open a + 1\<rparr>"
| "count_attempt AttemptStarted a = a\<lparr>acc_attempts_started := acc_attempts_started a + 1\<rparr>"
| "count_attempt AttemptCommitted a = a\<lparr>acc_attempts_committed := acc_attempts_committed a + 1\<rparr>"
| "count_attempt AttemptPreempted a = a\<lparr>acc_attempts_preempted := acc_attempts_preempted a + 1\<rparr>"
| "count_attempt AttemptCancelled a = a\<lparr>acc_attempts_cancelled := acc_attempts_cancelled a + 1\<rparr>"
| "count_attempt AttemptAbandoned a = a\<lparr>acc_attempts_abandoned := acc_attempts_abandoned a + 1\<rparr>"
| "count_attempt AttemptRejected a = a\<lparr>acc_attempts_rejected := acc_attempts_rejected a + 1\<rparr>"

text \<open>\<^verbatim>\<open>account_unlocked\<close>, writing into the report; its sum of open quanta is read by no caller.\<close>

definition account_attempt :: "attempt_runtime \<Rightarrow> accounting_report \<Rightarrow> accounting_report" where
  "account_attempt rec a =
     count_attempt (ar_state rec) (a\<lparr>acc_attempts_total := acc_attempts_total a + 1\<rparr>)"

definition accounting :: "impl \<Rightarrow> accounting_report" where
  "accounting s =
     (let flows = fold account_flow (om_values (im_flows s)) empty_report;
          attempts = fold account_attempt (om_values (im_attempts s)) flows
      in attempts\<lparr>
           acc_completion_reports_received := im_completion_reports s,
           acc_completions_applied := im_completions_applied s,
           acc_completions_duplicate := im_completions_duplicate s,
           acc_completions_rejected := im_completions_rejected s,
           acc_schedules_issued := im_schedules_issued s,
           acc_schedule_entries_issued := im_schedule_entries_issued s,
           acc_preemptions_issued := im_preemptions_issued s,
           acc_arbitration_rounds := im_arbitration_rounds s,
           acc_deadline_misses := im_deadline_misses s,
           acc_reservations_retired := im_reservations_retired s,
           acc_epoch := id_value (im_epoch s),
           acc_recovered_flows := rp_flows_restored (im_recovery s),
           acc_recovered_ambiguous_attempts := rp_attempts_abandoned (im_recovery s)\<rparr>)"

definition report_text :: "accounting_report \<Rightarrow> bytes" where
  "report_text a = concat [
     lit ''flows='', dec (acc_total_flows a),
     lit '' waiting='', dec (acc_waiting a),
     lit '' ready='', dec (acc_ready a),
     lit '' scheduled='', dec (acc_scheduled a),
     lit '' in-flight='', dec (acc_dispatched a + acc_running a + acc_completion_reported a),
     lit '' completed='', dec (acc_completed a),
     lit '' cancelled='', dec (acc_cancelled a),
     lit '' failed='', dec (acc_failed a),
     lit '' ambiguous='', dec (acc_ambiguous a),
     lit '' attempts='', dec (acc_attempts_total a),
     lit '' open='', dec (acc_attempts_open a + acc_attempts_started a),
     lit '' committed='', dec (acc_attempts_committed a),
     lit '' preempted='', dec (acc_attempts_preempted a),
     lit '' cancelled-attempts='', dec (acc_attempts_cancelled a),
     lit '' abandoned='', dec (acc_attempts_abandoned a),
     lit '' rejected-attempts='', dec (acc_attempts_rejected a),
     lit '' reports='', dec (acc_completion_reports_received a),
     lit '' applied='', dec (acc_completions_applied a),
     lit '' duplicates='', dec (acc_completions_duplicate a),
     lit '' rejected-completions='', dec (acc_completions_rejected a),
     lit '' schedules='', dec (acc_schedules_issued a),
     lit '' entries='', dec (acc_schedule_entries_issued a),
     lit '' rounds='', dec (acc_arbitration_rounds a),
     lit '' preemptions='', dec (acc_preemptions_issued a),
     lit '' boosts='', dec (acc_starvation_boosts a),
     lit '' deadline-misses='', dec (acc_deadline_misses a),
     lit '' reserved='', dec (acc_outstanding_reserved_units a),
     lit '' credit='', dec (acc_service_credit_total a),
     lit '' epoch='', dec (acc_epoch a)]"

section \<open>Observers\<close>

definition flow_view :: "flow_id \<Rightarrow> impl \<Rightarrow> flow_snapshot result" where
  "flow_view i s = (case om_find i (im_flows s) of
     None \<Rightarrow> Inl UnknownFlow
   | Some r \<Rightarrow> Inr \<lparr>
       fsn_flow = fd_flow (fr_descriptor r), fsn_generation = fd_generation (fr_descriptor r),
       fsn_lifecycle = fr_lifecycle r, fsn_estimated_work = fd_estimated_work (fr_descriptor r),
       fsn_served_work = fr_served_work r, fsn_outstanding_reserved = fr_outstanding_reserved r,
       fsn_release_tick = fd_release_tick (fr_descriptor r),
       fsn_deadline_tick = fd_deadline_tick (fr_descriptor r),
       fsn_last_change_tick = fr_last_change_tick r,
       fsn_eligible_since_tick = fr_eligible_since_tick r, fsn_open_attempt = fr_open_attempt r,
       fsn_accounting = fr_accounting r, fsn_provenance = fd_provenance (fr_descriptor r)\<rparr>)"

definition explain_flow :: "flow_id \<Rightarrow> impl \<Rightarrow> flow_explanation result" where
  "explain_flow i s = (case om_find i (im_flows s) of
     None \<Rightarrow> Inl UnknownFlow
   | Some r \<Rightarrow> Inr \<lparr>fx_flow = fd_flow (fr_descriptor r),
       fx_generation = fd_generation (fr_descriptor r), fx_lifecycle = fr_lifecycle r,
       fx_last_reason = (if fr_history r = [] then ReasonSelected else es_reason (last (fr_history r))),
       fx_ordering_digest = digest_of_key (compute_key s r (im_last_tick s)),
       fx_tier = tier_of s r (im_last_tick s), fx_accounting = fr_accounting r,
       fx_history = fr_history r, fx_history_truncated = fr_history_truncated r\<rparr>)"

definition schedule_view :: "schedule_id \<Rightarrow> impl \<Rightarrow> schedule result" where
  "schedule_view i s = (case find_schedule s i of
     None \<Rightarrow> Inl UnknownSchedule | Some sr \<Rightarrow> Inr (sr_schedule sr))"

definition entry_line :: "schedule_entry \<Rightarrow> u8 \<Rightarrow> bytes" where
  "entry_line e consumed = concat [lit (kind_text (se_kind e)), lit '' '', id_text ''flow'' (se_flow e),
     lit '' quantum='', dec (se_quantum e), lit '' tier='', dec (se_tier e), lit '' consumed='',
     dec consumed, lit '' ('', lit (reason_text (se_reason e)), lit '')'']"

definition explain_schedule :: "schedule_id \<Rightarrow> impl \<Rightarrow> schedule_explanation result" where
  "explain_schedule i s = (case find_schedule s i of
     None \<Rightarrow> Inl UnknownSchedule
   | Some sr \<Rightarrow> let sched = sr_schedule sr in Inr \<lparr>sx_schedule = sc_schedule sched,
       sx_generation = sc_generation sched, sx_epoch = sc_epoch sched, sx_at_tick = sc_at_tick sched,
       sx_digest = sc_digest sched,
       sx_entries = map (\<lambda>index. entry_line (sc_entries sched ! index) (sr_consumed sr ! index))
         [0..<length (sc_entries sched)],
       sx_deferred = [], sx_truncated = False\<rparr>)"

definition attempt_view :: "attempt_id \<Rightarrow> impl \<Rightarrow> dispatch_ticket result" where
  "attempt_view i s = (case om_find i (im_attempts s) of
     None \<Rightarrow> Inl UnknownAttempt
   | Some rec \<Rightarrow> Inr ((ar_ticket rec)\<lparr>dt_state := ar_state rec\<rparr>))"

definition flow_count :: "impl \<Rightarrow> nat" where
  "flow_count s = length (im_flows s)"

definition attempt_count :: "impl \<Rightarrow> nat" where
  "attempt_count s = length (im_attempts s)"

end
