(* ===== verification/Authority.thy ===== *)
theory Authority
  imports Tables Accounting
begin

text \<open>
  The invariant on dispatch authority: a flow's open attempt is exactly the live attempt that names
  the flow, the counter of a schedule is the number of its live attempts, and identities are fresh.
  The four transitions that open, start and close attempts are shown to preserve it.
\<close>

section \<open>Definition\<close>

definition attempt_held :: "impl \<Rightarrow> flow_id \<Rightarrow> attempt_id \<Rightarrow> bool" where
  "attempt_held s k a \<longleftrightarrow>
     id_valid a \<and> (\<exists>r. om_find k (im_flows s) = Some r \<and> fr_open_attempt r = a)"

definition attempt_live :: "impl \<Rightarrow> attempt_id \<Rightarrow> attempt_runtime \<Rightarrow> bool" where
  "attempt_live s a rec \<longleftrightarrow> om_find a (im_attempts s) = Some rec \<and> \<not> is_attempt_terminal (ar_state rec)"

definition live_of :: "impl \<Rightarrow> schedule_id \<Rightarrow> attempt_id set" where
  "live_of s i = {a. \<exists>rec. attempt_live s a rec \<and> dt_schedule (ar_ticket rec) = i}"

definition holders_wf :: "impl \<Rightarrow> bool" where
  "holders_wf s \<longleftrightarrow> (\<forall>k a. attempt_held s k a \<longleftrightarrow>
     (\<exists>rec. attempt_live s a rec \<and> dt_flow (ar_ticket rec) = k))"

definition counters_wf :: "impl \<Rightarrow> bool" where
  "counters_wf s \<longleftrightarrow> (\<forall>i sr. om_find i (im_schedules s) = Some sr \<longrightarrow>
     unat (sr_open_attempts sr) = card (live_of s i))"

definition identities_wf :: "impl \<Rightarrow> bool" where
  "identities_wf s \<longleftrightarrow> om_wf (im_attempts s) \<and> id_valid (im_next_attempt s)
     \<and> (\<forall>a rec. om_find a (im_attempts s) = Some rec \<longrightarrow> id_valid a \<and> a < im_next_attempt s
          \<and> dt_attempt (ar_ticket rec) = a \<and> dt_schedule (ar_ticket rec) < im_next_schedule s)
     \<and> (\<forall>i. om_find i (im_schedules s) \<noteq> None \<longrightarrow> i < im_next_schedule s)
     \<and> (\<forall>i as a. om_find i (im_schedule_attempts s) = Some as \<longrightarrow> a \<in> set as \<longrightarrow>
          a < im_next_attempt s
          \<and> (\<forall>rec. om_find a (im_attempts s) = Some rec \<longrightarrow> dt_schedule (ar_ticket rec) = i))"

definition authority_wf :: "impl \<Rightarrow> bool" where
  "authority_wf s \<longleftrightarrow> holders_wf s \<and> counters_wf s \<and> identities_wf s"

lemmas authority_defs = authority_wf_def holders_wf_def counters_wf_def identities_wf_def

section \<open>What the invariant depends on\<close>

text \<open>The open attempt of each flow, the counter of each schedule, and who holds which attempt.\<close>

definition open_of :: "impl \<Rightarrow> flow_id \<Rightarrow> attempt_id option" where
  "open_of s k = map_option fr_open_attempt (om_find k (im_flows s))"

definition counter_of :: "impl \<Rightarrow> schedule_id \<Rightarrow> u64 option" where
  "counter_of s i = map_option sr_open_attempts (om_find i (im_schedules s))"

definition same_authority :: "impl \<Rightarrow> impl \<Rightarrow> bool" where
  "same_authority s t \<longleftrightarrow> attempt_held t = attempt_held s \<and> counter_of t = counter_of s
     \<and> im_attempts t = im_attempts s \<and> im_schedule_attempts t = im_schedule_attempts s
     \<and> im_next_attempt t = im_next_attempt s \<and> im_next_schedule t = im_next_schedule s"

lemma attempt_held_open: "attempt_held s k a \<longleftrightarrow> id_valid a \<and> open_of s k = Some a"
  by (auto simp: attempt_held_def open_of_def)

lemma counters_wf_alt:
  "counters_wf s \<longleftrightarrow> (\<forall>i n. counter_of s i = Some n \<longrightarrow> unat n = card (live_of s i))"
  by (auto simp: counters_wf_def counter_of_def)

lemma schedule_known_counter: "om_find i (im_schedules s) \<noteq> None \<longleftrightarrow> counter_of s i \<noteq> None"
  by (simp add: counter_of_def)

lemma authority_wf_cong:
  assumes "same_authority s t"
  shows "authority_wf t = authority_wf s"
proof -
  have "attempt_live t = attempt_live s" "live_of t = live_of s"
    using assms by (auto simp: same_authority_def attempt_live_def live_of_def fun_eq_iff)
  then show ?thesis
    using assms unfolding authority_wf_def holders_wf_def counters_wf_alt identities_wf_def
      schedule_known_counter by (simp add: same_authority_def)
qed

lemma same_authority_refl [simp]: "same_authority s s"
  by (simp add: same_authority_def)

lemma same_authority_trans: "same_authority s t \<Longrightarrow> same_authority t u \<Longrightarrow> same_authority s u"
  by (simp add: same_authority_def)

lemma same_authorityI:
  assumes "open_of t = open_of s" "counter_of t = counter_of s" "im_attempts t = im_attempts s"
    "im_schedule_attempts t = im_schedule_attempts s" "im_next_attempt t = im_next_attempt s"
    "im_next_schedule t = im_next_schedule s"
  shows "same_authority s t"
  using assms by (simp add: same_authority_def attempt_held_open fun_eq_iff)

lemma same_authority_primitives [simp]:
  "same_authority s (release_slot resource s)" "same_authority s (modify_resource resource g s)"
  "same_authority s (set_lifecycle flow l now s)" "same_authority s (snd (journal type payload s))"
  by (rule same_authorityI; auto simp: open_of_def counter_of_def fun_eq_iff option.map_comp o_def
      journal_def split: option.split prod.split)+

lemma same_authority_modify_flow:
  assumes "\<And>r. fr_open_attempt (f r) = fr_open_attempt r"
  shows "same_authority s (modify_flow flow f s)"
  using assms by (intro same_authorityI)
    (auto simp: open_of_def counter_of_def fun_eq_iff option.map_comp o_def)

lemma same_authority_modify_schedule:
  assumes "\<And>sr. sr_open_attempts (f sr) = sr_open_attempts sr"
  shows "same_authority s (modify_schedule schedule f s)"
  using assms by (intro same_authorityI)
    (auto simp: open_of_def counter_of_def fun_eq_iff option.map_comp o_def)

lemmas authority_wf_primitives [simp] = same_authority_primitives [THEN authority_wf_cong]
lemmas authority_wf_modify_flow = same_authority_modify_flow [THEN authority_wf_cong]
lemmas authority_wf_modify_schedule = same_authority_modify_schedule [THEN authority_wf_cong]

section \<open>Counting live attempts\<close>

lemma id_valid_nat: "id_valid i \<longleftrightarrow> 0 < unat (id_value i)"
  by (simp add: id_valid_def unat_gt_0)

lemma ident_less_nat: "a < b \<longleftrightarrow> unat (id_value a) < unat (id_value b)"
  by (simp add: less_ident_def word_less_nat_alt)

lemma decrement_nat: "unat (decrement n) = unat n - 1"
proof (cases "n = 0")
  case False
  then have "1 \<le> n" by (simp add: word_one_le_iff)
  with False show ?thesis by (simp add: decrement_def word_pos_iff unat_sub_le)
qed (simp add: decrement_def)

lemma live_of_bound:
  assumes "identities_wf s"
  shows "finite (live_of s i)" "card (live_of s i) < unat (id_value (im_next_attempt s))"
proof -
  let ?n = "unat (id_value (im_next_attempt s))"
  let ?v = "\<lambda>a. unat (id_value (a :: attempt_id))"
  have "?v a \<in> {1..<?n}" if "a \<in> live_of s i" for a
  proof -
    have "id_valid a" "a < im_next_attempt s"
      using that assms by (auto simp: identities_wf_def live_of_def attempt_live_def)
    then show ?thesis using id_valid_nat [of a] ident_less_nat [of a] by auto
  qed
  then have sub: "?v ` live_of s i \<subseteq> {1..<?n}" by blast
  have inj: "inj_on ?v (live_of s i)" by (rule inj_onI) (metis ident.expand word_unat_eq_iff)
  show "finite (live_of s i)" using inj sub by (metis finite_atLeastLessThan finite_subset finite_imageD)
  have "card (live_of s i) = card (?v ` live_of s i)" using inj by (simp add: card_image)
  also have "\<dots> \<le> card {1..<?n}" using sub by (intro card_mono) auto
  finally have "card (live_of s i) \<le> ?n - 1" by simp
  moreover have "?n > 0" using assms by (simp add: identities_wf_def id_valid_nat)
  ultimately show "card (live_of s i) < ?n" by simp
qed

section \<open>Opening, starting and closing an attempt\<close>

lemma authority_open:
  assumes wf: "authority_wf s"
    and ids: "a = im_next_attempt s" "advance a = Inr nxt"
    and rec: "dt_attempt (ar_ticket rec) = a" "\<not> is_attempt_terminal (ar_state rec)"
      "dt_flow (ar_ticket rec) = k" "dt_schedule (ar_ticket rec) = i"
    and before: "open_of s k = Some b" "\<not> id_valid b" "counter_of s i = Some n"
    and after: "open_of u = (open_of s)(k \<mapsto> a)" "counter_of u = (counter_of s)(i \<mapsto> n + 1)"
      "im_attempts u = om_put a rec (im_attempts s)"
      "im_schedule_attempts u = om_put i ((case om_find i (im_schedule_attempts s) of
         None \<Rightarrow> [] | Some as \<Rightarrow> as) @ [a]) (im_schedule_attempts s)"
      "im_next_attempt u = nxt" "im_next_schedule u = im_next_schedule s"
  shows "authority_wf u"
proof -
  have hs: "holders_wf s" and cs: "counters_wf s" and ident: "identities_wf s"
    using wf by (simp_all add: authority_wf_def)
  have a: "id_valid a" "a < nxt" "id_valid nxt"
    using ids ident advance_greater [OF ids(2)] by (auto simp: identities_wf_def id_valid_iff)
  have fresh: "om_find a (im_attempts s) = None"
    using ident ids(1) by (cases "om_find a (im_attempts s)") (auto simp: identities_wf_def)
  have live: "attempt_live u c rec' \<longleftrightarrow> (if c = a then rec' = rec else attempt_live s c rec')" for c rec'
    using after(3) rec(2) by (auto simp: attempt_live_def)
  have dead: "\<not> attempt_live s a rec'" for rec' using fresh by (simp add: attempt_live_def)
  have sets: "live_of u j = (if j = i then insert a (live_of s i) else live_of s j)" for j
    using rec(4) dead by (auto simp: live_of_def live)
  have "attempt_held u j c \<longleftrightarrow> (\<exists>rec'. attempt_live u c rec' \<and> dt_flow (ar_ticket rec') = j)" for j c
  proof (cases "c = a")
    case True
    have "\<not> attempt_held s j a" using hs dead by (auto simp: holders_wf_def)
    then show ?thesis using True rec(3) a(1) by (auto simp: live attempt_held_open after(1))
  next
    case False
    have "attempt_held u j c \<longleftrightarrow> attempt_held s j c"
      using False before(1,2) by (auto simp: attempt_held_open after(1))
    with False show ?thesis using hs by (simp add: live holders_wf_def)
  qed
  then have "holders_wf u" by (simp add: holders_wf_def)
  moreover have "counters_wf u" unfolding counters_wf_alt
  proof (intro allI impI)
    fix j m assume m: "counter_of u j = Some m"
    have "a \<notin> live_of s i" using dead by (auto simp: live_of_def)
    moreover have "unat (n + 1) = Suc (unat n)" if "unat n = card (live_of s i)"
      using that live_of_bound(2) [OF ident, of i] unat_le_u64_max [of "id_value (im_next_attempt s)"]
      by (simp add: unat_word_ariths)
    ultimately show "unat m = card (live_of u j)"
      using m cs before(3) live_of_bound(1) [OF ident] by (auto simp: counters_wf_alt after(2) sets split: if_splits)
  qed
  moreover have "identities_wf u"
  proof -
    have known: "om_find j (im_schedules u) \<noteq> None \<longleftrightarrow> om_find j (im_schedules s) \<noteq> None" for j
      unfolding schedule_known_counter after(2) using before(3) by auto
    have i: "i < im_next_schedule s"
      using ident before(3) schedule_known_counter [where i = i and s = s] by (auto simp: identities_wf_def)
    have older: "c < nxt" if "c < a" for c using that a(2) by simp
    have old: "c < a" "om_find c (im_attempts s) = Some rec' \<Longrightarrow> dt_schedule (ar_ticket rec') = j"
      if "om_find j (im_schedule_attempts s) = Some as" "c \<in> set as" for j c as rec'
      using ident that ids(1) unfolding identities_wf_def by blast+
    have "c < nxt \<and> (\<forall>rec'. om_find c (im_attempts u) = Some rec' \<longrightarrow> dt_schedule (ar_ticket rec') = j)"
      if as: "om_find j (im_schedule_attempts u) = Some as" "c \<in> set as" for j c as
    proof -
      consider "c = a" "j = i" | bs where "om_find j (im_schedule_attempts s) = Some bs" "c \<in> set bs"
        using as by (auto simp: after(4) split: if_splits option.splits)
      then show ?thesis
        by cases (use rec a(2) in \<open>auto simp: after(3) dest: old older\<close>)
    qed
    moreover have "om_wf (im_attempts u) \<and> id_valid (im_next_attempt u)"
      using ident a(3) by (simp add: identities_wf_def after(3,5) om_wf_put)
    moreover have "id_valid c \<and> c < nxt \<and> dt_attempt (ar_ticket rec') = c
        \<and> dt_schedule (ar_ticket rec') < im_next_schedule s" if "om_find c (im_attempts u) = Some rec'" for c rec'
      using that ident a rec i ids(1) older by (auto simp: identities_wf_def after(3) split: if_splits)
    moreover have "j < im_next_schedule s" if "om_find j (im_schedules u) \<noteq> None" for j
      using that ident unfolding known identities_wf_def by blast
    ultimately show ?thesis unfolding identities_wf_def after(5,6) by blast
  qed
  ultimately show ?thesis by (simp add: authority_wf_def)
qed

lemma identities_modify_attempt:
  assumes "identities_wf s" "im_attempts u = om_modify a f (im_attempts s)"
    and "\<And>rec. ar_ticket (f rec) = ar_ticket rec"
    and "\<And>i. counter_of u i \<noteq> None \<longleftrightarrow> counter_of s i \<noteq> None"
    and "im_schedule_attempts u = im_schedule_attempts s" "im_next_attempt u = im_next_attempt s"
      "im_next_schedule u = im_next_schedule s"
  shows "identities_wf u"
  using assms(1) unfolding identities_wf_def schedule_known_counter assms(2,4-7)
  by (auto simp: assms(3) om.wf_modify split: if_splits)

lemma authority_started:
  assumes wf: "authority_wf s"
    and f: "\<And>rec. ar_ticket (f rec) = ar_ticket rec"
      "\<And>rec. om_find a (im_attempts s) = Some rec \<Longrightarrow>
        is_attempt_terminal (ar_state (f rec)) = is_attempt_terminal (ar_state rec)"
    and after: "open_of u = open_of s" "counter_of u = counter_of s"
      "im_attempts u = om_modify a f (im_attempts s)"
      "im_schedule_attempts u = im_schedule_attempts s" "im_next_attempt u = im_next_attempt s"
      "im_next_schedule u = im_next_schedule s"
  shows "authority_wf u"
proof -
  have live: "attempt_live u c rec' \<longleftrightarrow> (\<exists>rec. attempt_live s c rec \<and> rec' = (if c = a then f rec else rec))"
    for c rec' using f(2) by (auto simp: attempt_live_def after(3))
  have tickets: "(\<exists>rec'. attempt_live u c rec' \<and> P (ar_ticket rec')) \<longleftrightarrow> (\<exists>rec. attempt_live s c rec \<and> P (ar_ticket rec))"
    for c P by (cases "c = a") (auto simp: live f(1))
  have "live_of u i = live_of s i" for i
    unfolding live_of_def by (rule Collect_cong, rule tickets [where P = "\<lambda>t. dt_schedule t = i"])
  moreover have "(\<exists>rec'. attempt_live u c rec' \<and> dt_flow (ar_ticket rec') = k) \<longleftrightarrow>
      (\<exists>rec. attempt_live s c rec \<and> dt_flow (ar_ticket rec) = k)" for c k
    by (rule tickets [where P = "\<lambda>t. dt_flow t = k"])
  then have "holders_wf u = holders_wf s" by (simp add: holders_wf_def attempt_held_open after(1))
  moreover have "identities_wf u"
    using wf f(1) by (intro identities_modify_attempt [OF _ after(3)]) (auto simp: authority_wf_def after)
  ultimately show ?thesis using wf by (simp add: authority_wf_def counters_wf_alt after(2))
qed

lemma authority_close:
  assumes wf: "authority_wf s" and rec: "attempt_live s a rec"
    and f: "\<And>rec. ar_ticket (f rec) = ar_ticket rec" "\<And>rec. is_attempt_terminal (ar_state (f rec))"
    and after: "open_of u = (open_of s)(dt_flow (ar_ticket rec) \<mapsto> unbound)"
      "counter_of u = (counter_of s)(dt_schedule (ar_ticket rec) :=
         map_option decrement (counter_of s (dt_schedule (ar_ticket rec))))"
      "im_attempts u = om_modify a f (im_attempts s)"
      "im_schedule_attempts u = im_schedule_attempts s" "im_next_attempt u = im_next_attempt s"
      "im_next_schedule u = im_next_schedule s"
  shows "authority_wf u"
proof -
  let ?i = "dt_schedule (ar_ticket rec)" and ?k = "dt_flow (ar_ticket rec)"
  have hs: "holders_wf s" and cs: "counters_wf s" and ident: "identities_wf s"
    using wf by (simp_all add: authority_wf_def)
  have live: "attempt_live u c rec' \<longleftrightarrow> c \<noteq> a \<and> attempt_live s c rec'" for c rec'
    using f(2) by (auto simp: attempt_live_def after(3))
  have only: "attempt_live s a rec' \<longleftrightarrow> rec' = rec" for rec' using rec by (auto simp: attempt_live_def)
  have sets: "live_of u j = live_of s j - {a}" "a \<in> live_of s j \<longleftrightarrow> j = ?i" for j
    by (auto simp: live_of_def live only)
  have one: "attempt_held s j a \<longleftrightarrow> j = ?k" for j using hs only by (auto simp: holders_wf_def)
  then have other: "attempt_held s ?k c \<longleftrightarrow> c = a" for c
    by (metis attempt_held_open option.inject)
  have "attempt_held u j c \<longleftrightarrow> (\<exists>rec'. attempt_live u c rec' \<and> dt_flow (ar_ticket rec') = j)" for j c
  proof -
    have "attempt_held u j c \<longleftrightarrow> j \<noteq> ?k \<and> attempt_held s j c"
      by (auto simp: attempt_held_open after(1) id_valid_iff)
    also have "\<dots> \<longleftrightarrow> c \<noteq> a \<and> attempt_held s j c" using one other by blast
    finally show ?thesis using hs by (auto simp: live holders_wf_def)
  qed
  then have "holders_wf u" by (simp add: holders_wf_def)
  moreover have "counters_wf u" unfolding counters_wf_alt
  proof (intro allI impI)
    fix j m assume m: "counter_of u j = Some m"
    show "unat m = card (live_of u j)"
    proof (cases "j = ?i")
      case True
      then obtain n where n: "counter_of s ?i = Some n" "m = decrement n" using m after(2) by auto
      then have "unat n = card (live_of s ?i)" using cs by (simp add: counters_wf_alt)
      moreover have "card (live_of s ?i) > 0"
        using live_of_bound(1) [OF ident] sets(2) [of ?i] by (auto simp: card_gt_0_iff)
      ultimately show ?thesis
        using True n(2) live_of_bound(1) [OF ident] sets
        by (simp add: decrement_nat card_Diff_singleton)
    next
      case False
      then show ?thesis using m cs sets by (simp add: counters_wf_alt after(2))
    qed
  qed
  moreover have "identities_wf u"
    using ident f(1) by (intro identities_modify_attempt [OF _ after(3)]) (auto simp: after)
  ultimately show ?thesis by (simp add: authority_wf_def)
qed

end
