(* ===== verification/Lifecycle.thy ===== *)
theory Lifecycle
  imports Authority
begin

text \<open>
  The invariant of the flow table and the progress of each flow.  \<open>core_wf\<close> says that the table is
  ordered, the indexes are exact, a flow holds an attempt exactly while it is dispatched or
  running, and dispatch authority is consistent.  \<open>keeps k\<close> relates a state to a later one: the invariant is preserved and flow \<open>k\<close> has
  only progressed.  The relation is a preorder, so it is proved for each transition and carried
  through the sequences and loops that the operations are made of.
\<close>

section \<open>Relations carried through sequences and loops\<close>

locale state_relation =
  fixes R :: "'s \<Rightarrow> 's \<Rightarrow> bool"
  assumes reflexive: "R s s"
    and transitive: "R s t \<Longrightarrow> R t u \<Longrightarrow> R s u"
begin

lemma fold_steps:
  assumes "\<And>x s. x \<in> set xs \<Longrightarrow> R s (f x s)"
  shows "R s (fold f xs s)"
  using assms
proof (induction xs arbitrary: s)
  case (Cons x xs)
  have "R s (f x s)" "R (f x s) (fold f xs (f x s))" using Cons by auto
  then show ?case by (auto intro: transitive)
qed (simp add: reflexive)

lemma and_then_steps:
  assumes "R s (snd (f s))" and "\<And>t. f s = (Ok, t) \<Longrightarrow> R t (snd (g t))"
  shows "R s (snd (and_then f g s))"
  using assms transitive by (cases "f s") (fastforce simp: and_then_def)

lemma for_each_steps:
  assumes "\<And>x s. x \<in> set xs \<Longrightarrow> R s (snd (f x s))"
  shows "R s (snd (for_each f xs s))"
  using assms by (induction xs arbitrary: s) (auto intro: reflexive and_then_steps)

lemma pair_steps:
  assumes "\<And>x s y. x \<in> set xs \<Longrightarrow> R s (fst (f x (s, y)))"
  shows "R (fst p) (fst (fold f xs p))"
  using assms
proof (induction xs arbitrary: p)
  case (Cons x xs)
  have "R (fst p) (fst (f x p))" using Cons.prems [of x "fst p" "snd p"] by simp
  moreover have "R (fst (f x p)) (fst (fold f xs (f x p)))"
    using Cons.prems by (intro Cons.IH) auto
  ultimately show ?case by (auto intro: transitive)
qed (simp add: reflexive)

end

section \<open>The invariant\<close>

definition holds_attempt :: "flow_lifecycle \<Rightarrow> bool" where
  "holds_attempt l \<longleftrightarrow> l = FlowDispatched \<or> l = FlowRunning"

definition flow_ok :: "flow_runtime \<Rightarrow> bool" where
  "flow_ok r \<longleftrightarrow> (id_valid (fr_open_attempt r) \<longleftrightarrow> holds_attempt (fr_lifecycle r))"

definition core_wf :: "impl \<Rightarrow> bool" where
  "core_wf s \<longleftrightarrow> tables_wf s \<and> authority_wf s
     \<and> (\<forall>k r. om_find k (im_flows s) = Some r \<longrightarrow> flow_ok r)"

text \<open>Generations and credited work only grow, and a terminal flow stays as it ended.\<close>

definition progress :: "flow_runtime \<Rightarrow> flow_runtime \<Rightarrow> bool" where
  "progress r r' \<longleftrightarrow>
     fd_generation (fr_descriptor r) \<le> fd_generation (fr_descriptor r')
     \<and> fr_served_work r \<le> fr_served_work r'
     \<and> (is_terminal (fr_lifecycle r) \<longrightarrow>
          fr_lifecycle r' = fr_lifecycle r \<and> fr_served_work r' = fr_served_work r)"

definition evolves :: "flow_id \<Rightarrow> impl \<Rightarrow> impl \<Rightarrow> bool" where
  "evolves k s t \<longleftrightarrow> (\<forall>r. om_find k (im_flows s) = Some r \<longrightarrow>
     (\<exists>r'. om_find k (im_flows t) = Some r' \<and> progress r r'))"

definition keeps :: "flow_id \<Rightarrow> impl \<Rightarrow> impl \<Rightarrow> bool" where
  "keeps k s t \<longleftrightarrow> (core_wf s \<longrightarrow> core_wf t \<and> evolves k s t)"

lemma progress_refl [simp]: "progress r r"
  by (simp add: progress_def)

lemma progress_trans: "progress a b \<Longrightarrow> progress b c \<Longrightarrow> progress a c"
  by (auto simp: progress_def)

interpretation keeping: state_relation "keeps k" for k
proof
  show "keeps k s s" for s by (simp add: keeps_def evolves_def)
  show "keeps k s t \<Longrightarrow> keeps k t u \<Longrightarrow> keeps k s u" for s t u
    unfolding keeps_def evolves_def by (meson progress_trans)
qed

lemmas keeps_refl = keeping.reflexive
lemmas keeps_trans = keeping.transitive

lemma keepsI: "(core_wf s \<Longrightarrow> keeps k s t) \<Longrightarrow> keeps k s t"
  by (auto simp: keeps_def)

lemma core_wf_tables: "core_wf s \<Longrightarrow> tables_wf s"
  by (simp add: core_wf_def)

lemma core_wf_authority: "core_wf s \<Longrightarrow> authority_wf s"
  by (simp add: core_wf_def)

lemma core_wf_flow: "core_wf s \<Longrightarrow> om_find k (im_flows s) = Some r \<Longrightarrow> flow_ok r"
  by (simp add: core_wf_def)

lemma core_wf_key: "core_wf s \<Longrightarrow> om_find k (im_flows s) = Some r \<Longrightarrow> fd_flow (fr_descriptor r) = k"
  using core_wf_tables tables_wf_key by blast

section \<open>How the relation is established\<close>

text \<open>A step that rewrites one flow.\<close>

lemma keeps_one_flow:
  assumes find: "\<And>j. om_find j (im_flows t) =
      (if j = flow then map_option f (om_find j (im_flows s)) else om_find j (im_flows s))"
    and tables: "core_wf s \<Longrightarrow> tables_wf t"
    and flow: "\<And>r. core_wf s \<Longrightarrow> om_find flow (im_flows s) = Some r \<Longrightarrow> flow_ok (f r) \<and> progress r (f r)"
    and authority: "core_wf s \<Longrightarrow> authority_wf t"
  shows "keeps k s t"
  unfolding keeps_def
proof
  assume wf: "core_wf s"
  have "flow_ok r" if "om_find j (im_flows t) = Some r" for j r
    using that flow wf find [of j] by (auto simp: core_wf_def split: if_splits)
  moreover have "evolves k s t" using flow wf by (auto simp: evolves_def find)
  ultimately show "core_wf t \<and> evolves k s t" using tables authority wf by (simp add: core_wf_def)
qed

lemma keeps_same_flows:
  assumes "im_flows t = im_flows s" "im_waiting_index t = im_waiting_index s"
    "im_ready_index t = im_ready_index s" "im_inflight_index t = im_inflight_index s"
    and "core_wf s \<Longrightarrow> authority_wf t"
  shows "keeps k s t"
proof (rule keeps_one_flow [of _ unbound "\<lambda>r. r"])
  show "core_wf s \<Longrightarrow> tables_wf t" using assms(1-4) tables_wf_cong [of t s] by (simp add: core_wf_def)
qed (use assms(1,5) in \<open>auto simp: option.map_ident core_wf_flow\<close>)

text \<open>Updates that reach neither the flow table nor dispatch authority.\<close>

definition same_core :: "impl \<Rightarrow> impl \<Rightarrow> bool" where
  "same_core s t \<longleftrightarrow> im_flows t = im_flows s \<and> im_waiting_index t = im_waiting_index s
     \<and> im_ready_index t = im_ready_index s \<and> im_inflight_index t = im_inflight_index s
     \<and> same_authority s t"

lemma keeps_same_core: "same_core s t \<Longrightarrow> keeps k s t"
  by (rule keeps_same_flows) (auto simp: same_core_def authority_wf_cong core_wf_authority)

lemma same_core_primitives [simp]:
  "same_core s s" "same_core s (release_slot resource s)" "same_core s (modify_resource resource g s)"
  "same_core s (snd (journal type payload s))"
  by (simp_all add: same_core_def) (simp add: journal_def split: option.split prod.split)

lemma same_core_modify_schedule:
  "(\<And>sr. sr_open_attempts (f sr) = sr_open_attempts sr) \<Longrightarrow> same_core s (modify_schedule schedule f s)"
  by (simp add: same_core_def same_authority_modify_schedule)

lemma same_coreI:
  assumes "im_flows t = im_flows s" "im_waiting_index t = im_waiting_index s"
    "im_ready_index t = im_ready_index s" "im_inflight_index t = im_inflight_index s"
    "im_schedules t = im_schedules s" "im_attempts t = im_attempts s"
    "im_schedule_attempts t = im_schedule_attempts s" "im_next_attempt t = im_next_attempt s"
    "im_next_schedule t = im_next_schedule s"
  shows "same_core s t"
  unfolding same_core_def using assms
  by (intro conjI same_authorityI) (simp_all add: open_of_def counter_of_def fun_eq_iff)

lemma same_core_trans: "same_core s t \<Longrightarrow> same_core t u \<Longrightarrow> same_core s u"
  by (auto simp: same_core_def intro: same_authority_trans)

text \<open>A rewrite of one flow that leaves what the invariant and the progress of the flow speak of.\<close>

definition quiet :: "(flow_runtime \<Rightarrow> flow_runtime) \<Rightarrow> bool" where
  "quiet f \<longleftrightarrow> (\<forall>r. fr_lifecycle (f r) = fr_lifecycle r \<and> fr_open_attempt (f r) = fr_open_attempt r
     \<and> fr_served_work (f r) = fr_served_work r
     \<and> fd_flow (fr_descriptor (f r)) = fd_flow (fr_descriptor r)
     \<and> fd_generation (fr_descriptor (f r)) = fd_generation (fr_descriptor r))"

lemma keeps_quiet: "quiet f \<Longrightarrow> keeps k s (modify_flow flow f s)"
  by (rule keeps_one_flow [of _ flow f])
    (auto simp: quiet_def flow_ok_def progress_def core_wf_def authority_wf_modify_flow
      intro!: tables_wf_modify_flow)

lemma quiet_updates [simp]:
  "quiet (record_step now l reason i a detail)" "quiet clear_scheduled" "quiet (release_reserved q)"
  "quiet (\<lambda>r. r\<lparr>fr_accounting := acc r\<rparr>)" "quiet (\<lambda>r. r\<lparr>fr_ever_ready := b\<rparr>)"
  "quiet f \<Longrightarrow> quiet g \<Longrightarrow> quiet (\<lambda>r. f (g r))" "quiet count_deadline_miss"
  by (simp_all add: quiet_def clear_scheduled_def release_reserved_def count_deadline_miss_def)

lemma keeps_set_lifecycle:
  assumes "\<And>r. core_wf s \<Longrightarrow> om_find flow (im_flows s) = Some r \<Longrightarrow> \<not> is_terminal (fr_lifecycle r)
    \<and> holds_attempt next = holds_attempt (fr_lifecycle r)"
  shows "keeps k s (set_lifecycle flow next now s)"
  by (rule keeps_one_flow [of _ flow "moved s next now"])
    (use assms in \<open>auto simp: core_wf_def flow_ok_def progress_def tables_wf_set_lifecycle\<close>)

lemma holds_attempt_simps [simp]:
  "holds_attempt FlowDispatched" "holds_attempt FlowRunning" "\<not> holds_attempt FlowWaiting"
  "\<not> holds_attempt FlowReady" "\<not> holds_attempt FlowScheduled" "\<not> holds_attempt FlowCompletionReported"
  "\<not> holds_attempt FlowCancelling" "\<not> holds_attempt FlowPreempting" "\<not> holds_attempt FlowCompleted"
  "\<not> holds_attempt FlowCancelled" "\<not> holds_attempt FlowFailed" "\<not> holds_attempt FlowAmbiguous"
  by (simp_all add: holds_attempt_def)

lemma terminal_no_attempt: "is_terminal l \<Longrightarrow> \<not> holds_attempt l"
  by (auto simp: holds_attempt_def)

text \<open>The same facts in the form in which a sequence of updates is taken apart.\<close>

lemma keeps_then_quiet: "quiet f \<Longrightarrow> keeps k s t \<Longrightarrow> keeps k s (modify_flow flow f t)"
  by (rule keeps_trans [OF _ keeps_quiet])

lemma keeps_then_same: "same_core t u \<Longrightarrow> keeps k s t \<Longrightarrow> keeps k s u"
  by (rule keeps_trans [OF _ keeps_same_core])

lemma keeps_then_set:
  assumes "\<And>r. core_wf t \<Longrightarrow> om_find flow (im_flows t) = Some r \<Longrightarrow> \<not> is_terminal (fr_lifecycle r)
    \<and> holds_attempt next = holds_attempt (fr_lifecycle r)"
    and "keeps k s t"
  shows "keeps k s (set_lifecycle flow next now t)"
  using keeps_trans [OF assms(2) keeps_set_lifecycle] assms(1) by blast

lemma keeps_then_schedule:
  "(\<And>sr. sr_open_attempts (f sr) = sr_open_attempts sr) \<Longrightarrow> keeps k s t \<Longrightarrow>
     keeps k s (modify_schedule schedule f t)"
  by (rule keeps_then_same [OF same_core_modify_schedule])

lemmas keeps_then_slot = keeps_then_same [OF same_core_primitives(2)]
  keeps_then_same [OF same_core_primitives(3)] keeps_then_same [OF same_core_primitives(4)]

lemmas keeps_steps = keeps_then_slot keeps_then_schedule keeps_then_quiet keeps_then_set keeps_refl

section \<open>Schedules\<close>

lemma keeps_reclaim_entry:
  assumes "\<And>r. om_find (se_flow e) (im_flows s) = Some r \<Longrightarrow> fr_lifecycle r = FlowScheduled"
  shows "keeps k s (reclaim_entry e now s)"
  unfolding reclaim_entry_def
  by (intro keeps_steps) (use assms in \<open>auto simp: quiet_def clear_scheduled_def release_reserved_def\<close>)

lemma keeps_release_run_entry: "keeps k s (release_run_entry schedule index now s)"
proof -
  have "keeps k s (reclaim_entry e now (modify_schedule i f (modify_schedule j g s)))"
    if "om_find (se_flow e) (im_flows s) = Some r" "fr_lifecycle r = FlowScheduled"
      "\<And>sr. sr_open_attempts (f sr) = sr_open_attempts sr"
      "\<And>sr. sr_open_attempts (g sr) = sr_open_attempts sr" for e i f j g r
    using that by (intro keeps_trans [OF _ keeps_reclaim_entry] keeps_steps) simp_all
  then show ?thesis
    unfolding release_run_entry_def Let_def
    by (auto split: option.split intro!: keeps_steps)
qed

lemma keeps_apply_release_schedule: "keeps k s (apply_release_schedule schedule now s)"
  unfolding apply_release_schedule_def
  by (auto split: option.split intro!: keeping.fold_steps keeps_release_run_entry keeps_refl)

lemma keeps_place_flow:
  assumes "\<And>r. om_find (se_flow e) (im_flows s) = Some r \<Longrightarrow>
    \<not> is_terminal (fr_lifecycle r) \<and> \<not> holds_attempt (fr_lifecycle r)"
  shows "keeps k s (place_flow sched e s)"
  unfolding place_flow_def
  by (intro keeps_steps) (use assms in \<open>auto simp: quiet_def\<close>)

lemma holds_attempt_open_work: "holds_attempt l \<Longrightarrow> holds_open_work l"
  by (auto simp: holds_attempt_def)

lemma keeps_apply_schedule_entry: "keeps k s (apply_schedule_entry sched e s)"
proof -
  have "keeps k s (advance_clock r (charge_reservation e (charge_resource e
      (modify_schedule i (\<lambda>sr. sr\<lparr>sr_pending_entries := sr_pending_entries sr + 1\<rparr>) (place_flow sched e s)))))"
    if "om_find (se_flow e) (im_flows s) = Some r'" "\<not> is_terminal (fr_lifecycle r')"
      "\<not> holds_open_work (fr_lifecycle r')" for r r' i
  proof -
    have same: "same_core t (advance_clock r (charge_reservation e (charge_resource e t)))" for t
      by (rule same_coreI) (simp_all add: advance_clock_def charge_reservation_def charge_resource_def Let_def)
    show ?thesis
    proof (rule keeps_then_same [OF same], rule keeps_then_schedule)
      show "keeps k s (place_flow sched e s)"
        using that holds_attempt_open_work by (intro keeps_place_flow) auto
    qed simp
  qed
  then show ?thesis
    unfolding apply_schedule_entry_def by (auto split: option.split intro: keeps_refl)
qed

section \<open>Attempts\<close>

text \<open>
  Delivery of an entry: the attempt is opened, the entry consumed and the next identity drawn, all in
  one step of the invariant.
\<close>

lemma keeps_open_attempt:
  assumes flow: "om_find (dt_flow t) (im_flows s) = Some r" "fr_lifecycle r = FlowScheduled"
      "fd_generation (fr_descriptor r) = dt_flow_generation t"
    and sched: "find_schedule s (dt_schedule t) = Some sr"
    and ids: "dt_attempt t = im_next_attempt s" "advance (im_next_attempt s) = Inr nxt"
  shows "keeps k s ((consume_entry (dt_schedule t) n (apply_attempt_opened t nominal now s))
    \<lparr>im_next_attempt := nxt\<rparr>)" (is "keeps k s ?u")
proof -
  let ?i = "dt_schedule t" and ?k = "dt_flow t"
  define s2 where "s2 = modify_schedule ?i (\<lambda>sr. sr\<lparr>sr_open_attempts := sr_open_attempts sr + 1\<rparr>)
    (s\<lparr>im_attempts := om_put (dt_attempt t) (open_attempt_record t now) (im_attempts s),
       im_schedule_attempts := om_put ?i ((case om_find ?i (im_schedule_attempts s) of
         None \<Rightarrow> [] | Some xs \<Rightarrow> xs) @ [dt_attempt t]) (im_schedule_attempts s)\<rparr>)"
  define g where "g = (\<lambda>r :: flow_runtime. r\<lparr>fr_open_attempt := dt_attempt t,
     fr_accounting := (fr_accounting r)\<lparr>fa_dispatches_issued := fa_dispatches_issued (fr_accounting r) + 1\<rparr>\<rparr>)"
  define note_step where "note_step = record_step now FlowDispatched ReasonSelected ?i (dt_attempt t)
    (lit ''dispatch issued with '' @ dec (dt_quantum t) @ lit '' units of '' @ dec nominal
      @ lit '' nominal work'')"
  define v where "v = modify_flow ?k note_step (set_lifecycle ?k FlowDispatched now (modify_flow ?k g s2))"
  have u: "?u = (consume_entry ?i n v)\<lparr>im_next_attempt := nxt\<rparr>"
    using flow unfolding apply_attempt_opened_def Let_def s2_def [symmetric] g_def [symmetric]
      note_step_def [symmetric] v_def by (simp add: current_flow_def s2_def)
  have flows: "im_flows s2 = im_flows s" by (simp add: s2_def)
  let ?f = "note_step \<circ> moved (modify_flow ?k g s2) FlowDispatched now \<circ> g"
  show ?thesis unfolding u
  proof (rule keeps_one_flow [of _ ?k ?f])
    show "om_find j (im_flows ((consume_entry ?i n v)\<lparr>im_next_attempt := nxt\<rparr>)) =
        (if j = ?k then map_option ?f (om_find j (im_flows s)) else om_find j (im_flows s))" for j
      by (simp add: consume_entry_def v_def flows option.map_comp o_assoc)
  next
    assume wf: "core_wf s"
    have "tables_wf s2" using core_wf_tables [OF wf] tables_wf_cong [of s2 s] by (simp add: s2_def)
    then have "tables_wf v"
      by (auto simp: v_def note_step_def g_def intro!: tables_wf_modify_flow tables_wf_set_lifecycle)
    then show "tables_wf ((consume_entry ?i n v)\<lparr>im_next_attempt := nxt\<rparr>)"
      using tables_wf_cong [of "(consume_entry ?i n v)\<lparr>im_next_attempt := nxt\<rparr>" v] by (simp add: consume_entry_def)
    have valid: "id_valid (dt_attempt t)"
      using wf ids(1) by (simp add: core_wf_def authority_wf_def identities_wf_def)
    then show "flow_ok (?f r') \<and> progress r' (?f r')" if "om_find ?k (im_flows s) = Some r'" for r'
      using that flow by (auto simp: flow_ok_def progress_def note_step_def g_def)
    have "\<not> id_valid (fr_open_attempt r)" using core_wf_flow [OF wf flow(1)] flow(2) by (simp add: flow_ok_def)
    then show "authority_wf ((consume_entry ?i n v)\<lparr>im_next_attempt := nxt\<rparr>)"
      using flow(1) sched ids
      by (intro authority_open [OF core_wf_authority [OF wf], of "dt_attempt t" nxt
            "open_attempt_record t now" ?k ?i "fr_open_attempt r" "sr_open_attempts sr"])
        (auto simp: open_attempt_record_def consume_entry_def v_def s2_def g_def note_step_def
          open_of_def counter_of_def find_schedule_def fun_eq_iff option.map_comp o_def)
  qed
qed

lemma attempt_live_held:
  assumes "core_wf s" "attempt_live s a rec"
  shows "id_valid a \<and> (\<exists>r. om_find (dt_flow (ar_ticket rec)) (im_flows s) = Some r \<and> fr_open_attempt r = a)"
  using assms by (auto simp: core_wf_def authority_wf_def holders_wf_def attempt_held_def)

lemma attempt_held_live:
  assumes "core_wf s" "om_find k (im_flows s) = Some r" "id_valid (fr_open_attempt r)"
  shows "\<exists>rec. attempt_live s (fr_open_attempt r) rec \<and> dt_flow (ar_ticket rec) = k"
  using assms by (auto simp: core_wf_def authority_wf_def holders_wf_def attempt_held_def)

lemma keeps_attempt_started: "keeps k s (apply_attempt_started attempt now s)"
proof (rule keepsI)
  assume wf: "core_wf s"
  show ?thesis
  proof (cases "\<exists>rec. attempt_live s attempt rec \<and> ar_state rec \<noteq> AttemptStarted")
    case True
    then obtain rec where rec: "attempt_live s attempt rec" "ar_state rec \<noteq> AttemptStarted" by blast
    let ?k = "dt_flow (ar_ticket rec)"
    obtain r where r: "om_find ?k (im_flows s) = Some r" "fr_open_attempt r = attempt" "id_valid attempt"
      using attempt_live_held [OF wf rec(1)] by blast
    define m where "m = (\<lambda>rec :: attempt_runtime. rec\<lparr>ar_state := AttemptStarted\<rparr>)"
    define g where "g = (\<lambda>r :: flow_runtime. r\<lparr>fr_accounting := (fr_accounting r)\<lparr>fa_dispatches_started :=
      fa_dispatches_started (fr_accounting r) + 1\<rparr>\<rparr>)"
    let ?t = "modify_flow ?k g (modify_attempt attempt m s)"
    have run: "apply_attempt_started attempt now s = set_lifecycle ?k FlowRunning now ?t"
      using rec r by (auto simp: apply_attempt_started_def attempt_live_def Let_def m_def g_def)
    show ?thesis unfolding run
    proof (rule keeps_one_flow [of _ ?k "moved ?t FlowRunning now \<circ> g"])
      have "tables_wf (modify_attempt attempt m s)"
        using core_wf_tables [OF wf] tables_wf_cong [of "modify_attempt attempt m s" s] by simp
      then show "tables_wf (set_lifecycle ?k FlowRunning now ?t)"
        by (auto simp: g_def intro!: tables_wf_set_lifecycle tables_wf_modify_flow)
      have "holds_attempt (fr_lifecycle r)" using core_wf_flow [OF wf r(1)] r by (simp add: flow_ok_def)
      then show "flow_ok ((moved ?t FlowRunning now \<circ> g) r') \<and> progress r' ((moved ?t FlowRunning now \<circ> g) r')"
        if "om_find ?k (im_flows s) = Some r'" for r'
        using that r terminal_no_attempt by (auto simp: flow_ok_def progress_def g_def)
      have "authority_wf ?t"
        by (rule authority_started [OF core_wf_authority [OF wf], of m attempt])
          (use rec in \<open>auto simp: m_def g_def attempt_live_def modify_attempt_def open_of_def
             counter_of_def fun_eq_iff option.map_comp o_def\<close>)
      then show "authority_wf (set_lifecycle ?k FlowRunning now ?t)" by simp
    qed (simp add: option.map_comp)
  next
    case False
    then have "apply_attempt_started attempt now s = s"
      by (auto simp: apply_attempt_started_def attempt_live_def split: option.split)
    then show ?thesis by (simp add: keeps_refl)
  qed
qed

text \<open>
  A flow gives up the attempt it holds and moves to another state in the same transition: between
  the two updates it holds no attempt while it still counts as dispatched.
\<close>

lemma om_modify_modify: "om_modify k f (om_modify k g m) = om_modify k (\<lambda>v. f (g v)) m"
  by (auto simp: om_modify_def)

lemma keeps_settle:
  assumes same: "im_flows t = om_modify flow g (im_flows s)" "im_waiting_index t = im_waiting_index s"
      "im_ready_index t = im_ready_index s" "im_inflight_index t = im_inflight_index s"
    and authority: "core_wf s \<Longrightarrow> authority_wf t"
    and g: "\<And>r. fr_lifecycle (g r) = fr_lifecycle r \<and> \<not> id_valid (fr_open_attempt (g r))
      \<and> fr_descriptor (g r) = fr_descriptor r \<and> fr_served_work r \<le> fr_served_work (g r)"
    and holder: "\<And>r. core_wf s \<Longrightarrow> om_find flow (im_flows s) = Some r \<Longrightarrow> id_valid (fr_open_attempt r)"
    and "\<not> holds_attempt next"
  shows "keeps k s (set_lifecycle flow next now t)"
proof (rule keeps_one_flow [of _ flow "moved t next now \<circ> g"])
  show "om_find j (im_flows (set_lifecycle flow next now t)) =
      (if j = flow then map_option (moved t next now \<circ> g) (om_find j (im_flows s))
       else om_find j (im_flows s))" for j
    by (simp add: same option.map_comp)
  assume wf: "core_wf s"
  have "tables_wf (modify_flow flow g s)"
    using core_wf_tables [OF wf] g by (intro tables_wf_modify_flow) simp_all
  then have "tables_wf t" using tables_wf_cong [of t "modify_flow flow g s"] by (simp add: same modify_flow_def)
  then show "tables_wf (set_lifecycle flow next now t)" by (rule tables_wf_set_lifecycle)
  show "authority_wf (set_lifecycle flow next now t)" using authority [OF wf] by simp
  fix r assume r: "om_find flow (im_flows s) = Some r"
  have "holds_attempt (fr_lifecycle r)" using holder [OF wf r] core_wf_flow [OF wf r] by (simp add: flow_ok_def)
  then show "flow_ok ((moved t next now \<circ> g) r) \<and> progress r ((moved t next now \<circ> g) r)"
    using g [of r] assms(8) terminal_no_attempt by (auto simp: flow_ok_def progress_def)
qed

lemma unbound_invalid [simp]: "\<not> id_valid unbound"
  by (simp add: id_valid_def)

text \<open>The state in which an attempt is marked closed and its flow, schedule and resource let it go.\<close>

definition let_go ::
  "attempt_id \<Rightarrow> (attempt_runtime \<Rightarrow> attempt_runtime) \<Rightarrow> dispatch_ticket \<Rightarrow> (flow_runtime \<Rightarrow> flow_runtime) \<Rightarrow> impl \<Rightarrow> impl" where
  "let_go attempt m t g s = release_slot (dt_resource t) (modify_flow (dt_flow t) g
     (release_open_attempt (dt_schedule t) (modify_attempt attempt m s)))"

lemma let_go_flows:
  "im_flows (let_go a m t g s) = om_modify (dt_flow t) g (im_flows s)"
  "im_waiting_index (let_go a m t g s) = im_waiting_index s"
  "im_ready_index (let_go a m t g s) = im_ready_index s"
  "im_inflight_index (let_go a m t g s) = im_inflight_index s"
  by (simp_all add: let_go_def modify_flow_def)

lemma authority_let_go:
  assumes wf: "core_wf s" and rec: "attempt_live s a rec"
    and m: "\<And>rec. ar_ticket (m rec) = ar_ticket rec" "\<And>rec. is_attempt_terminal (ar_state (m rec))"
    and g: "\<And>r. fr_open_attempt (g r) = unbound"
  shows "authority_wf (let_go a m (ar_ticket rec) g s)"
proof -
  obtain r where "om_find (dt_flow (ar_ticket rec)) (im_flows s) = Some r"
    using attempt_live_held [OF wf rec] by blast
  then show ?thesis
    by (intro authority_close [OF core_wf_authority [OF wf] rec m])
      (auto simp: let_go_def open_of_def counter_of_def fun_eq_iff option.map_comp o_def g
        modify_attempt_def release_open_attempt_def)
qed

lemma keeps_let_go:
  assumes wf: "core_wf s" and rec: "attempt_live s a rec"
    and m: "\<And>rec. ar_ticket (m rec) = ar_ticket rec" "\<And>rec. is_attempt_terminal (ar_state (m rec))"
    and g: "\<And>r. fr_lifecycle (g r) = fr_lifecycle r \<and> fr_open_attempt (g r) = unbound
      \<and> fr_descriptor (g r) = fr_descriptor r \<and> fr_served_work r \<le> fr_served_work (g r)"
    and "\<not> holds_attempt next"
    and t: "same_core (let_go a m (ar_ticket rec) g s) t"
  shows "keeps k s (set_lifecycle (dt_flow (ar_ticket rec)) next now t)"
proof (rule keeps_settle [where g = g])
  show "authority_wf t"
    using authority_let_go [OF wf rec m] g t by (auto simp: same_core_def authority_wf_cong)
  show "id_valid (fr_open_attempt r)" if "om_find (dt_flow (ar_ticket rec)) (im_flows s) = Some r" for r
    using attempt_live_held [OF wf rec] that by auto
qed (use t g assms(6) in \<open>auto simp: same_core_def let_go_flows\<close>)

definition closing :: "attempt_state \<Rightarrow> bool" where
  "closing st \<longleftrightarrow> st \<in> {AttemptPreempted, AttemptCancelled, AttemptAbandoned, AttemptRejected}"

text \<open>The state a flow moves to when its attempt is closed.\<close>

fun settled :: "attempt_state \<Rightarrow> flow_lifecycle" where
  "settled AttemptPreempted = FlowPreempting"
| "settled AttemptCancelled = FlowCancelling"
| "settled AttemptAbandoned = FlowAmbiguous"
| "settled _ = FlowReady"

definition close_record :: "attempt_state \<Rightarrow> bytes \<Rightarrow> ticks \<Rightarrow> attempt_runtime \<Rightarrow> attempt_runtime" where
  "close_record st detail now rec = rec\<lparr>ar_state := st, ar_closed_tick := now,
     ar_close_detail := bounded_detail detail\<rparr>"

lemma modify_flow_id: "modify_flow k (\<lambda>r. r) s = s"
proof -
  have "om_modify k (\<lambda>r. r) m = m" for m :: "(flow_id, flow_runtime) omap"
    by (induction m) (auto simp: om_modify_def)
  then show ?thesis by (simp add: modify_flow_def)
qed

text \<open>What settling does to the flow: bookkeeping, the new state, and an explanation step.\<close>

lemma settle_flow_eq:
  assumes "closing st"
  shows "\<exists>note_step acc. quiet note_step \<and> settle_flow rec attempt st detail now s =
    modify_flow (dt_flow (ar_ticket rec)) note_step (set_lifecycle (dt_flow (ar_ticket rec)) (settled st) now
      (modify_flow (dt_flow (ar_ticket rec)) (\<lambda>r. r\<lparr>fr_accounting := acc (fr_accounting r)\<rparr>) s))"
proof -
  consider "st = AttemptPreempted" | "st = AttemptCancelled" | "st = AttemptAbandoned" | "st = AttemptRejected"
    using assms by (auto simp: closing_def)
  then show ?thesis
  proof cases
    case 1
    show ?thesis
      by (intro exI [of _ "record_step now FlowPreempting ReasonDisplacedByHigherAuthority
            (dt_schedule (ar_ticket rec)) attempt detail"]
          exI [of _ "\<lambda>a. a\<lparr>fa_preemptions := fa_preemptions a + 1\<rparr>"]) (simp add: settle_flow_def Let_def 1)
  next
    case 2
    show ?thesis
      by (intro exI [of _ "record_step now FlowCancelling ReasonTerminal (dt_schedule (ar_ticket rec)) attempt detail"]
          exI [of _ "\<lambda>a. a"]) (simp add: settle_flow_def Let_def 2 modify_flow_id)
  next
    case 3
    show ?thesis
      by (intro exI [of _ "record_step now FlowAmbiguous ReasonAmbiguousRequiresResolution (dt_schedule (ar_ticket rec)) attempt detail"]
          exI [of _ "\<lambda>a. a"]) (simp add: settle_flow_def Let_def 3 modify_flow_id)
  next
    case 4
    show ?thesis
      by (intro exI [of _ "record_step now FlowReady ReasonSelected (dt_schedule (ar_ticket rec)) attempt detail"]
          exI [of _ "\<lambda>a. a"]) (simp add: settle_flow_def Let_def 4 modify_flow_id)
  qed
qed

text \<open>Closing a live attempt is, in one step, the rewrite of its flow.\<close>

lemma attempt_closed_eq:
  assumes wf: "core_wf s" and rec: "attempt_live s attempt rec" and st: "closing st"
  shows "\<exists>note_step g. quiet note_step
    \<and> (\<forall>r. fr_lifecycle (g r) = fr_lifecycle r \<and> fr_open_attempt (g r) = unbound
      \<and> fr_descriptor (g r) = fr_descriptor r \<and> fr_served_work r \<le> fr_served_work (g r))
    \<and> apply_attempt_closed attempt st detail now s = modify_flow (dt_flow (ar_ticket rec)) note_step
        (set_lifecycle (dt_flow (ar_ticket rec)) (settled st) now
          (let_go attempt (close_record st detail now) (ar_ticket rec) g s))"
proof -
  let ?t = "ar_ticket rec" and ?k = "dt_flow (ar_ticket rec)"
  define g where "g = (\<lambda>r :: flow_runtime. (release_reserved (dt_quantum ?t) r)\<lparr>fr_open_attempt := unbound\<rparr>)"
  obtain r where r: "om_find ?k (im_flows s) = Some r" "fr_open_attempt r = attempt"
    using attempt_live_held [OF wf rec] by blast
  have run: "apply_attempt_closed attempt st detail now s = settle_flow rec attempt st (bounded_detail detail) now
      (let_go attempt (close_record st detail now) ?t g s)"
    using rec r by (simp add: apply_attempt_closed_def attempt_live_def Let_def let_go_def g_def close_record_def [abs_def])
  have merge: "modify_flow ?k f (let_go attempt m ?t g s) = let_go attempt m ?t (\<lambda>r. f (g r)) s" for f m
    by (simp add: let_go_def release_slot_def modify_flow_def modify_resource_def om_modify_modify)
  obtain note_step acc where "quiet note_step" and eq: "apply_attempt_closed attempt st detail now s =
      modify_flow ?k note_step (set_lifecycle ?k (settled st) now (let_go attempt (close_record st detail now) ?t
        (\<lambda>r. (g r)\<lparr>fr_accounting := acc (fr_accounting (g r))\<rparr>) s))"
    using settle_flow_eq [OF st, of rec attempt "bounded_detail detail" now
        "let_go attempt (close_record st detail now) ?t g s"] unfolding run merge by blast
  then show ?thesis
    by (intro exI [of _ note_step] exI [of _ "\<lambda>r. (g r)\<lparr>fr_accounting := acc (fr_accounting (g r))\<rparr>"])
      (simp add: g_def release_reserved_def)
qed

lemma keeps_attempt_closed:
  assumes "closing st"
  shows "keeps k s (apply_attempt_closed attempt st detail now s)"
proof (rule keepsI)
  assume wf: "core_wf s"
  show ?thesis
  proof (cases "\<exists>rec. attempt_live s attempt rec")
    case True
    then obtain rec where rec: "attempt_live s attempt rec" by blast
    have "\<not> holds_attempt (settled st)" by (cases st) simp_all
    moreover have "ar_ticket (close_record st detail now rec) = ar_ticket rec"
      "is_attempt_terminal (ar_state (close_record st detail now rec))" for rec
      using assms by (auto simp: close_record_def closing_def)
    moreover obtain note_step g where "quiet note_step"
      and g: "\<And>r. fr_lifecycle (g r) = fr_lifecycle r \<and> fr_open_attempt (g r) = unbound
        \<and> fr_descriptor (g r) = fr_descriptor r \<and> fr_served_work r \<le> fr_served_work (g r)"
      and eq: "apply_attempt_closed attempt st detail now s = modify_flow (dt_flow (ar_ticket rec)) note_step
        (set_lifecycle (dt_flow (ar_ticket rec)) (settled st) now
          (let_go attempt (close_record st detail now) (ar_ticket rec) g s))"
      using attempt_closed_eq [OF wf rec assms, of detail now] by blast
    ultimately show ?thesis
      unfolding eq by (intro keeps_then_quiet keeps_let_go [OF wf rec, where m = "close_record st detail now"
          and g = g]) (simp_all add: g)
  next
    case False
    then have "apply_attempt_closed attempt st detail now s = s"
      by (auto simp: apply_attempt_closed_def attempt_live_def split: option.split)
    then show ?thesis by (simp add: keeps_refl)
  qed
qed

section \<open>Completion\<close>

lemma settle_completion_simps [simp]:
  "fr_lifecycle (settle_completion q c r) = fr_lifecycle r"
  "fr_open_attempt (settle_completion q c r) = unbound"
  "fr_descriptor (settle_completion q c r) = fr_descriptor r"
  "fr_served_work (settle_completion q c r) = (if c > 0 then saturating_add (fr_served_work r) c else fr_served_work r)"
  by (simp_all add: settle_completion_def count_completion_def credit_flow_def clear_scheduled_def
      release_reserved_def)

definition commit_record :: "completion_evidence \<Rightarrow> u64 \<Rightarrow> ticks \<Rightarrow> attempt_runtime \<Rightarrow> attempt_runtime" where
  "commit_record ev credited now rec = rec\<lparr>ar_state := AttemptCommitted, ar_closed_tick := now,
     ar_has_evidence := True, ar_evidence_digest := evidence_digest ev, ar_credited := credited\<rparr>"

lemma apply_completion_eq:
  assumes rec: "attempt_live s (ce_attempt ev) rec" "dt_flow (ar_ticket rec) = ce_flow ev"
    and flow: "om_find (ce_flow ev) (im_flows s) = Some r"
  shows "\<exists>note_step t. quiet note_step
    \<and> same_core (let_go (ce_attempt ev) (commit_record ev credited now) (ar_ticket rec)
        (settle_completion (dt_quantum (ar_ticket rec)) credited) s) t
    \<and> apply_completion ev credited after now s =
        modify_flow (ce_flow ev) note_step (set_lifecycle (ce_flow ev) after now t)"
proof -
  let ?t = "let_go (ce_attempt ev) (commit_record ev credited now) (ar_ticket rec)
        (settle_completion (dt_quantum (ar_ticket rec)) credited) s"
  have "apply_completion ev credited after now s = modify_flow (ce_flow ev) (record_step now after ReasonSelected
      (dt_schedule (ar_ticket rec)) (ce_attempt ev) (lit ''completion committed with '' @ dec credited
        @ lit '' units credited''))
      (set_lifecycle (ce_flow ev) after now (?t\<lparr>im_completions_applied := im_completions_applied ?t + 1\<rparr>))"
    using assms by (simp add: apply_completion_def attempt_live_def Let_def let_go_def commit_record_def [abs_def])
  moreover have "same_core ?t (?t\<lparr>im_completions_applied := im_completions_applied ?t + 1\<rparr>)"
    by (rule same_coreI) simp_all
  ultimately show ?thesis using quiet_updates(1) by blast
qed

lemma keeps_completion:
  assumes "attempt_live s (ce_attempt ev) rec" "dt_flow (ar_ticket rec) = ce_flow ev"
    and "om_find (ce_flow ev) (im_flows s) = Some r" "\<not> holds_attempt after"
  shows "keeps k s (apply_completion ev credited after now s)"
proof (rule keepsI)
  assume wf: "core_wf s"
  obtain note_step t where "quiet note_step" and t: "same_core (let_go (ce_attempt ev)
      (commit_record ev credited now) (ar_ticket rec) (settle_completion (dt_quantum (ar_ticket rec)) credited) s) t"
    and eq: "apply_completion ev credited after now s =
      modify_flow (ce_flow ev) note_step (set_lifecycle (ce_flow ev) after now t)"
    using apply_completion_eq [OF assms(1-3)] by blast
  have "keeps k s (set_lifecycle (dt_flow (ar_ticket rec)) after now t)"
    by (rule keeps_let_go [OF wf assms(1) _ _ _ assms(4) t])
      (simp_all add: commit_record_def saturating_add_ge)
  with \<open>quiet note_step\<close> show ?thesis unfolding eq assms(2) by (intro keeps_then_quiet)
qed

lemma keeps_rederive_readiness:
  assumes "\<And>r. om_find flow (im_flows s) = Some r \<Longrightarrow> fr_lifecycle r = FlowWaiting"
  shows "keeps k s (rederive_readiness flow credited now s)"
  unfolding rederive_readiness_def
  by (auto split: option.split intro!: keeps_steps dest: assms)

section \<open>Cancellation and transient states\<close>

lemma keeps_release_scheduled_entry: "keeps k s (release_scheduled_entry flow now s)"
  unfolding release_scheduled_entry_def
  by (auto split: option.split intro: keeps_release_run_entry keeps_refl)

lemma keeps_normalize_flow: "keeps k s (normalize_flow now flow s)"
  unfolding normalize_flow_def by (auto split: option.split intro!: keeps_steps)

lemma keeps_normalize: "keeps k s (normalize_transient_states now s)"
  unfolding normalize_transient_states_def by (intro keeping.fold_steps keeps_normalize_flow)

lemma release_run_entry_lifecycle:
  assumes "om_find k (im_flows (release_run_entry schedule index now s)) = Some r'"
  shows "\<exists>r. om_find k (im_flows s) = Some r
    \<and> (fr_lifecycle r' = fr_lifecycle r \<or> fr_lifecycle r = FlowScheduled \<and> fr_lifecycle r' = FlowReady)"
  using assms unfolding release_run_entry_def Let_def reclaim_entry_def
  by (auto split: option.splits if_splits simp: clear_scheduled_def release_reserved_def)

lemma release_scheduled_entry_lifecycle:
  assumes "om_find k (im_flows (release_scheduled_entry flow now s)) = Some r'"
  shows "\<exists>r. om_find k (im_flows s) = Some r
    \<and> (fr_lifecycle r' = fr_lifecycle r \<or> fr_lifecycle r = FlowScheduled \<and> fr_lifecycle r' = FlowReady)"
  using assms unfolding release_scheduled_entry_def
  by (auto split: option.splits if_splits dest: release_run_entry_lifecycle)

lemma attempt_closed_lifecycle:
  assumes "core_wf s" "attempt_live s attempt rec" "closing st"
    and "om_find (dt_flow (ar_ticket rec)) (im_flows (apply_attempt_closed attempt st detail now s)) = Some r'"
  shows "fr_lifecycle r' = settled st"
  using attempt_closed_eq [OF assms(1-3), of detail now] assms(4)
  by (auto simp: quiet_def let_go_flows)

lemma keeps_apply_cancel:
  assumes "\<And>r. om_find flow (im_flows s) = Some r \<Longrightarrow> \<not> is_terminal (fr_lifecycle r)"
  shows "keeps k s (apply_cancel flow generation now s)"
proof (rule keepsI)
  assume wf: "core_wf s"
  show ?thesis
  proof (cases "current_flow flow generation s")
    case (Some r)
    then have r: "om_find flow (im_flows s) = Some r" by (auto simp: current_flow_def split: option.splits if_splits)
    define s1 where "s1 = (if id_valid (fr_open_attempt r)
      then apply_attempt_closed (fr_open_attempt r) AttemptCancelled (lit ''flow cancelled'') now s else s)"
    have keep1: "keeps k s s1"
      by (auto simp: s1_def closing_def intro: keeps_attempt_closed keeps_refl)
    have mid: "\<not> is_terminal (fr_lifecycle r1) \<and> \<not> holds_attempt (fr_lifecycle r1)"
      if "om_find flow (im_flows s1) = Some r1" for r1
    proof (cases "id_valid (fr_open_attempt r)")
      case True
      then obtain rec where "attempt_live s (fr_open_attempt r) rec" "dt_flow (ar_ticket rec) = flow"
        using attempt_held_live [OF wf r] by blast
      with that True have "fr_lifecycle r1 = FlowCancelling"
        using attempt_closed_lifecycle [OF wf, of "fr_open_attempt r" rec AttemptCancelled]
        by (auto simp: s1_def closing_def)
      then show ?thesis by simp
    next
      case False
      then show ?thesis using that r assms core_wf_flow [OF wf r] by (auto simp: s1_def flow_ok_def)
    qed
    let ?s2 = "release_scheduled_entry flow now s1"
    have "keeps k s (set_lifecycle flow FlowCancelled now ?s2)"
      by (rule keeps_then_set [OF _ keeps_trans [OF keep1 keeps_release_scheduled_entry]])
        (auto dest!: release_scheduled_entry_lifecycle dest: mid)
    moreover have "quiet (\<lambda>r. (clear_scheduled r)\<lparr>fr_outstanding_reserved := 0\<rparr>)"
      by (simp add: quiet_def clear_scheduled_def)
    ultimately show ?thesis
      unfolding apply_cancel_def by (simp add: Some Let_def s1_def [symmetric] keeps_then_quiet)
  qed (simp add: apply_cancel_def keeps_refl)
qed

end
