(* ===== verification/Preservation.thy ===== *)
theory Preservation
  imports Lifecycle
begin

text \<open>
  The remaining transitions keep the invariant of \<open>Lifecycle\<close>: flows enter and leave the table,
  schedules are issued and retired, and an epoch retires all dispatch authority.
\<close>

lemma closing_states [simp]:
  "closing AttemptPreempted" "closing AttemptCancelled" "closing AttemptAbandoned" "closing AttemptRejected"
  by (simp_all add: closing_def)

section \<open>Flows enter and leave the table\<close>

lemma same_authority_flows:
  assumes "attempt_held t = attempt_held s" "im_schedules t = im_schedules s"
    "im_attempts t = im_attempts s" "im_schedule_attempts t = im_schedule_attempts s"
    "im_next_attempt t = im_next_attempt s" "im_next_schedule t = im_next_schedule s"
  shows "authority_wf t = authority_wf s"
  using assms by (intro authority_wf_cong) (simp add: same_authority_def counter_of_def fun_eq_iff)

lemma keeps_apply_admit:
  assumes new: "om_find (fd_flow d) (im_flows s) = None"
  shows "keeps k s (snd (apply_admit d s))"
  unfolding keeps_def
proof
  assume wf: "core_wf s"
  show "core_wf (snd (apply_admit d s)) \<and> evolves k s (snd (apply_admit d s))"
  proof (cases "length (im_flows s) \<ge> unat (sp_max_flows (im_policy s))")
    case False
    define r where "r = admitted_flow d 0"
    define t where "t = s\<lparr>im_flows := om_put (fd_flow d) r (im_flows s),
      im_ready_index := os_erase (fd_flow d) (im_ready_index s),
      im_inflight_index := os_erase (fd_flow d) (im_inflight_index s),
      im_waiting_index := os_insert (fd_flow d) (im_waiting_index s)\<rparr>"
    have t: "snd (apply_admit d s) = t" using False new by (simp add: apply_admit_def t_def r_def)
    have r: "fr_lifecycle r = FlowWaiting" "fr_open_attempt r = unbound" "fr_descriptor r = d"
      by (simp_all add: r_def admitted_flow_def)
    have slots: "in_slot t n = (if n = 1 then insert (fd_flow d) (in_slot s n) else in_slot s n)" for n
      using new r by (auto simp: in_slot_def t_def split: if_splits)
    have out: "fd_flow d \<notin> in_slot s n" for n using new by (simp add: in_slot_def)
    have "flows_wf t"
      using core_wf_tables [OF wf] r by (auto simp: tables_wf_def flows_wf_def t_def om_wf_put split: if_splits)
    moreover have "index_wf t"
      using core_wf_tables [OF wf] out unfolding index_wf_def slots
      by (auto simp: tables_wf_def index_wf_def t_def os_wf_insert os_wf_erase)
    moreover have "attempt_held t = attempt_held s"
      using new r by (auto simp: attempt_held_def t_def fun_eq_iff)
    then have "authority_wf t = authority_wf s" by (rule same_authority_flows) (simp_all add: t_def)
    then have "authority_wf t" using core_wf_authority [OF wf] by simp
    moreover have "flow_ok r" using r by (simp add: flow_ok_def)
    then have "flow_ok r'" if "om_find j (im_flows t) = Some r'" for j r'
      using that core_wf_flow [OF wf] by (auto simp: t_def split: if_splits)
    ultimately show ?thesis
      using new by (auto simp: t core_wf_def tables_wf_def evolves_def t_def)
  qed (use wf new in \<open>simp add: apply_admit_def evolves_def\<close>)
qed

lemma keeps_apply_update:
  assumes "\<And>r. om_find (fd_flow d) (im_flows s) = Some r \<Longrightarrow>
    fd_generation (fr_descriptor r) \<le> fd_generation d"
  shows "keeps k s (snd (apply_update d s))"
proof -
  have "keeps k s (modify_flow (fd_flow d) (\<lambda>r. r\<lparr>fr_descriptor := d\<rparr>) s)"
  proof (rule keeps_one_flow [of _ "fd_flow d" "\<lambda>r. r\<lparr>fr_descriptor := d\<rparr>"])
    show "tables_wf (modify_flow (fd_flow d) (\<lambda>r. r\<lparr>fr_descriptor := d\<rparr>) s)" if "core_wf s"
      using that core_wf_key [OF that] by (intro tables_wf_modify_flow) (auto simp: core_wf_tables)
  qed (use assms in \<open>auto simp: flow_ok_def progress_def core_wf_def authority_wf_modify_flow\<close>)
  then show ?thesis by (auto simp: apply_update_def keeps_refl split: option.split)
qed

lemma apply_retire_flow_keeps:
  assumes wf: "core_wf s" and gone: "\<And>r. om_find flow (im_flows s) = Some r \<Longrightarrow> is_terminal (fr_lifecycle r)"
  shows "core_wf (apply_retire_flow flow generation s)
    \<and> (k \<noteq> flow \<longrightarrow> evolves k s (apply_retire_flow flow generation s))"
proof (cases "current_flow flow generation s")
  case (Some r)
  then have r: "om_find flow (im_flows s) = Some r" by (auto simp: current_flow_def split: option.splits if_splits)
  define t where "t = apply_retire_flow flow generation s"
  have fields: "im_flows t = om_erase flow (im_flows s)"
    "im_waiting_index t = os_erase flow (im_waiting_index s)"
    "im_ready_index t = os_erase flow (im_ready_index s)"
    "im_inflight_index t = os_erase flow (im_inflight_index s)"
    by (simp_all add: t_def apply_retire_flow_def Some)
  have slots: "in_slot t n = in_slot s n - {flow}" for n
    by (auto simp: in_slot_def fields split: if_splits)
  have "tables_wf t"
    using core_wf_tables [OF wf]
    by (auto simp: tables_wf_def flows_wf_def index_wf_def fields slots om_wf_erase os_wf_erase split: if_splits)
  moreover have "\<not> id_valid (fr_open_attempt r)"
    using core_wf_flow [OF wf r] gone [OF r] terminal_no_attempt by (auto simp: flow_ok_def)
  then have "attempt_held t = attempt_held s"
    using r by (auto simp: attempt_held_def fields fun_eq_iff)
  then have "authority_wf t = authority_wf s"
    by (rule same_authority_flows) (simp_all add: t_def apply_retire_flow_def Some)
  then have "authority_wf t" using core_wf_authority [OF wf] by simp
  moreover have "flow_ok r'" if "om_find j (im_flows t) = Some r'" for j r'
    using that core_wf_flow [OF wf] by (auto simp: fields split: if_splits)
  ultimately have "core_wf t" by (simp add: core_wf_def)
  moreover have "evolves k s t" if "k \<noteq> flow" using that by (simp add: evolves_def fields)
  ultimately show ?thesis by (simp add: t_def)
qed (simp add: apply_retire_flow_def wf evolves_def)

section \<open>Schedules are issued and retired\<close>

definition with_ids :: "schedule_id \<Rightarrow> generation \<Rightarrow> impl \<Rightarrow> impl" where
  "with_ids i g s = s\<lparr>im_next_schedule := i, im_next_schedule_generation := g\<rparr>"

lemma with_ids_commute:
  "modify_flow k f (with_ids i g s) = with_ids i g (modify_flow k f s)"
  "modify_schedule j h (with_ids i g s) = with_ids i g (modify_schedule j h s)"
  "set_lifecycle k next now (with_ids i g s) = with_ids i g (set_lifecycle k next now s)"
  "charge_resource e (with_ids i g s) = with_ids i g (charge_resource e s)"
  "charge_reservation e (with_ids i g s) = with_ids i g (charge_reservation e s)"
  "advance_clock r (with_ids i g s) = with_ids i g (advance_clock r s)"
proof -
  have enter: "enter_lifecycle (with_ids i g s) = enter_lifecycle s"
    by (intro ext) (simp add: enter_lifecycle_def stamp_virtual_finish_def virtual_clock_def with_ids_def Let_def)
  have index: "index_insert n k (with_ids i g s) = with_ids i g (index_insert n k s)"
    "index_erase n k (with_ids i g s) = with_ids i g (index_erase n k s)" for n k s
    by (simp_all add: index_insert_def index_erase_def with_ids_def)
  show flow: "modify_flow k f (with_ids i g s) = with_ids i g (modify_flow k f s)" for k f s
    by (simp add: with_ids_def modify_flow_def)
  have flows: "im_flows (with_ids i g s) = im_flows s" by (simp add: with_ids_def)
  show "set_lifecycle k next now (with_ids i g s) = with_ids i g (set_lifecycle k next now s)"
    unfolding set_lifecycle_def flows enter update_index_def flow index by (simp split: option.split)
  show "advance_clock r (with_ids i g s) = with_ids i g (advance_clock r s)"
    by (simp add: advance_clock_def virtual_clock_def with_ids_def Let_def)
qed (simp_all add: with_ids_def modify_schedule_def charge_resource_def modify_resource_def
    charge_reservation_def)

lemma with_ids_fields [simp]: "im_flows (with_ids i g s) = im_flows s" "im_policy (with_ids i g s) = im_policy s"
  by (simp_all add: with_ids_def)

lemma apply_schedule_entry_with_ids:
  "apply_schedule_entry sched e (with_ids i g s) = with_ids i g (apply_schedule_entry sched e s)"
  by (simp add: apply_schedule_entry_def place_flow_def with_ids_commute split: option.split)

lemma fold_with_ids:
  "with_ids i g (fold (apply_schedule_entry sched) es s) = fold (apply_schedule_entry sched) es (with_ids i g s)"
  by (induction es arbitrary: s) (simp_all add: apply_schedule_entry_with_ids)

lemma live_of_fresh: "identities_wf s \<Longrightarrow> live_of s (im_next_schedule s) = {}"
  unfolding identities_wf_def live_of_def attempt_live_def by fastforce

lemma authority_issue:
  assumes wf: "authority_wf s" and ids: "advance (im_next_schedule s) = Inr i"
    and t: "counter_of t = (counter_of s)(im_next_schedule s \<mapsto> 0)" "open_of t = open_of s"
      "im_attempts t = im_attempts s" "im_schedule_attempts t = im_schedule_attempts s"
      "im_next_attempt t = im_next_attempt s" "im_next_schedule t = i"
  shows "authority_wf t"
proof -
  have ident: "identities_wf s" using wf by (simp add: authority_wf_def)
  have live: "attempt_live t = attempt_live s" "live_of t = live_of s" "attempt_held t = attempt_held s"
    using t by (auto simp: attempt_live_def live_of_def attempt_held_open fun_eq_iff)
  have newer: "j < i" if "j < im_next_schedule s \<or> j = im_next_schedule s" for j
    using that advance_greater [OF ids] by auto
  have "counters_wf t"
    using wf live_of_fresh [OF ident] by (auto simp: authority_wf_def counters_wf_alt live t(1))
  moreover have "om_find j (im_schedules t) \<noteq> None \<longleftrightarrow>
      j = im_next_schedule s \<or> om_find j (im_schedules s) \<noteq> None" for j
    unfolding schedule_known_counter t(1) by auto
  then have "identities_wf t"
    using ident newer unfolding identities_wf_def t(3-6) by blast
  ultimately show ?thesis using wf by (simp add: authority_wf_def holders_wf_def live)
qed

lemma keeps_issue_schedule:
  assumes ids: "advance (im_next_schedule s) = Inr i"
    and sched: "sc_schedule sched = im_next_schedule s"
  shows "keeps k s (with_ids i g (apply_schedule sched s))"
proof -
  define base where "base = s\<lparr>im_schedules := om_put (sc_schedule sched)
      \<lparr>sr_schedule = sched, sr_consumed = replicate (length (sc_entries sched)) 0,
       sr_open_attempts = 0, sr_pending_entries = 0\<rparr> (im_schedules s),
    im_schedule_order := im_schedule_order s @ [sc_schedule sched],
    im_schedules_issued := im_schedules_issued s + 1,
    im_schedule_entries_issued := im_schedule_entries_issued s + of_nat (length (sc_entries sched))\<rparr>"
  have "keeps k s (with_ids i g base)"
  proof (rule keeps_same_flows)
    show "authority_wf (with_ids i g base)" if "core_wf s"
      by (rule authority_issue [OF core_wf_authority [OF that] ids])
        (simp_all add: with_ids_def base_def counter_of_def open_of_def sched fun_eq_iff)
  qed (simp_all add: with_ids_def base_def)
  then have "keeps k s (fold (apply_schedule_entry sched) (sc_entries sched) (with_ids i g base))"
    by (rule keeps_trans) (intro keeping.fold_steps keeps_apply_schedule_entry)
  then show ?thesis by (simp add: apply_schedule_def base_def fold_with_ids)
qed

lemma find_fold_erase: "om_find c (fold om_erase as m) = (if c \<in> set as then None else om_find c m)"
  by (induction as arbitrary: m) auto

lemma om_wf_fold_erase: "om_wf m \<Longrightarrow> om_wf (fold om_erase as m)"
  by (induction as arbitrary: m) (auto simp: om_wf_erase)

lemma authority_drop:
  assumes wf: "authority_wf s" and idle: "counter_of s i = Some 0"
  shows "authority_wf (drop_schedule i s)"
proof -
  let ?t = "drop_schedule i s"
  let ?as = "case om_find i (im_schedule_attempts s) of None \<Rightarrow> [] | Some as \<Rightarrow> as"
  have ident: "identities_wf s" using wf by (simp add: authority_wf_def)
  have "card (live_of s i) = 0"
    using wf idle by (metis authority_wf_def counters_wf_alt unat_0)
  then have none: "live_of s i = {}" using live_of_bound(1) [OF ident, of i] by simp
  have fields: "im_attempts ?t = fold om_erase ?as (im_attempts s)"
      "counter_of ?t = (counter_of s)(i := None)" "open_of ?t = open_of s"
      "im_next_attempt ?t = im_next_attempt s" "im_next_schedule ?t = im_next_schedule s"
    and owners: "om_find j (im_schedule_attempts ?t) = (if j = i then None else om_find j (im_schedule_attempts s))" for j
    by (auto simp: drop_schedule_def counter_of_def open_of_def fun_eq_iff split: option.split)
  have "c \<notin> set ?as" if "attempt_live s c rec" for c rec
  proof
    assume "c \<in> set ?as"
    then obtain as where "om_find i (im_schedule_attempts s) = Some as" "c \<in> set as"
      by (cases "om_find i (im_schedule_attempts s)") auto
    then have "dt_schedule (ar_ticket rec) = i"
      using that ident unfolding identities_wf_def attempt_live_def by blast
    then show False using that none by (auto simp: live_of_def)
  qed
  then have live: "attempt_live ?t = attempt_live s"
    by (auto simp: attempt_live_def fields find_fold_erase fun_eq_iff)
  then have same: "live_of ?t = live_of s" "attempt_held ?t = attempt_held s"
    by (auto simp: live_of_def attempt_held_open fields fun_eq_iff)
  have "counters_wf ?t" using wf by (auto simp: authority_wf_def counters_wf_alt fields same split: if_splits)
  moreover have "om_find j (im_schedules ?t) \<noteq> None \<Longrightarrow> om_find j (im_schedules s) \<noteq> None" for j
    unfolding schedule_known_counter fields by (simp split: if_splits)
  then have "identities_wf ?t"
    using ident unfolding identities_wf_def fields owners
    by (auto simp: find_fold_erase om_wf_fold_erase split: if_splits)
  ultimately show ?thesis using wf by (simp add: authority_wf_def holders_wf_def live same)
qed

lemma keeps_retire_loop: "keeps k s (retire_loop queue s)"
proof (induction queue s rule: retire_loop.induct)
  case (2 front rest s)
  have order: "keeps k s (s\<lparr>im_schedule_order := q\<rparr>)" for q
    by (rule keeps_same_core, rule same_coreI) simp_all
  have "keeps k s (drop_schedule front s)"
    if "find_schedule s front = Some sr" "\<not> sr_open_attempts sr > 0" for sr
  proof (rule keeps_same_flows)
    have "counter_of s front = Some 0" using that by (simp add: find_schedule_def counter_of_def word_pos_iff)
    then show "core_wf s \<Longrightarrow> authority_wf (drop_schedule front s)"
      by (simp add: authority_drop core_wf_authority)
  qed (simp_all add: drop_schedule_def split: option.split)
  then show ?case
    using 2 order by (auto split: option.split intro: keeps_trans simp: Let_def)
qed (auto intro!: keeps_same_core same_coreI)

section \<open>Epochs\<close>

definition live_ids :: "impl \<Rightarrow> attempt_id set" where
  "live_ids s = {a. \<exists>rec. attempt_live s a rec}"

lemma settle_flow_attempts [simp]: "im_attempts (settle_flow rec a st d now s) = im_attempts s"
  by (simp add: settle_flow_def Let_def split: attempt_state.split)

lemma attempts_closed:
  "im_attempts (apply_attempt_closed a st d now s) =
     (if a \<in> live_ids s then om_modify a (close_record st d now) (im_attempts s) else im_attempts s)"
  by (auto simp: apply_attempt_closed_def live_ids_def attempt_live_def Let_def modify_attempt_def
      close_record_def [abs_def] split: option.split)

lemma live_ids_closed:
  assumes "closing st"
  shows "live_ids (apply_attempt_closed a st d now s) = live_ids s - {a}"
  using assms unfolding live_ids_def attempt_live_def attempts_closed
  by (auto simp: live_ids_def attempt_live_def close_record_def closing_def)

lemma live_ids_fold_closed:
  assumes "closing st"
  shows "live_ids (fold (\<lambda>a s. let s' = apply_attempt_closed a st d now s in
      s'\<lparr>im_recovery := f (im_recovery s')\<rparr>) as s) = live_ids s - set as"
proof (induction as arbitrary: s)
  case (Cons a as)
  have "live_ids (s'\<lparr>im_recovery := x\<rparr>) = live_ids s'" for s' x
    by (simp add: live_ids_def attempt_live_def)
  with Cons show ?case using live_ids_closed [OF assms] by (auto simp: Let_def)
qed simp

lemma set_open_attempts: "om_wf (im_attempts s) \<Longrightarrow> set (open_attempts s) = live_ids s"
  by (force simp: open_attempts_def live_ids_def attempt_live_def om_find_eq_Some)

lemma release_attempts [simp]:
  "im_attempts (release_run_entry i n now s) = im_attempts s"
  "im_attempts (apply_release_schedule i now s) = im_attempts s"
  "im_attempts (normalize_transient_states now s) = im_attempts s"
proof -
  show run: "im_attempts (release_run_entry i n now s) = im_attempts s" for n s
    by (simp add: release_run_entry_def reclaim_entry_def Let_def split: option.split)
  have "im_attempts (fold (\<lambda>n. release_run_entry i n now) ns s) = im_attempts s" for ns
    by (induction ns arbitrary: s) (simp_all add: run)
  then show "im_attempts (apply_release_schedule i now s) = im_attempts s"
    by (simp add: apply_release_schedule_def split: option.split)
  have "im_attempts (fold (normalize_flow now) ks s) = im_attempts s" for ks
    by (induction ks arbitrary: s) (simp_all add: normalize_flow_def split: option.split)
  then show "im_attempts (normalize_transient_states now s) = im_attempts s"
    by (simp add: normalize_transient_states_def)
qed

lemma live_ids_abandoned:
  assumes "om_wf (im_attempts s)"
  shows "live_ids (abandon_open_attempts now d s) = {}"
proof -
  have "im_attempts (fold (\<lambda>i. apply_release_schedule i now) is s) = im_attempts s" for "is" s
    by (induction "is" arbitrary: s) simp_all
  then show ?thesis
    using live_ids_fold_closed [of AttemptAbandoned d now _ "open_attempts s" s] set_open_attempts [OF assms]
    by (simp add: abandon_open_attempts_def live_ids_def attempt_live_def Let_def closing_def)
qed

lemma keeps_abandon: "keeps k s (abandon_open_attempts now d s)"
proof -
  let ?close = "\<lambda>a s. let s' = apply_attempt_closed a AttemptAbandoned d now s in
    s'\<lparr>im_recovery := (im_recovery s')\<lparr>rp_attempts_abandoned := rp_attempts_abandoned (im_recovery s') + 1\<rparr>\<rparr>"
  have "keeps k s (?close a s)" for a s
    unfolding Let_def
    by (rule keeps_then_same [OF same_coreI keeps_attempt_closed [OF closing_states(3)]]) simp_all
  then have close: "keeps k s (fold ?close (open_attempts s) s)" by (intro keeping.fold_steps)
  have release: "keeps k t (fold (\<lambda>i. apply_release_schedule i now) is t)" for "is" t
    by (intro keeping.fold_steps keeps_apply_release_schedule)
  show ?thesis
    unfolding abandon_open_attempts_def Let_def [of "fold ?close (open_attempts s) s"]
      Let_def [of "fold (\<lambda>i. apply_release_schedule i now) _ _"]
    by (rule keeps_trans [OF keeps_trans [OF close release] keeps_normalize])
qed

lemma reindex_fold:
  defines "step \<equiv> \<lambda>(flow, r). index_insert (index_slot (fr_lifecycle r)) flow"
  assumes "os_wf (im_waiting_index s)" "os_wf (im_ready_index s)" "os_wf (im_inflight_index s)"
  shows "os_wf (im_waiting_index (fold step m s)) \<and> os_wf (im_ready_index (fold step m s))
    \<and> os_wf (im_inflight_index (fold step m s))
    \<and> set (im_waiting_index (fold step m s)) = set (im_waiting_index s) \<union> {k. \<exists>r. (k, r) \<in> set m \<and> index_slot (fr_lifecycle r) = 1}
    \<and> set (im_ready_index (fold step m s)) = set (im_ready_index s) \<union> {k. \<exists>r. (k, r) \<in> set m \<and> index_slot (fr_lifecycle r) = 2}
    \<and> set (im_inflight_index (fold step m s)) = set (im_inflight_index s) \<union> {k. \<exists>r. (k, r) \<in> set m \<and> index_slot (fr_lifecycle r) = 3}
    \<and> im_flows (fold step m s) = im_flows s"
  using assms(2-)
proof (induction m arbitrary: s)
  case (Cons e m)
  obtain k r where e: "e = (k, r)" by (cases e)
  let ?t = "index_insert (index_slot (fr_lifecycle r)) k s"
  have "os_wf (im_waiting_index ?t)" "os_wf (im_ready_index ?t)" "os_wf (im_inflight_index ?t)"
    using Cons.prems by (simp_all add: index_insert_def os_wf_insert)
  note IH = Cons.IH [OF this]
  have "fold step (e # m) s = fold step m ?t" by (simp add: e step_def)
  with IH show ?case
    using index_slot_cases [of "fr_lifecycle r"] by (auto simp: e index_insert_def split: if_splits)
qed simp

lemma tables_wf_reindex: "flows_wf s \<Longrightarrow> tables_wf (reindex_all s)"
  using reindex_fold [of "s\<lparr>im_waiting_index := [], im_ready_index := [], im_inflight_index := []\<rparr>" "im_flows s"]
  by (simp add: reindex_all_def tables_wf_def flows_wf_def index_wf_def in_slot_def om_find_eq_Some)

lemma reindex_fields [simp]:
  "im_flows (reindex_all s) = im_flows s" "im_next_attempt (reindex_all s) = im_next_attempt s"
  "im_next_schedule (reindex_all s) = im_next_schedule s"
proof -
  let ?step = "\<lambda>(k, r :: flow_runtime). index_insert (index_slot (fr_lifecycle r)) k"
  have "im_flows (fold ?step m s) = im_flows s \<and> im_next_attempt (fold ?step m s) = im_next_attempt s \<and>
    im_next_schedule (fold ?step m s) = im_next_schedule s" for m s
    by (induction m arbitrary: s) auto
  then show "im_flows (reindex_all s) = im_flows s" "im_next_attempt (reindex_all s) = im_next_attempt s"
    "im_next_schedule (reindex_all s) = im_next_schedule s"
    by (simp_all add: reindex_all_def)
qed

lemma om_find_map_values: "om_find k (map (\<lambda>(k, v). (k, f v)) m) = map_option f (om_find k m)"
  by (induction m) auto

lemma om_wf_map_values: "om_wf (map (\<lambda>(k, v). (k, f v)) m) = om_wf m"
  by (simp add: om_wf_def om_keys_def comp_def case_prod_beta)

lemma retire_flow_authority_simps [simp]:
  "fr_lifecycle (retire_flow_authority r) = fr_lifecycle r"
  "fr_open_attempt (retire_flow_authority r) = fr_open_attempt r"
  "fr_descriptor (retire_flow_authority r) = fr_descriptor r"
  "fr_served_work (retire_flow_authority r) = fr_served_work r"
  by (simp_all add: retire_flow_authority_def clear_scheduled_def)

lemma keeps_epoch_advance: "keeps k s (apply_epoch_advance previous nxt reason now s)"
proof (rule keepsI)
  assume wf: "core_wf s"
  define d where "d = lit ''epoch advanced: prior dispatch authority retired''"
  define s1 where "s1 = abandon_open_attempts now d s"
  define t where "t = apply_epoch_advance previous nxt reason now s"
  have keep: "keeps k s s1" by (simp add: s1_def keeps_abandon)
  then have wf1: "core_wf s1" using wf by (simp add: keeps_def)
  have "om_wf (im_attempts s)" using wf by (simp add: core_wf_def authority_wf_def identities_wf_def)
  then have "live_ids s1 = {}" by (simp add: s1_def live_ids_abandoned)
  then have none: "\<not> attempt_held s1 j a" for j a
    using wf1 by (auto simp: core_wf_def authority_wf_def holders_wf_def live_ids_def)
  have "\<exists>w. t = (reindex_all w)\<lparr>im_schedules := [], im_schedule_attempts := [], im_schedule_order := [],
      im_attempts := [], im_epoch := nxt, im_preemptions_in_window := 0, im_preemption_window_index := 0\<rparr>
    \<and> im_flows w = map (\<lambda>(k, r). (k, retire_flow_authority r)) (im_flows s1)
    \<and> im_next_attempt w = im_next_attempt s1"
    unfolding t_def apply_epoch_advance_def Let_def s1_def d_def by (rule exI, rule conjI, rule refl) simp
  then obtain w where t: "t = (reindex_all w)\<lparr>im_schedules := [], im_schedule_attempts := [],
      im_schedule_order := [], im_attempts := [], im_epoch := nxt, im_preemptions_in_window := 0,
      im_preemption_window_index := 0\<rparr>"
    and w: "im_flows w = map (\<lambda>(k, r). (k, retire_flow_authority r)) (im_flows s1)"
      "im_next_attempt w = im_next_attempt s1" by blast
  have find: "om_find j (im_flows t) = map_option retire_flow_authority (om_find j (im_flows s1))" for j
    by (simp add: t w om_find_map_values)
  have "flows_wf w"
    using core_wf_tables [OF wf1]
    by (auto simp: w tables_wf_def flows_wf_def om_find_map_values om_wf_map_values)
  then have "tables_wf t" using tables_wf_reindex [of w] tables_wf_cong [of t "reindex_all w"] by (simp add: t)
  moreover have held: "\<not> attempt_held t j a" for j a
    using none [of j a] by (auto simp: attempt_held_def find)
  then have "authority_wf t"
    using core_wf_authority [OF wf1] by (simp add: authority_defs attempt_live_def t w)
  ultimately have "core_wf t" using core_wf_flow [OF wf1] by (auto simp: core_wf_def find flow_ok_def)
  moreover have "evolves k s1 t" by (auto simp: evolves_def find progress_def)
  ultimately have "keeps k s1 t" by (simp add: keeps_def)
  then show "keeps k s (apply_epoch_advance previous nxt reason now s)"
    using keep unfolding t_def by (rule keeps_trans [rotated])
qed

end
