(* ===== verification/Snapshot.thy ===== *)
theory Snapshot
  imports Protocol Transitions
begin

text \<open>
  The image of the whole state that a checkpoint installs (\<^verbatim>\<open>encode_state_snapshot\<close> and
  \<^verbatim>\<open>apply_state_snapshot\<close> of \<^verbatim>\<open>src/scheduler.cpp\<close>).  Encoding runs through the tables in key order;
  loading reads them back one entry at a time and leaves what it loaded so far when it stops on an
  error.  The last section shows that loading an image yields the state that was encoded, without
  the diagnostic fields the image leaves out.
\<close>

section \<open>Runtime records\<close>

definition write_resource_runtime :: "resource_runtime \<Rightarrow> writing" where
  "write_resource_runtime rr = rw_block [
     write_resource (rr_descriptor rr), rw_u64 (rr_interval_index rr),
     rw_boolean (rr_interval_initialized rr), rw_u64 (rr_reserved_this_interval rr),
     rw_u64 (rr_in_flight rr)]"

definition read_resource_runtime :: "resource_runtime reader" where
  "read_resource_runtime = rd_bind read_resource (\<lambda>x0. rd_bind rd_u64 (\<lambda>x1. rd_bind rd_boolean (\<lambda>x2.
     rd_bind rd_u64 (\<lambda>x3. rd_bind rd_u64 (\<lambda>x4. rd_return
       \<lparr>rr_descriptor = x0, rr_interval_index = x1, rr_interval_initialized = x2,
        rr_reserved_this_interval = x3, rr_in_flight = x4\<rparr>)))))"

definition write_reservation_runtime :: "reservation_runtime \<Rightarrow> writing" where
  "write_reservation_runtime rv = rw_block [
     write_reservation (rv_descriptor rv), rw_u64 (rv_reserved_units rv), rw_boolean (rv_retired rv)]"

definition read_reservation_runtime :: "reservation_runtime reader" where
  "read_reservation_runtime = rd_bind read_reservation (\<lambda>x0. rd_bind rd_u64 (\<lambda>x1.
     rd_bind rd_boolean (\<lambda>x2. rd_return
       \<lparr>rv_descriptor = x0, rv_reserved_units = x1, rv_retired = x2\<rparr>)))"

definition write_accounting :: "flow_accounting \<Rightarrow> writing" where
  "write_accounting a = rw_block [
     rw_u64 (fa_service_credit a), rw_u64 (fa_dispatches_issued a), rw_u64 (fa_dispatches_started a),
     rw_u64 (fa_completions_committed a), rw_u64 (fa_duplicate_completions a),
     rw_u64 (fa_rejected_completions a), rw_u64 (fa_preemptions a), rw_u64 (fa_deadline_misses a),
     rw_u64 (fa_wait_ticks_total a), rw_u64 (fa_starvation_boosts a)]"

definition read_accounting :: "flow_accounting reader" where
  "read_accounting =
     rd_bind rd_u64 (\<lambda>x0. rd_bind rd_u64 (\<lambda>x1. rd_bind rd_u64 (\<lambda>x2. rd_bind rd_u64 (\<lambda>x3.
     rd_bind rd_u64 (\<lambda>x4. rd_bind rd_u64 (\<lambda>x5. rd_bind rd_u64 (\<lambda>x6. rd_bind rd_u64 (\<lambda>x7.
     rd_bind rd_u64 (\<lambda>x8. rd_bind rd_u64 (\<lambda>x9. rd_return
       \<lparr>fa_service_credit = x0, fa_dispatches_issued = x1, fa_dispatches_started = x2,
        fa_completions_committed = x3, fa_duplicate_completions = x4, fa_rejected_completions = x5,
        fa_preemptions = x6, fa_deadline_misses = x7, fa_wait_ticks_total = x8,
        fa_starvation_boosts = x9\<rparr>))))))))))"

definition write_flow_runtime :: "flow_runtime \<Rightarrow> writing" where
  "write_flow_runtime r = rw_block [
     write_flow_descriptor (fr_descriptor r),
     rw_u8 (lifecycle_code (fr_lifecycle r)),
     rw_u64 (fr_served_work r),
     rw_u64 (fr_outstanding_reserved r),
     rw_id (fr_open_attempt r),
     rw_id (fr_scheduled_schedule r),
     rw_id (fr_scheduled_generation r),
     rw_u32 (fr_scheduled_ordinal r),
     rw_u64 (fr_scheduled_tick r),
     rw_u64 (fr_last_change_tick r),
     rw_u64 (fr_eligible_since_tick r),
     rw_boolean (fr_ever_ready r),
     rw_u64 (fr_min_service_window_start r),
     rw_u64 (fr_min_service_delivered r),
     rw_u64 (fr_virtual_finish r),
     rw_boolean (fr_deadline_missed_counted r),
     write_accounting (fr_accounting r)]"

text \<open>The fields the image does not hold keep the initialisers of \<^verbatim>\<open>FlowRuntime\<close>.\<close>

definition read_flow_runtime :: "flow_runtime reader" where
  "read_flow_runtime =
     rd_bind read_flow_descriptor (\<lambda>x0.
     rd_bind (rd_enum lifecycles) (\<lambda>x1.
     rd_bind rd_u64 (\<lambda>x2.
     rd_bind rd_u64 (\<lambda>x3.
     rd_bind rd_id (\<lambda>x4.
     rd_bind rd_id (\<lambda>x5.
     rd_bind rd_id (\<lambda>x6.
     rd_bind rd_u32 (\<lambda>x7.
     rd_bind rd_u64 (\<lambda>x8.
     rd_bind rd_u64 (\<lambda>x9.
     rd_bind rd_u64 (\<lambda>x10.
     rd_bind rd_boolean (\<lambda>x11.
     rd_bind rd_u64 (\<lambda>x12.
     rd_bind rd_u64 (\<lambda>x13.
     rd_bind rd_u64 (\<lambda>x14.
     rd_bind rd_boolean (\<lambda>x15.
     rd_bind read_accounting (\<lambda>x16. rd_return
       \<lparr>fr_descriptor = x0, fr_lifecycle = x1, fr_served_work = x2, fr_outstanding_reserved = x3,
        fr_open_attempt = x4, fr_scheduled_schedule = x5, fr_scheduled_generation = x6,
        fr_scheduled_ordinal = x7, fr_scheduled_tick = x8, fr_last_change_tick = x9,
        fr_eligible_since_tick = x10, fr_ever_ready = x11, fr_min_service_window_start = x12,
        fr_min_service_delivered = x13, fr_virtual_finish = x14, fr_deadline_missed_counted = x15,
        fr_starvation_counted = False, fr_accounting = x16, fr_history = [],
        fr_history_truncated = False\<rparr>)))))))))))))))))"

definition write_attempt_runtime :: "attempt_runtime \<Rightarrow> writing" where
  "write_attempt_runtime a = rw_block [
     write_ticket (ar_ticket a), rw_u8 (attempt_state_code (ar_state a)), rw_u64 (ar_opened_tick a),
     rw_u64 (ar_closed_tick a), rw_boolean (ar_has_evidence a), rw_u64 (ar_evidence_digest a),
     rw_u64 (ar_credited a)]"

definition read_attempt_runtime :: "attempt_runtime reader" where
  "read_attempt_runtime =
     rd_bind read_ticket (\<lambda>x0. rd_bind (rd_enum attempt_states) (\<lambda>x1. rd_bind rd_u64 (\<lambda>x2.
     rd_bind rd_u64 (\<lambda>x3. rd_bind rd_boolean (\<lambda>x4. rd_bind rd_u64 (\<lambda>x5. rd_bind rd_u64 (\<lambda>x6.
     rd_return \<lparr>ar_ticket = x0, ar_state = x1, ar_opened_tick = x2, ar_closed_tick = x3,
       ar_has_evidence = x4, ar_evidence_digest = x5, ar_credited = x6, ar_close_detail = []\<rparr>)))))))"

definition write_schedule_runtime :: "schedule_runtime \<Rightarrow> writing" where
  "write_schedule_runtime sr = rw_block [
     write_schedule (sr_schedule sr), rw_u64 (of_nat (length (sr_consumed sr))),
     rw_each rw_u8 (sr_consumed sr), rw_u64 (sr_open_attempts sr), rw_u64 (sr_pending_entries sr)]"

definition read_schedule_runtime :: "schedule_runtime reader" where
  "read_schedule_runtime = rd_bind read_schedule (\<lambda>x0. rd_bind rd_u64 (\<lambda>consumed_count.
     if unat consumed_count \<noteq> length (sc_entries x0) then rd_fail CorruptData
     else rd_bind (rd_times (unat consumed_count) (rd_bounded 2)) (\<lambda>x1.
     rd_bind rd_u64 (\<lambda>x2. rd_bind rd_u64 (\<lambda>x3. rd_return
       \<lparr>sr_schedule = x0, sr_consumed = x1, sr_open_attempts = x2, sr_pending_entries = x3\<rparr>)))))"

definition write_virtual_time :: "fairness_group_id \<times> u64 \<Rightarrow> writing" where
  "write_virtual_time e = rw_block [rw_id (fst e), rw_u64 (snd e)]"

definition read_virtual_time :: "(fairness_group_id \<times> u64) reader" where
  "read_virtual_time = rd_bind rd_id (\<lambda>group. rd_bind rd_u64 (\<lambda>v. rd_return (group, v)))"

section \<open>\<^verbatim>\<open>encode_state_snapshot\<close>\<close>

definition write_table :: "('v \<Rightarrow> writing) \<Rightarrow> 'v list \<Rightarrow> writing" where
  "write_table f vs = rw_seq (rw_u64 (of_nat (length vs))) (rw_each f vs)"

definition write_state :: "impl \<Rightarrow> writing" where
  "write_state s = rw_block [
     rw_u16 kDurableFormatGeneration,
     rw_id (im_epoch s),
     write_policy (im_policy s),
     rw_u64 (im_last_tick s),
     write_table write_resource_runtime (om_values (im_resources s)),
     write_table write_reservation_runtime (om_values (im_reservations s)),
     write_table write_priority_class (om_values (im_priority_classes s)),
     write_table write_qos_class (om_values (im_qos_classes s)),
     write_table write_flow_runtime (om_values (im_flows s)),
     write_table write_attempt_runtime (om_values (im_attempts s)),
     write_table write_schedule_runtime (om_values (im_schedules s)),
     write_table write_virtual_time (im_virtual_time s),
     rw_id (im_next_attempt s),
     rw_id (im_next_schedule s),
     rw_id (im_next_schedule_generation s),
     rw_u64 (im_arbitration_rounds s),
     rw_u64 (im_schedules_issued s),
     rw_u64 (im_schedule_entries_issued s),
     rw_u64 (im_completion_reports s),
     rw_u64 (im_completions_applied s),
     rw_u64 (im_completions_duplicate s),
     rw_u64 (im_completions_rejected s),
     rw_u64 (im_deadline_misses s),
     rw_u64 (im_preemptions_issued s),
     rw_u64 (im_reservations_retired s)]"

definition encode_state_snapshot :: "impl \<Rightarrow> bytes" where
  "encode_state_snapshot s =
     (let w = write_state s (record_writer kMaxSnapshotPayload)
      in if rw_overflowed w then [] else rw_buffer w)"

section \<open>\<^verbatim>\<open>apply_state_snapshot\<close>\<close>

text \<open>
  A statement of the loader acts on the bytes the reader has left and on the state.  \<open>load\<close> reads
  one value and hands it to an action; \<open>load_table\<close> reads a count, refuses one above the bound in
  force, and stores that many values.
\<close>

type_synonym loading = "(bytes \<times> impl) action"

definition load :: "'a reader \<Rightarrow> ('a \<Rightarrow> impl action) \<Rightarrow> loading" where
  "load r f = (\<lambda>(data, s). case r data of
     Inl e \<Rightarrow> (e, (data, s))
   | Inr (x, rest) \<Rightarrow> (case f x s of (code, s') \<Rightarrow> (code, (rest, s'))))"

definition load_field :: "'a reader \<Rightarrow> ('a \<Rightarrow> impl \<Rightarrow> impl) \<Rightarrow> loading" where
  "load_field r put = load r (\<lambda>x. succeed (put x))"

fun load_times :: "nat \<Rightarrow> loading \<Rightarrow> loading" where
  "load_times 0 one = check Ok"
| "load_times (Suc n) one = and_then one (load_times n one)"

definition load_table :: "(impl \<Rightarrow> nat) \<Rightarrow> 'a reader \<Rightarrow> ('a \<Rightarrow> impl \<Rightarrow> impl) \<Rightarrow> loading" where
  "load_table limit r put = (\<lambda>(data, s). case rd_u64 data of
     Inl e \<Rightarrow> (e, (data, s))
   | Inr (count, rest) \<Rightarrow>
       if unat count > limit s then (CorruptData, (rest, s))
       else load_times (unat count) (load_field r put) (rest, s))"

definition put_resource :: "resource_runtime \<Rightarrow> impl \<Rightarrow> impl" where
  "put_resource rr s =
     s\<lparr>im_resources := om_put (res_resource (rr_descriptor rr)) rr (im_resources s)\<rparr>"

definition put_reservation :: "reservation_runtime \<Rightarrow> impl \<Rightarrow> impl" where
  "put_reservation rv s =
     s\<lparr>im_reservations := om_put (rsv_reservation (rv_descriptor rv)) rv (im_reservations s)\<rparr>"

definition put_flow :: "flow_runtime \<Rightarrow> impl \<Rightarrow> impl" where
  "put_flow r s = s\<lparr>im_flows := om_put (fd_flow (fr_descriptor r)) r (im_flows s)\<rparr>"

definition put_attempt :: "attempt_runtime \<Rightarrow> impl \<Rightarrow> impl" where
  "put_attempt a s = s\<lparr>im_attempts := om_put (dt_attempt (ar_ticket a)) a (im_attempts s)\<rparr>"

definition put_schedule :: "schedule_runtime \<Rightarrow> impl \<Rightarrow> impl" where
  "put_schedule sr s =
     s\<lparr>im_schedules := om_put (sc_schedule (sr_schedule sr)) sr (im_schedules s),
       im_schedule_order := im_schedule_order s @ [sc_schedule (sr_schedule sr)]\<rparr>"

definition put_virtual_time :: "fairness_group_id \<times> u64 \<Rightarrow> impl \<Rightarrow> impl" where
  "put_virtual_time e s = s\<lparr>im_virtual_time := om_put (fst e) (snd e) (im_virtual_time s)\<rparr>"

text \<open>\<^verbatim>\<open>schedule_attempts_[schedule].push_back(attempt)\<close> for every attempt, in key order.\<close>

definition own_attempt :: "attempt_id \<times> attempt_runtime \<Rightarrow> (schedule_id, attempt_id list) omap
    \<Rightarrow> (schedule_id, attempt_id list) omap" where
  "own_attempt e m =
     (let sched = dt_schedule (ar_ticket (snd e)) in
      om_put sched ((case om_find sched m of None \<Rightarrow> [] | Some owned \<Rightarrow> owned) @ [fst e]) m)"

definition clear_tables :: "impl \<Rightarrow> impl" where
  "clear_tables s = s\<lparr>im_flows := [], im_resources := [], im_reservations := [],
     im_priority_classes := [], im_qos_classes := [], im_virtual_time := [], im_attempts := [],
     im_schedules := [], im_schedule_attempts := [], im_schedule_order := []\<rparr>"

definition history_bound :: "impl \<Rightarrow> nat" where
  "history_bound s = unat (sp_retained_schedule_history (im_policy s)) + 1"

definition load_tables :: "loading list" where
  "load_tables = [
     load_field rd_id (\<lambda>x s. s\<lparr>im_epoch := x\<rparr>),
     load read_policy (\<lambda>p. and_then (check (validate_policy p)) (succeed (apply_policy p))),
     load_field rd_u64 (\<lambda>x s. s\<lparr>im_last_tick := x\<rparr>),
     load_table (\<lambda>s. unat (sp_max_resources (im_policy s))) read_resource_runtime put_resource,
     load_table (\<lambda>s. unat (sp_max_reservations (im_policy s))) read_reservation_runtime put_reservation,
     load_table (\<lambda>s. unat kMaxPriorityClasses) read_priority_class apply_priority_class,
     load_table (\<lambda>s. unat kMaxQoSClasses) read_qos_class apply_qos_class,
     load_table (\<lambda>s. unat (sp_max_flows (im_policy s))) read_flow_runtime put_flow,
     load_table history_bound read_attempt_runtime put_attempt,
     load_table history_bound read_schedule_runtime put_schedule,
     (\<lambda>(data, s). (Ok, (data, s\<lparr>im_schedule_attempts :=
        fold own_attempt (im_attempts s) (im_schedule_attempts s)\<rparr>))),
     load_table (\<lambda>s. unat (sp_max_flows (im_policy s))) read_virtual_time put_virtual_time]"

definition load_counters :: "loading list" where
  "load_counters = [
     load_field rd_id (\<lambda>x s. s\<lparr>im_next_attempt := x\<rparr>),
     load_field rd_id (\<lambda>x s. s\<lparr>im_next_schedule := x\<rparr>),
     load_field rd_id (\<lambda>x s. s\<lparr>im_next_schedule_generation := x\<rparr>),
     load_field rd_u64 (\<lambda>x s. s\<lparr>im_arbitration_rounds := x\<rparr>),
     load_field rd_u64 (\<lambda>x s. s\<lparr>im_schedules_issued := x\<rparr>),
     load_field rd_u64 (\<lambda>x s. s\<lparr>im_schedule_entries_issued := x\<rparr>),
     load_field rd_u64 (\<lambda>x s. s\<lparr>im_completion_reports := x\<rparr>),
     load_field rd_u64 (\<lambda>x s. s\<lparr>im_completions_applied := x\<rparr>),
     load_field rd_u64 (\<lambda>x s. s\<lparr>im_completions_duplicate := x\<rparr>),
     load_field rd_u64 (\<lambda>x s. s\<lparr>im_completions_rejected := x\<rparr>),
     load_field rd_u64 (\<lambda>x s. s\<lparr>im_deadline_misses := x\<rparr>),
     load_field rd_u64 (\<lambda>x s. s\<lparr>im_preemptions_issued := x\<rparr>),
     load_field rd_u64 (\<lambda>x s. s\<lparr>im_reservations_retired := x\<rparr>)]"

definition count_restored :: "impl \<Rightarrow> impl" where
  "count_restored s = s\<lparr>im_recovery := (im_recovery s)\<lparr>
     rp_resources_restored := of_nat (length (im_resources s)),
     rp_reservations_restored := of_nat (length (im_reservations s)),
     rp_priority_classes_restored := of_nat (length (im_priority_classes s)),
     rp_qos_classes_restored := of_nat (length (im_qos_classes s)),
     rp_flows_restored := of_nat (length (im_flows s))\<rparr>\<rparr>"

definition apply_state_snapshot :: "bytes \<Rightarrow> impl action" where
  "apply_state_snapshot payload s =
     (case rd_u16 payload of
        Inl e \<Rightarrow> (e, s)
      | Inr (format, rest) \<Rightarrow>
          if format \<noteq> kDurableFormatGeneration then (Unsupported, s)
          else case for_each (\<lambda>f. f) (load_tables @ load_counters) (rest, clear_tables s) of
            (code, (rest', s')) \<Rightarrow>
              if code \<noteq> Ok then (code, s')
              else if rest' \<noteq> [] then (CorruptData, s')
              else (Ok, count_restored (reindex_all s')))"

section \<open>\<^verbatim>\<open>checkpoint\<close>\<close>

definition checkpoint :: "impl action" where
  "checkpoint s = (case im_store s of
     None \<Rightarrow> (Ok, s)
   | Some store \<Rightarrow>
       (let payload = encode_state_snapshot s in
        if payload = [] then (Bounded, s)
        else case store_compact payload store of (code, store') \<Rightarrow> (code, s\<lparr>im_store := Some store'\<rparr>)))"

section \<open>The codecs of the runtime records\<close>

lemma rd_lifecycle [simp, codec_simps]:
  "rd_enum lifecycles (lifecycle_code x # rest) = Inr (x, rest)"
  by (cases x) (simp_all add: rd_enum_def lifecycles_def)

lemma rd_attempt_state [simp, codec_simps]:
  "rd_enum attempt_states (attempt_state_code x # rest) = Inr (x, rest)"
  by (cases x) (simp_all add: rd_enum_def attempt_states_def)

interpretation accounting_codec: codec write_accounting read_accounting "\<lambda>_. True"
  unfolding write_accounting_def
  by unfold_locales (rule exI, rule conjI, (rule writes_intros)+, simp add: reads_def read_accounting_def)

interpretation virtual_time_codec: codec write_virtual_time read_virtual_time "\<lambda>_. True"
  unfolding write_virtual_time_def
  by unfold_locales (rule exI, rule conjI, (rule writes_intros)+, simp add: reads_def read_virtual_time_def)

interpretation resource_runtime_codec: codec write_resource_runtime read_resource_runtime "\<lambda>_. True"
proof
  fix rr :: resource_runtime
  obtain bs where bs: "writes (write_resource (rr_descriptor rr)) bs"
    "reads read_resource bs (rr_descriptor rr)"
    using resource_codec.encodes by blast
  show "\<exists>bs. writes (write_resource_runtime rr) bs \<and> (True \<longrightarrow> reads read_resource_runtime bs rr)"
    unfolding write_resource_runtime_def
    by (rule exI, rule conjI, (rule bs(1) writes_intros)+)
      (use bs(2) in \<open>simp add: reads_def read_resource_runtime_def\<close>)
qed

interpretation reservation_runtime_codec:
  codec write_reservation_runtime read_reservation_runtime "\<lambda>_. True"
proof
  fix rv :: reservation_runtime
  obtain bs where bs: "writes (write_reservation (rv_descriptor rv)) bs"
    "reads read_reservation bs (rv_descriptor rv)"
    using reservation_codec.encodes by blast
  show "\<exists>bs. writes (write_reservation_runtime rv) bs \<and> (True \<longrightarrow> reads read_reservation_runtime bs rv)"
    unfolding write_reservation_runtime_def
    by (rule exI, rule conjI, (rule bs(1) writes_intros)+)
      (use bs(2) in \<open>simp add: reads_def read_reservation_runtime_def\<close>)
qed

text \<open>What is left of a flow and of an attempt in the image.\<close>

definition durable_flow :: "flow_runtime \<Rightarrow> flow_runtime" where
  "durable_flow r = r\<lparr>fr_starvation_counted := False, fr_history := [], fr_history_truncated := False\<rparr>"

definition durable_attempt :: "attempt_runtime \<Rightarrow> attempt_runtime" where
  "durable_attempt a = a\<lparr>ar_close_detail := []\<rparr>"

definition flow_restorable :: "flow_runtime \<Rightarrow> bool" where
  "flow_restorable r \<longleftrightarrow> flow_encodable (fr_descriptor r) \<and> durable_flow r = r"

definition attempt_restorable :: "attempt_runtime \<Rightarrow> bool" where
  "attempt_restorable a \<longleftrightarrow> ticket_encodable (ar_ticket a) \<and> durable_attempt a = a"

definition schedule_restorable :: "schedule_runtime \<Rightarrow> bool" where
  "schedule_restorable sr \<longleftrightarrow> schedule_encodable (sr_schedule sr) \<and>
     length (sr_consumed sr) = length (sc_entries (sr_schedule sr)) \<and>
     list_all (\<lambda>v. v \<le> 2) (sr_consumed sr)"

interpretation flow_runtime_codec: codec write_flow_runtime read_flow_runtime flow_restorable
proof
  fix r :: flow_runtime
  obtain bs where bs: "writes (write_flow_descriptor (fr_descriptor r)) bs"
    "flow_encodable (fr_descriptor r) \<Longrightarrow> reads read_flow_descriptor bs (fr_descriptor r)"
    using flow_codec.encodes by blast
  obtain as where as: "writes (write_accounting (fr_accounting r)) as"
    "reads read_accounting as (fr_accounting r)"
    using accounting_codec.encodes by blast
  have volatile: "durable_flow r = r \<Longrightarrow> fr_starvation_counted r = False \<and> fr_history r = [] \<and> fr_history_truncated r = False"
    by (cases r) (simp add: durable_flow_def)
  show "\<exists>bs. writes (write_flow_runtime r) bs \<and> (flow_restorable r \<longrightarrow> reads read_flow_runtime bs r)"
    unfolding write_flow_runtime_def
    by (rule exI, rule conjI, (rule bs(1) as(1) writes_intros)+)
      (use bs(2) as(2) volatile in \<open>auto simp: reads_def read_flow_runtime_def flow_restorable_def\<close>)
qed

interpretation attempt_runtime_codec: codec write_attempt_runtime read_attempt_runtime attempt_restorable
proof
  fix a :: attempt_runtime
  obtain bs where bs: "writes (write_ticket (ar_ticket a)) bs"
    "ticket_encodable (ar_ticket a) \<Longrightarrow> reads read_ticket bs (ar_ticket a)"
    using ticket_codec.encodes by blast
  have volatile: "durable_attempt a = a \<Longrightarrow> ar_close_detail a = []"
    by (cases a) (simp add: durable_attempt_def)
  show "\<exists>bs. writes (write_attempt_runtime a) bs \<and> (attempt_restorable a \<longrightarrow> reads read_attempt_runtime bs a)"
    unfolding write_attempt_runtime_def
    by (rule exI, rule conjI, (rule bs(1) writes_intros)+)
      (use bs(2) volatile in \<open>auto simp: reads_def read_attempt_runtime_def attempt_restorable_def\<close>)
qed

interpretation schedule_runtime_codec: codec write_schedule_runtime read_schedule_runtime schedule_restorable
proof
  fix sr :: schedule_runtime
  obtain bs where bs: "writes (write_schedule (sr_schedule sr)) bs"
    "schedule_encodable (sr_schedule sr) \<Longrightarrow> reads read_schedule bs (sr_schedule sr)"
    using schedule_codec.encodes by blast
  have each: "writes (rw_each rw_u8 vs) (concat (map (\<lambda>v. [v]) vs))" for vs
    by (rule writes_each) (rule writes_u8)
  have times: "list_all (\<lambda>v. v \<le> 2) vs \<Longrightarrow> length vs = n \<Longrightarrow>
      rd_times n (rd_bounded 2) (vs @ rest) = Inr (vs, rest)" for vs n rest
    using rd_times_roundtrip [of vs "rd_bounded 2" "\<lambda>v. [v]"] by (auto simp: list_all_iff reads_def)
  show "\<exists>bs. writes (write_schedule_runtime sr) bs \<and> (schedule_restorable sr \<longrightarrow> reads read_schedule_runtime bs sr)"
    unfolding write_schedule_runtime_def
    by (rule exI, rule conjI, (rule bs(1) each writes_intros)+)
      (use bs(2) times in \<open>auto simp: reads_def read_schedule_runtime_def schedule_restorable_def
        schedule_encodable_def unat_of_nat_u64\<close>)
qed

section \<open>Loading what was written\<close>

text \<open>\<open>restores w l s t\<close>: from the bytes that \<open>w\<close> writes, the statement \<open>l\<close> takes \<open>s\<close> to \<open>t\<close>.\<close>

definition restores :: "writing \<Rightarrow> loading \<Rightarrow> impl \<Rightarrow> impl \<Rightarrow> bool" where
  "restores w l s t \<longleftrightarrow> (\<exists>bs. writes w bs \<and> (\<forall>rest. l (bs @ rest, s) = (Ok, (rest, t))))"

abbreviation in_turn :: "loading list \<Rightarrow> loading" where
  "in_turn \<equiv> for_each (\<lambda>f. f)"

named_theorems restore_intros \<open>what each statement of the loader restores\<close>

lemma restores_done: "restores (rw_block []) (in_turn []) s s"
  unfolding restores_def by (rule exI, rule conjI, rule writes_block(1)) simp

lemma restores_next:
  assumes "restores w l s t" "restores (rw_block ws) (in_turn ls) t u"
  shows "restores (rw_block (w # ws)) (in_turn (l # ls)) s u"
proof -
  obtain a b where "writes w a" "\<And>rest. l (a @ rest, s) = (Ok, (rest, t))"
    "writes (rw_block ws) b" "\<And>rest. in_turn ls (b @ rest, t) = (Ok, (rest, u))"
    using assms by (auto simp: restores_def)
  then show ?thesis
    unfolding restores_def
    by (intro exI [of _ "a @ b"] conjI writes_block(2)) (simp_all add: and_then_eq)
qed

lemma restores_silent:
  assumes "\<And>data. l (data, s) = (Ok, (data, t))" "restores (rw_block ws) (in_turn ls) t u"
  shows "restores (rw_block ws) (in_turn (l # ls)) s u"
  using assms by (auto simp: restores_def and_then_eq)

lemma restores_field:
  assumes "writes w bs" "reads r bs x" "t = put x s"
  shows "restores w (load_field r put) s t"
  using assms by (auto simp: restores_def load_field_def load_def reads_def succeed_def)

lemma restores_u64 [restore_intros]: "restores (rw_u64 v) (load_field rd_u64 put) s (put v s)"
  by (rule restores_field [OF writes_u64]) (simp_all add: reads_def)

lemma restores_id [restore_intros]: "restores (rw_id v) (load_field rd_id put) s (put v s)"
  by (rule restores_field [OF writes_id]) (simp_all add: reads_def)

lemma restores_policy [restore_intros]:
  assumes "validate_policy p = Ok"
  shows "restores (write_policy p)
    (load read_policy (\<lambda>p. and_then (check (validate_policy p)) (succeed (apply_policy p)))) s (apply_policy p s)"
  using policy_codec.encodes [of p] assms
  by (auto simp: restores_def load_def reads_def and_then_def check_def succeed_def)

lemma load_times_fold:
  assumes "\<And>x. x \<in> set xs \<Longrightarrow> reads r (enc x) x"
  shows "load_times (length xs) (load_field r put) (concat (map enc xs) @ rest, s) = (Ok, (rest, fold put xs s))"
  using assms
  by (induction xs arbitrary: s)
    (auto simp: and_then_eq load_field_def load_def reads_def succeed_def check_def)

lemma restores_table:
  assumes "codec p g v" "\<And>x. x \<in> set xs \<Longrightarrow> v x" "length xs \<le> limit s" "length xs < 2 ^ 64"
    and "fold put xs s = t"
  shows "restores (write_table p xs) (load_table limit g put) s t"
proof -
  obtain enc where enc: "\<And>x. writes (p x) (enc x) \<and> (v x \<longrightarrow> reads g (enc x) x)"
    using codec.encodes [OF assms(1)] by metis
  have "writes (write_table p xs) (encode_u64_le (of_nat (length xs)) @ concat (map enc xs))"
    unfolding write_table_def by (intro writes_seq writes_u64 writes_each) (simp add: enc)
  moreover have "load_table limit g put
      ((encode_u64_le (of_nat (length xs)) @ concat (map enc xs)) @ rest, s) = (Ok, (rest, t))" for rest
    using assms(2-5) enc by (simp add: load_table_def unat_of_nat_u64 load_times_fold)
  ultimately show ?thesis unfolding restores_def by blast
qed

section \<open>The state an image restores\<close>

text \<open>A table is read back in the order it was written, so that every value lands behind the others.\<close>

definition keyed :: "('v \<Rightarrow> 'k) \<Rightarrow> ('k::linorder, 'v) omap \<Rightarrow> bool" where
  "keyed key m \<longleftrightarrow> om_wf m \<and> list_all (\<lambda>(k, v). key v = k) m"

lemma om_put_last: "list_all (\<lambda>e. fst e < k) m \<Longrightarrow> om_put k v m = m @ [(k, v)]"
  by (induction m) auto

lemma fold_om_put: "om_wf (m0 @ m) \<Longrightarrow> fold (\<lambda>(k, v). om_put k v) m m0 = m0 @ m"
proof (induction m arbitrary: m0)
  case (Cons e m)
  obtain k v where e: "e = (k, v)" by (cases e)
  have "list_all (\<lambda>e. fst e < k) m0"
    using Cons.prems by (auto simp: e om_wf_def om_keys_def sorted_wrt_append list_all_iff)
  then show ?case using Cons by (simp add: e om_put_last)
qed simp

lemma fold_keyed:
  assumes "keyed key m"
  shows "fold (\<lambda>v. om_put (key v) v) (om_values m) [] = m"
proof -
  have "fold (\<lambda>v. om_put (key v) v) (om_values m) acc = fold (\<lambda>(k, v). om_put k v) m acc" for acc
    using assms unfolding keyed_def om_values_def by (induction m arbitrary: acc) (auto simp: om_wf_def om_keys_def)
  with fold_om_put [of "[]" m] assms show ?thesis by (simp add: keyed_def)
qed

lemma fold_puts:
  "fold put_resource rs s = s\<lparr>im_resources :=
     fold (\<lambda>v. om_put (res_resource (rr_descriptor v)) v) rs (im_resources s)\<rparr>"
  "fold put_reservation rvs s = s\<lparr>im_reservations :=
     fold (\<lambda>v. om_put (rsv_reservation (rv_descriptor v)) v) rvs (im_reservations s)\<rparr>"
  "fold apply_priority_class ps s = s\<lparr>im_priority_classes :=
     fold (\<lambda>v. om_put (prio_priority v) v) ps (im_priority_classes s)\<rparr>"
  "fold apply_qos_class qs s = s\<lparr>im_qos_classes :=
     fold (\<lambda>v. om_put (qos_qos v) v) qs (im_qos_classes s)\<rparr>"
  "fold put_flow fs s = s\<lparr>im_flows := fold (\<lambda>v. om_put (fd_flow (fr_descriptor v)) v) fs (im_flows s)\<rparr>"
  "fold put_attempt as s = s\<lparr>im_attempts :=
     fold (\<lambda>v. om_put (dt_attempt (ar_ticket v)) v) as (im_attempts s)\<rparr>"
  "fold put_schedule ss s = s\<lparr>im_schedules :=
     fold (\<lambda>v. om_put (sc_schedule (sr_schedule v)) v) ss (im_schedules s),
     im_schedule_order := im_schedule_order s @ map (\<lambda>v. sc_schedule (sr_schedule v)) ss\<rparr>"
  "fold put_virtual_time vs s = s\<lparr>im_virtual_time := fold (\<lambda>(k, v). om_put k v) vs (im_virtual_time s)\<rparr>"
  subgoal by (induction rs arbitrary: s) (simp_all add: put_resource_def)
  subgoal by (induction rvs arbitrary: s) (simp_all add: put_reservation_def)
  subgoal by (induction ps arbitrary: s) (simp_all add: apply_priority_class_def)
  subgoal by (induction qs arbitrary: s) (simp_all add: apply_qos_class_def)
  subgoal by (induction fs arbitrary: s) (simp_all add: put_flow_def)
  subgoal by (induction as arbitrary: s) (simp_all add: put_attempt_def)
  subgoal by (induction ss arbitrary: s) (simp_all add: put_schedule_def)
  subgoal by (induction vs arbitrary: s) (simp_all add: put_virtual_time_def split_beta)
  done

definition durable_values :: "('v \<Rightarrow> 'v) \<Rightarrow> ('k, 'v) omap \<Rightarrow> ('k, 'v) omap" where
  "durable_values f m = map (\<lambda>(k, v). (k, f v)) m"

lemma durable_values_simps:
  "om_values (durable_values f m) = map f (om_values m)"
  "om_keys (durable_values f m) = om_keys m"
  "length (durable_values f m) = length m"
  by (auto simp: durable_values_def om_values_def om_keys_def)

lemma keyed_durable:
  "(\<And>v. key (f v) = key v) \<Longrightarrow> keyed key (durable_values f m) = keyed key m"
  by (auto simp: keyed_def om_wf_def durable_values_simps) (auto simp: durable_values_def list_all_iff)

lemma keyed_keys: "keyed key m \<Longrightarrow> map key (om_values m) = om_keys m"
  by (auto simp: keyed_def om_values_def om_keys_def list_all_iff)

text \<open>
  The states an image can restore: a valid policy, tables keyed by the identities of their values,
  values the codecs carry, and counts within the bounds the loader enforces.
\<close>

definition restorable :: "impl \<Rightarrow> bool" where
  "restorable s \<longleftrightarrow> validate_policy (im_policy s) = Ok
     \<and> keyed (\<lambda>v. res_resource (rr_descriptor v)) (im_resources s)
     \<and> keyed (\<lambda>v. rsv_reservation (rv_descriptor v)) (im_reservations s)
     \<and> keyed prio_priority (im_priority_classes s) \<and> keyed qos_qos (im_qos_classes s)
     \<and> keyed (\<lambda>v. fd_flow (fr_descriptor v)) (im_flows s)
     \<and> keyed (\<lambda>v. dt_attempt (ar_ticket v)) (im_attempts s)
     \<and> keyed (\<lambda>v. sc_schedule (sr_schedule v)) (im_schedules s) \<and> om_wf (im_virtual_time s)
     \<and> list_all (\<lambda>r. flow_encodable (fr_descriptor r)) (om_values (im_flows s))
     \<and> list_all (\<lambda>a. ticket_encodable (ar_ticket a)) (om_values (im_attempts s))
     \<and> list_all schedule_restorable (om_values (im_schedules s))
     \<and> length (im_resources s) \<le> unat (sp_max_resources (im_policy s))
     \<and> length (im_reservations s) \<le> unat (sp_max_reservations (im_policy s))
     \<and> length (im_priority_classes s) \<le> unat kMaxPriorityClasses
     \<and> length (im_qos_classes s) \<le> unat kMaxQoSClasses
     \<and> length (im_flows s) \<le> unat (sp_max_flows (im_policy s))
     \<and> length (im_attempts s) \<le> history_bound s \<and> length (im_schedules s) \<le> history_bound s
     \<and> length (im_virtual_time s) \<le> unat (sp_max_flows (im_policy s))"

definition restored :: "impl \<Rightarrow> impl \<Rightarrow> impl" where
  "restored s s0 = s0\<lparr>
     im_epoch := im_epoch s, im_policy := im_policy s,
     im_policy_binding := policy_binding_of (im_policy s), im_last_tick := im_last_tick s,
     im_resources := im_resources s, im_reservations := im_reservations s,
     im_priority_classes := im_priority_classes s, im_qos_classes := im_qos_classes s,
     im_flows := durable_values durable_flow (im_flows s),
     im_attempts := durable_values durable_attempt (im_attempts s),
     im_schedules := im_schedules s, im_schedule_order := om_keys (im_schedules s),
     im_schedule_attempts := fold own_attempt (durable_values durable_attempt (im_attempts s)) [],
     im_virtual_time := im_virtual_time s,
     im_next_attempt := im_next_attempt s, im_next_schedule := im_next_schedule s,
     im_next_schedule_generation := im_next_schedule_generation s,
     im_arbitration_rounds := im_arbitration_rounds s, im_schedules_issued := im_schedules_issued s,
     im_schedule_entries_issued := im_schedule_entries_issued s,
     im_completion_reports := im_completion_reports s,
     im_completions_applied := im_completions_applied s,
     im_completions_duplicate := im_completions_duplicate s,
     im_completions_rejected := im_completions_rejected s,
     im_deadline_misses := im_deadline_misses s, im_preemptions_issued := im_preemptions_issued s,
     im_reservations_retired := im_reservations_retired s\<rparr>"

lemma write_durable:
  "write_flow_runtime (durable_flow r) = write_flow_runtime r"
  "write_attempt_runtime (durable_attempt a) = write_attempt_runtime a"
  by (simp_all add: write_flow_runtime_def durable_flow_def write_attempt_runtime_def durable_attempt_def)

lemma rw_each_map: "rw_each f (map g xs) = rw_each (\<lambda>x. f (g x)) xs"
  by (induction xs) simp_all

lemma write_table_map: "write_table f (map g xs) = write_table (\<lambda>x. f (g x)) xs"
  by (simp add: write_table_def rw_each_map)

text \<open>The limits of the policy are 32-bit, so a count within them is its own 64-bit encoding.\<close>

lemma bounded_count: "n \<le> unat (v :: u32) \<Longrightarrow> n < 2 ^ 64" "n \<le> unat (v :: u32) + 1 \<Longrightarrow> n < 2 ^ 64"
proof -
  have "unat v < 2 ^ LENGTH(32)" by (rule unsigned_less)
  then show "n \<le> unat v \<Longrightarrow> n < 2 ^ 64" "n \<le> unat v + 1 \<Longrightarrow> n < 2 ^ 64" by simp_all
qed

lemma length_om_values [simp]: "length (om_values m) = length m"
  by (simp add: om_values_def)

lemma restorable_tables:
  assumes "restorable s"
  shows
    "fold (\<lambda>v. om_put (res_resource (rr_descriptor v)) v) (om_values (im_resources s)) [] = im_resources s"
    "fold (\<lambda>v. om_put (rsv_reservation (rv_descriptor v)) v) (om_values (im_reservations s)) [] = im_reservations s"
    "fold (\<lambda>v. om_put (prio_priority v) v) (om_values (im_priority_classes s)) [] = im_priority_classes s"
    "fold (\<lambda>v. om_put (qos_qos v) v) (om_values (im_qos_classes s)) [] = im_qos_classes s"
    "fold (\<lambda>(k, v). om_put k v) (im_virtual_time s) [] = im_virtual_time s"
  using assms fold_om_put [of "[]" "im_virtual_time s"]
  by (simp_all only: restorable_def fold_keyed append_Nil)

lemma restorable_counts:
  assumes "restorable s"
  shows "length (im_resources s) < 2 ^ 64" "length (im_reservations s) < 2 ^ 64"
    "length (im_priority_classes s) < 2 ^ 64" "length (im_qos_classes s) < 2 ^ 64"
    "length (im_flows s) < 2 ^ 64" "length (im_attempts s) < 2 ^ 64"
    "length (im_schedules s) < 2 ^ 64" "length (im_virtual_time s) < 2 ^ 64"
  using assms unfolding restorable_def history_bound_def by (blast intro: bounded_count)+

lemma restores_tables [restore_intros]:
  assumes s: "restorable s" and policy: "im_policy t = im_policy s"
  shows "im_resources t = [] \<Longrightarrow> restores (write_table write_resource_runtime (om_values (im_resources s)))
      (load_table (\<lambda>s. unat (sp_max_resources (im_policy s))) read_resource_runtime put_resource)
      t (t\<lparr>im_resources := im_resources s\<rparr>)"
    and "im_reservations t = [] \<Longrightarrow> restores (write_table write_reservation_runtime (om_values (im_reservations s)))
      (load_table (\<lambda>s. unat (sp_max_reservations (im_policy s))) read_reservation_runtime put_reservation)
      t (t\<lparr>im_reservations := im_reservations s\<rparr>)"
    and "im_priority_classes t = [] \<Longrightarrow> restores (write_table write_priority_class (om_values (im_priority_classes s)))
      (load_table (\<lambda>s. unat kMaxPriorityClasses) read_priority_class apply_priority_class)
      t (t\<lparr>im_priority_classes := im_priority_classes s\<rparr>)"
    and "im_qos_classes t = [] \<Longrightarrow> restores (write_table write_qos_class (om_values (im_qos_classes s)))
      (load_table (\<lambda>s. unat kMaxQoSClasses) read_qos_class apply_qos_class)
      t (t\<lparr>im_qos_classes := im_qos_classes s\<rparr>)"
    and "im_virtual_time t = [] \<Longrightarrow> restores (write_table write_virtual_time (im_virtual_time s))
      (load_table (\<lambda>s. unat (sp_max_flows (im_policy s))) read_virtual_time put_virtual_time)
      t (t\<lparr>im_virtual_time := im_virtual_time s\<rparr>)"
  subgoal by (rule restores_table [OF resource_runtime_codec.codec_axioms])
    (use s policy restorable_tables [OF s] restorable_counts [OF s] in \<open>simp_all add: fold_puts restorable_def\<close>)
  subgoal by (rule restores_table [OF reservation_runtime_codec.codec_axioms])
    (use s policy restorable_tables [OF s] restorable_counts [OF s] in \<open>simp_all add: fold_puts restorable_def\<close>)
  subgoal by (rule restores_table [OF priority_codec.codec_axioms])
    (use s policy restorable_tables [OF s] restorable_counts [OF s] in \<open>simp_all add: fold_puts restorable_def\<close>)
  subgoal by (rule restores_table [OF qos_codec.codec_axioms])
    (use s policy restorable_tables [OF s] restorable_counts [OF s] in \<open>simp_all add: fold_puts restorable_def\<close>)
  subgoal by (rule restores_table [OF virtual_time_codec.codec_axioms])
    (use s policy restorable_tables [OF s] restorable_counts [OF s] in \<open>simp_all add: fold_puts restorable_def\<close>)
  done

lemma restores_flows [restore_intros]:
  assumes s: "restorable s" and t: "im_policy t = im_policy s" "im_flows t = []"
  shows "restores (write_table write_flow_runtime (om_values (im_flows s)))
      (load_table (\<lambda>s. unat (sp_max_flows (im_policy s))) read_flow_runtime put_flow)
      t (t\<lparr>im_flows := durable_values durable_flow (im_flows s)\<rparr>)"
proof -
  let ?m = "durable_values durable_flow (im_flows s)"
  have "flow_restorable r" if "r \<in> set (om_values ?m)" for r
    using that s by (auto simp: durable_values_simps restorable_def flow_restorable_def list_all_iff durable_flow_def)
  moreover have "fold (\<lambda>v. om_put (fd_flow (fr_descriptor v)) v) (om_values ?m) [] = ?m"
    using s by (intro fold_keyed) (simp add: restorable_def keyed_durable durable_flow_def)
  moreover have "length (om_values ?m) \<le> unat (sp_max_flows (im_policy t))"
    using s t by (simp add: restorable_def durable_values_simps om_values_def)
  ultimately have "restores (write_table write_flow_runtime (om_values ?m))
      (load_table (\<lambda>s. unat (sp_max_flows (im_policy s))) read_flow_runtime put_flow) t (t\<lparr>im_flows := ?m\<rparr>)"
    using t(2) restorable_counts [OF s]
    by (intro restores_table [OF flow_runtime_codec.codec_axioms]) (simp_all add: fold_puts durable_values_simps)
  then show ?thesis by (simp add: durable_values_simps write_table_map write_durable)
qed

lemma restores_attempts [restore_intros]:
  assumes s: "restorable s" and t: "im_policy t = im_policy s" "im_attempts t = []"
  shows "restores (write_table write_attempt_runtime (om_values (im_attempts s)))
      (load_table history_bound read_attempt_runtime put_attempt)
      t (t\<lparr>im_attempts := durable_values durable_attempt (im_attempts s)\<rparr>)"
proof -
  let ?m = "durable_values durable_attempt (im_attempts s)"
  have "attempt_restorable r" if "r \<in> set (om_values ?m)" for r
    using that s by (auto simp: durable_values_simps restorable_def attempt_restorable_def list_all_iff
        durable_attempt_def)
  moreover have "fold (\<lambda>v. om_put (dt_attempt (ar_ticket v)) v) (om_values ?m) [] = ?m"
    using s by (intro fold_keyed) (simp add: restorable_def keyed_durable durable_attempt_def)
  moreover have "length (om_values ?m) \<le> history_bound t"
    using s t by (simp add: restorable_def history_bound_def durable_values_simps om_values_def)
  ultimately have "restores (write_table write_attempt_runtime (om_values ?m))
      (load_table history_bound read_attempt_runtime put_attempt) t (t\<lparr>im_attempts := ?m\<rparr>)"
    using t(2) restorable_counts [OF s]
    by (intro restores_table [OF attempt_runtime_codec.codec_axioms]) (simp_all add: fold_puts durable_values_simps)
  then show ?thesis by (simp add: durable_values_simps write_table_map write_durable)
qed

lemma restores_schedules [restore_intros]:
  assumes s: "restorable s"
    and t: "im_policy t = im_policy s" "im_schedules t = []" "im_schedule_order t = []"
  shows "restores (write_table write_schedule_runtime (om_values (im_schedules s)))
      (load_table history_bound read_schedule_runtime put_schedule)
      t (t\<lparr>im_schedules := im_schedules s, im_schedule_order := om_keys (im_schedules s)\<rparr>)"
proof -
  let ?m = "im_schedules s" and ?key = "\<lambda>v. sc_schedule (sr_schedule v)"
  have "schedule_restorable r" if "r \<in> set (om_values ?m)" for r
    using that s by (auto simp: restorable_def list_all_iff)
  moreover have "fold (\<lambda>v. om_put (?key v) v) (om_values ?m) [] = ?m" "map ?key (om_values ?m) = om_keys ?m"
    using s by (auto simp: restorable_def fold_keyed keyed_keys)
  moreover have "length (om_values ?m) \<le> history_bound t"
    using s t by (simp add: restorable_def history_bound_def om_values_def)
  ultimately show ?thesis
    using t(2,3) restorable_counts [OF s]
    by (intro restores_table [OF schedule_runtime_codec.codec_axioms]) (simp_all add: fold_puts)
qed

text \<open>The whole image: what \<^verbatim>\<open>write_state\<close> writes behind the format generation.\<close>

lemma restores_state:
  assumes "restorable s"
  shows "\<exists>ws. write_state s = rw_block (rw_u16 kDurableFormatGeneration # ws)
     \<and> restores (rw_block ws) (in_turn (load_tables @ load_counters)) (clear_tables s0) (restored s s0)"
proof -
  have valid: "validate_policy (im_policy s) = Ok" using assms by (simp add: restorable_def)
  have "\<exists>ws t. write_state s = rw_block (rw_u16 kDurableFormatGeneration # ws)
     \<and> restores (rw_block ws) (in_turn (load_tables @ load_counters)) (clear_tables s0) t \<and> t = restored s s0"
    unfolding write_state_def load_tables_def load_counters_def append_Cons append_Nil
    apply (rule exI, rule exI, rule conjI, rule refl, rule conjI)
    apply (rule restores_next, rule restores_id)
    apply (rule restores_next, rule restores_policy [OF valid])
    apply (rule restores_next, rule restores_u64)
    apply ((rule restores_next, rule restores_tables [OF assms] restores_flows [OF assms]
        restores_attempts [OF assms] restores_schedules [OF assms], (simp add: clear_tables_def apply_policy_def; fail)+)+)
    apply (rule restores_silent, simp)
    apply (rule restores_next, rule restores_tables [OF assms], (simp add: clear_tables_def apply_policy_def; fail)+)
    apply ((rule restores_next, rule restores_u64 restores_id)+)
    apply (rule restores_done)
    apply (simp add: restored_def clear_tables_def apply_policy_def)
    done
  then show ?thesis by blast
qed

lemma snapshot_loads:
  assumes "restorable s" "encode_state_snapshot s \<noteq> []"
  shows "apply_state_snapshot (encode_state_snapshot s) s0 = (Ok, count_restored (reindex_all (restored s s0)))"
proof -
  obtain ws bs where ws: "write_state s = rw_block (rw_u16 kDurableFormatGeneration # ws)"
    and bs: "writes (rw_block ws) bs"
    and load: "\<And>rest. in_turn (load_tables @ load_counters) (bs @ rest, clear_tables s0) = (Ok, (rest, restored s s0))"
    using restores_state [OF assms(1), of s0] by (auto simp: restores_def)
  have "writes (write_state s) (encode_u16_le kDurableFormatGeneration @ bs)"
    unfolding ws by (intro writes_block(2) writes_u16 bs)
  then have "encode_state_snapshot s = encode_u16_le kDurableFormatGeneration @ bs"
    using assms(2) writes_buffer(1) by (auto simp: encode_state_snapshot_def Let_def split: if_splits)
  then show ?thesis using load [of "[]"] by (simp add: apply_state_snapshot_def)
qed

end
