(* ===== verification/Facade.thy ===== *)
theory Facade
  imports Dispatching Snapshot
begin

text \<open>
  The public face of the scheduler: the calls of the class \<^verbatim>\<open>Scheduler\<close>
  (\<^verbatim>\<open>include/flow_scheduler/scheduler.hpp\<close>, end of \<^verbatim>\<open>src/scheduler.cpp\<close>) and the state each leaves.
\<close>

section \<open>Calls\<close>

text \<open>
  The methods of the class \<^verbatim>\<open>Scheduler\<close> that change its state; the three without a tick argument
  act at the last tick observed.
\<close>

datatype call =
  RegisterResource resource_descriptor
| RegisterReservation reservation_descriptor
| RetireReservation reservation_id generation
| RegisterPriorityClass priority_class_descriptor
| RegisterQoSClass qos_class_descriptor
| AdmitFlow flow_descriptor
| UpdateFlow flow_descriptor
| CancelFlow flow_id generation bytes
| NotifyReadiness flow_id generation readiness_signal ticks
| ResolveAmbiguous flow_id generation ambiguity_resolution ticks
| RetireFlow flow_id generation
| InstallPolicy scheduling_policy
| AdvanceEpoch epoch_reason
| Arbitrate ticks
| ReleaseSchedule schedule_id generation
| BeginDispatch schedule_id generation u32 worker_id boot_id ticks
| MarkStarted dispatch_ticket ticks
| AbandonAttempt attempt_id bytes ticks
| PreemptAttempt attempt_id bytes ticks
| Complete completion_evidence ticks
| Checkpoint

fun perform :: "call \<Rightarrow> impl \<Rightarrow> impl" where
  "perform (RegisterResource d) s = snd (register_resource d s)"
| "perform (RegisterReservation d) s = snd (register_reservation d s)"
| "perform (RetireReservation i g) s = snd (retire_reservation i g s)"
| "perform (RegisterPriorityClass d) s = snd (register_priority_class d s)"
| "perform (RegisterQoSClass d) s = snd (register_qos_class d s)"
| "perform (AdmitFlow d) s = snd (admit_flow d s)"
| "perform (UpdateFlow d) s = snd (update_flow d s)"
| "perform (CancelFlow i g reason) s = snd (cancel_flow i g reason (im_last_tick s) s)"
| "perform (NotifyReadiness i g signal now) s = snd (notify_readiness i g signal now s)"
| "perform (ResolveAmbiguous i g resolution now) s = snd (resolve_ambiguous i g resolution now s)"
| "perform (RetireFlow i g) s = snd (retire_flow i g s)"
| "perform (InstallPolicy p) s = snd (install_policy p s)"
| "perform (AdvanceEpoch reason) s = snd (advance_epoch reason (im_last_tick s) s)"
| "perform (Arbitrate now) s = snd (arbitrate now s)"
| "perform (ReleaseSchedule i g) s = snd (release_schedule i g (im_last_tick s) s)"
| "perform (BeginDispatch i g ordinal worker boot now) s = snd (begin_dispatch i g ordinal worker boot now s)"
| "perform (MarkStarted t now) s = snd (mark_started t now s)"
| "perform (AbandonAttempt a reason now) s = snd (abandon_attempt a reason now s)"
| "perform (PreemptAttempt a reason now) s = snd (preempt_attempt a reason now s)"
| "perform (Complete ev now) s = snd (complete ev now s)"
| "perform Checkpoint s = snd (checkpoint s)"

text \<open>The identities that a call draws are left: the code reports their exhaustion only after the fact.\<close>

definition ids_left :: "impl \<Rightarrow> bool" where
  "ids_left s \<longleftrightarrow> id_value (im_next_attempt s) \<noteq> u64_max \<and> id_value (im_next_schedule s) \<noteq> u64_max
     \<and> id_value (im_next_schedule_generation s) \<noteq> u64_max"

end
