(* ===== verification/Rounds.thy ===== *)
theory Rounds
  imports Preservation Facade
begin

text \<open>
  One arbitration round and the configuration operations keep the invariant of \<open>Lifecycle\<close>.
\<close>

section \<open>The round\<close>

lemma keeps_journal: "keeps k s (snd (journal type payload s))"
  by (rule keeps_same_core) simp

lemma keeps_check [simp]: "keeps k s (snd (check code s))"
  by (simp add: keeps_refl)

lemma keeps_succeed: "keeps k s (f s) \<Longrightarrow> keeps k s (snd (succeed f s))"
  by simp

lemma keeps_close_attempt: "closing st \<Longrightarrow> keeps k s (snd (close_attempt a st d now s))"
  unfolding close_attempt_def
  by (intro keeping.and_then_steps keeps_journal keeps_succeed keeps_attempt_closed)

lemma keeps_note_deadline_miss: "keeps k (fst so) (fst (note_deadline_miss flow r so))"
proof -
  have "keeps k s (t\<lparr>im_deadline_misses := n\<rparr>)" if "keeps k s t" for s t n
    using that by (rule keeps_then_same [rotated]) (rule same_coreI; simp)
  then show ?thesis
    by (cases so) (simp add: note_deadline_miss_def Let_def keeps_quiet)
qed

lemma find_note_deadline_miss:
  "om_find j (im_flows (fst (note_deadline_miss flow r so))) =
     (if j = flow then map_option count_deadline_miss (om_find j (im_flows (fst so))) else om_find j (im_flows (fst so)))"
  by (cases so) (simp add: note_deadline_miss_def Let_def)

lemma keeps_handle_deadline_miss:
  assumes "\<And>r. om_find flow (im_flows (fst so)) = Some r \<Longrightarrow> \<not> holds_attempt (fr_lifecycle r)"
  shows "keeps k (fst so) (fst (handle_deadline_miss flow now so))"
proof (cases "om_find flow (im_flows (fst so))")
  case (Some r)
  obtain s outcome where note_eq: "note_deadline_miss flow r so = (s, outcome)" by force
  have keep: "keeps k (fst so) s" using keeps_note_deadline_miss [of k so flow r] by (simp add: note_eq)
  have "fr_lifecycle r' = fr_lifecycle r" if "om_find flow (im_flows s) = Some r'" for r'
    using that find_note_deadline_miss [where j = flow and flow = flow and r = r and so = so] by (auto simp: note_eq Some count_deadline_miss_def)
  then have "keeps k (fst so) (set_lifecycle flow FlowFailed now s)" if "\<not> is_terminal (fr_lifecycle r)"
    using that assms Some by (intro keeps_then_set [OF _ keep]) auto
  then show ?thesis
    using keep by (auto simp: handle_deadline_miss_def Some note_eq keeps_refl intro: keeps_then_quiet)
qed (simp add: handle_deadline_miss_def keeps_refl)

lemma keeps_fail_dependent:
  assumes "\<And>r. om_find flow (im_flows s) = Some r \<Longrightarrow> \<not> is_terminal (fr_lifecycle r) \<and> \<not> holds_attempt (fr_lifecycle r)"
  shows "keeps k s (fail_dependent flow now s)"
  unfolding fail_dependent_def by (intro keeps_steps) (use assms in auto)

lemma keeps_reclaim_loop: "keeps k (fst so) (fst (reclaim_loop now queue so))"
proof (induction now queue so rule: reclaim_loop.induct)
  case (2 now schedule rest s outcome)
  obtain appended s' where j: "journal RecScheduleReleased (take_record [rw_id schedule, rw_u64 now]) s = (appended, s')"
    by force
  then have j': "keeps k s s'" using keeps_journal [of k s] by (metis snd_conv)
  have "keeps k s (fst (reclaim_loop now rest (apply_release_schedule schedule now s', o')))"
    if "keeps k (apply_release_schedule schedule now s') (fst (reclaim_loop now rest (apply_release_schedule schedule now s', o')))" for o'
    using keeps_trans [OF keeps_trans [OF j' keeps_apply_release_schedule] that] .
  with 2 j j' show ?case by (auto simp: keeps_refl split: option.split)
qed (simp add: keeps_refl)

lemma refresh_waiting_other:
  "j \<noteq> flow \<Longrightarrow> om_find j (im_flows (fst (refresh_waiting now flow so))) = om_find j (im_flows (fst so))"
  by (cases so) (auto simp: refresh_waiting_def handle_deadline_miss_def note_deadline_miss_def Let_def
      fail_dependent_def split: option.split prod.split)

lemma derived_readiness_open:
  assumes "fst (derived_readiness s r now) \<or> snd (derived_readiness s r now) \<noteq> ReasonTerminal"
  shows "\<not> is_terminal (fr_lifecycle r)"
  using assms by (auto simp: derived_readiness_def Let_def)

lemma keeps_refresh_waiting:
  assumes "\<And>r. om_find flow (im_flows (fst so)) = Some r \<Longrightarrow> index_slot (fr_lifecycle r) = 1"
  shows "keeps k (fst so) (fst (refresh_waiting now flow so))"
proof (cases "om_find flow (im_flows (fst so))")
  case (Some r)
  obtain s outcome where so: "so = (s, outcome)" by (cases so)
  have "fr_lifecycle r = FlowWaiting \<or> fr_lifecycle r = FlowAmbiguous"
    using assms [OF Some] by (cases "fr_lifecycle r") auto
  then have r: "\<not> is_terminal (fr_lifecycle r)" "\<not> holds_attempt (fr_lifecycle r)" by auto
  have "keeps k s (set_lifecycle flow FlowReady now s)" using r Some so by (intro keeps_steps) auto
  moreover have "keeps k s (fst (handle_deadline_miss flow now (s, outcome)))"
    using keeps_handle_deadline_miss [where flow = flow and so = "(s, outcome)" and k = k and now = now] r Some so
    by auto
  moreover have "keeps k s (fail_dependent flow now s)" using r Some so by (intro keeps_fail_dependent) auto
  ultimately show ?thesis
    using Some by (auto simp: refresh_waiting_def so keeps_refl keeps_then_quiet split: prod.split)
qed (cases so, simp add: refresh_waiting_def keeps_refl)

lemma keeps_refresh_waiting_all:
  assumes "distinct flows" "\<And>j r. j \<in> set flows \<Longrightarrow> om_find j (im_flows (fst so)) = Some r \<Longrightarrow> index_slot (fr_lifecycle r) = 1"
  shows "keeps k (fst so) (fst (fold (refresh_waiting now) flows so))"
  using assms
proof (induction flows arbitrary: so)
  case (Cons flow flows)
  have "keeps k (fst so) (fst (refresh_waiting now flow so))" using Cons.prems by (intro keeps_refresh_waiting) auto
  moreover have "keeps k (fst (refresh_waiting now flow so)) (fst (fold (refresh_waiting now) flows (refresh_waiting now flow so)))"
  proof (rule Cons.IH)
    show "index_slot (fr_lifecycle r) = 1"
      if "j \<in> set flows" "om_find j (im_flows (fst (refresh_waiting now flow so))) = Some r" for j r
    proof -
      have "j \<noteq> flow" using that(1) Cons.prems(1) by auto
      then have "om_find j (im_flows (fst so)) = Some r" using that(2) by (simp add: refresh_waiting_other)
      with that(1) show ?thesis by (intro Cons.prems(2)) auto
    qed
  qed (use Cons.prems(1) in simp)
  ultimately show ?case by (auto intro: keeps_trans)
qed (simp add: keeps_refl)

lemma os_wf_distinct: "os_wf xs \<Longrightarrow> distinct xs"
  by (auto simp: os_wf_def strict_sorted_iff)

lemma keeps_refresh_lifecycles: "keeps k (fst so) (fst (refresh_lifecycles now so))"
proof (rule keepsI)
  assume wf: "core_wf (fst so)"
  let ?w = "fold (refresh_waiting now) (im_waiting_index (fst so)) so"
  have "keeps k (fst so) (fst ?w)"
    using core_wf_tables [OF wf] index_members(1) [OF core_wf_tables [OF wf]]
    by (intro keeps_refresh_waiting_all) (auto simp: tables_wf_def index_wf_def os_wf_distinct)
  moreover have "keeps k (fst p) (fst (refresh_inflight now flow p))" for flow p
    using keeps_note_deadline_miss by (auto simp: refresh_inflight_def keeps_refl split: option.split)
  then have "keeps k (fst ?w) (fst (fold (refresh_inflight now) (im_inflight_index (fst ?w)) ?w))"
    by (intro keeping.pair_steps) (metis fst_conv)
  ultimately show ?thesis by (auto simp: refresh_lifecycles_def Let_def intro: keeps_trans)
qed

lemma keeps_prepare_round: "prepare_round now s = ((code, t), outcome) \<Longrightarrow> keeps k s t"
proof -
  define s0 where "s0 = s\<lparr>im_last_tick := now, im_arbitration_rounds := im_arbitration_rounds s + 1\<rparr>"
  define so where "so = refresh_lifecycles now (reclaim_expired_deliveries now (s0, empty_outcome))"
  have "keeps k s s0" by (rule keeps_same_core, rule same_coreI) (simp_all add: s0_def)
  moreover have "keeps k s0 (fst (reclaim_expired_deliveries now (s0, empty_outcome)))"
    using keeps_reclaim_loop [of k "(s0, empty_outcome)"] by (simp add: reclaim_expired_deliveries_def)
  moreover have "keeps k (fst (reclaim_expired_deliveries now (s0, empty_outcome))) (fst so)"
    unfolding so_def by (rule keeps_refresh_lifecycles)
  moreover have "keeps k t (snd (stop_overdue now a t))" for a t
    unfolding stop_overdue_def
    by (intro keeping.and_then_steps keeps_close_attempt keeps_succeed keeps_same_core same_coreI) simp_all
  then have "keeps k (fst so) (snd (for_each (stop_overdue now) (overdue_attempts now (fst so)) (fst so)))"
    by (intro keeping.for_each_steps)
  moreover assume "prepare_round now s = ((code, t), outcome)"
  then have "t = snd (for_each (stop_overdue now) (overdue_attempts now (fst so)) (fst so))"
    by (auto simp: prepare_round_def Let_def s0_def so_def)
  ultimately show "keeps k s t" by (blast intro: keeps_trans)
qed

lemma keeps_mark_starvation: "keeps k s (mark_starvation now flow s)"
  by (auto simp: mark_starvation_def keeps_refl quiet_def intro!: keeps_quiet split: option.split)

lemma rn_impl_simps [simp]:
  "rn_impl (on_impl f rn) = f (rn_impl rn)" "rn_impl (on_outcome g rn) = rn_impl rn"
  "rn_impl (round_defer r reason detail rn) = rn_impl rn" "rn_impl (grant key r rr now rn) = rn_impl rn"
  by (simp_all add: on_impl_def on_outcome_def round_defer_def grant_def Let_def)

lemma keeps_displace: "keeps k (rn_impl rn) (rn_impl (snd (displace key r victim va vr now rn)))"
proof -
  obtain code s where close: "close_attempt victim AttemptPreempted (lit ''displaced by higher authority'') now (rn_impl rn) = (code, s)"
    by force
  then have keep: "keeps k (rn_impl rn) s"
    using keeps_close_attempt [OF closing_states(1), of k "rn_impl rn" victim "lit ''displaced by higher authority''" now]
    by simp
  have "keeps k (rn_impl rn) (modify_resource resource f
      (s\<lparr>im_preemptions_issued := m, im_preemptions_in_window := n\<rparr>))" for resource f m n
    by (rule keeps_then_same [OF same_coreI keep]) simp_all
  with keep show ?thesis by (auto simp: displace_def Let_def close)
qed

lemma keeps_make_room: "keeps k (rn_impl rn) (rn_impl (snd (make_room key r rr now rn)))"
proof -
  have "keeps k (rn_impl rn) (rn_impl rn')" if "displace key r victim va vr now rn = (code, rn')" for victim va vr code rn'
    using keeps_displace [of k rn key r victim va vr now] that by simp
  then show ?thesis
    by (auto simp: make_room_def Let_def keeps_refl split: option.split prod.split)
qed

lemma keeps_place_candidate: "keeps k (rn_impl rn) (rn_impl (snd (place_candidate flow key r now rn)))"
proof -
  have roll: "keeps k (rn_impl rn) (rn_impl (on_impl (modify_resource resource f) rn))" for resource f
    by (simp add: keeps_same_core)
  have "keeps k (rn_impl rn) (rn_impl rn2)"
    if "make_room key r rr now (on_impl (modify_resource resource f) rn) = (res, rn2)" for rr resource f res rn2
    using keeps_trans [OF roll keeps_make_room] that by (metis snd_conv)
  then show ?thesis
    by (auto simp: place_candidate_def Let_def keeps_refl split: option.split prod.split)
qed

lemma keeps_readiness_lapsed:
  assumes "om_find flow (im_flows (rn_impl rn)) = Some r" "fr_lifecycle r = FlowReady"
  shows "keeps k (rn_impl rn) (rn_impl (readiness_lapsed flow r reason now rn))"
proof -
  have "keeps k (rn_impl rn) (fst (handle_deadline_miss flow now (rn_impl rn, rn_outcome rn)))"
    using keeps_handle_deadline_miss [where flow = flow and so = "(rn_impl rn, rn_outcome rn)" and k = k and now = now] assms
    by simp
  moreover have "keeps k (rn_impl rn) (fail_dependent flow now (rn_impl rn))"
    using assms by (intro keeps_fail_dependent) auto
  ultimately show ?thesis
    by (simp add: readiness_lapsed_def keeps_refl split: prod.split) (metis fst_conv)
qed

lemma keeps_consider_candidate:
  "keeps k (rn_impl rn) (rn_impl (snd (consider_candidate limit now candidate rn)))"
  by (auto simp: consider_candidate_def keeps_refl keeps_place_candidate keeps_readiness_lapsed
      split: prod.split option.split)

text \<open>The same relation on rounds.\<close>

interpretation placing: state_relation "\<lambda>rn rn'. keeps k (rn_impl rn) (rn_impl rn')" for k
  by unfold_locales (auto intro: keeps_refl keeps_trans)

lemma keeps_placement: "placement now s outcome = (code, rn) \<Longrightarrow> keeps k s (rn_impl rn)"
proof -
  let ?s1 = "fold (mark_starvation now) (im_ready_index s) s"
  let ?start = "round_start (roll_preemption_window now ?s1, outcome)"
  have "keeps k s ?s1" by (intro keeping.fold_steps keeps_mark_starvation)
  moreover have "same_core ?s1 (roll_preemption_window now ?s1)"
    by (rule same_coreI) (simp_all add: roll_preemption_window_def Let_def)
  then have "keeps k ?s1 (rn_impl ?start)" by (simp add: round_start_def keeps_same_core)
  moreover have "keeps k (rn_impl ?start) (rn_impl (snd (for_each (consider_candidate (entry_limit (im_policy s)) now)
      (ranked_candidates now s) ?start)))"
    by (intro placing.for_each_steps keeps_consider_candidate)
  moreover assume "placement now s outcome = (code, rn)"
  ultimately show "keeps k s (rn_impl rn)"
    by (auto simp: placement_def Let_def intro: keeps_trans)
qed

lemma apply_schedule_ids:
  "im_next_schedule (apply_schedule sched s) = im_next_schedule s
   \<and> im_next_schedule_generation (apply_schedule sched s) = im_next_schedule_generation s"
proof -
  have "im_next_schedule (apply_schedule_entry sched e s) = im_next_schedule s
      \<and> im_next_schedule_generation (apply_schedule_entry sched e s) = im_next_schedule_generation s" for e s
    by (simp add: apply_schedule_entry_def place_flow_def charge_resource_def charge_reservation_def
        advance_clock_def Let_def split: option.split)
  then have "im_next_schedule (fold (apply_schedule_entry sched) es s) = im_next_schedule s
      \<and> im_next_schedule_generation (fold (apply_schedule_entry sched) es s) = im_next_schedule_generation s" for es s
    by (induction es arbitrary: s) simp_all
  then show ?thesis by (simp add: apply_schedule_def)
qed

lemma journal_ids:
  "im_next_schedule (snd (journal type payload s)) = im_next_schedule s"
  "im_next_schedule_generation (snd (journal type payload s)) = im_next_schedule_generation s"
  by (simp_all add: journal_def split: option.split prod.split)

lemma advance_schedule_ids_cases:
  assumes "advance_schedule_ids s = (code, t)" "code = Ok \<or> ids_left t"
  shows "\<exists>i g. advance (im_next_schedule s) = Inr i \<and> t = with_ids i g s"
proof (cases "advance (im_next_schedule s)")
  case (Inl e)
  with assms show ?thesis using advance_fails_iff [of "im_next_schedule s" e]
    by (simp add: advance_schedule_ids_def ids_left_def)
next
  case (Inr i)
  with assms show ?thesis
    using advance_fails_iff [of "im_next_schedule_generation s"]
    by (cases "advance (im_next_schedule_generation s)")
      (auto simp: advance_schedule_ids_def ids_left_def with_ids_def)
qed

lemma keeps_issue:
  assumes run: "issue_schedule entries now s = (code, u)" and left: "code = Ok \<or> ids_left u"
  shows "keeps k s u"
proof -
  define s0 where "s0 = s\<lparr>im_provenance_sequence := im_provenance_sequence s + 1\<rparr>"
  define sched where "sched = build_schedule s entries now"
  define payload where "payload = take_record [write_schedule sched]"
  have sched: "sc_schedule sched = im_next_schedule s" by (simp add: sched_def build_schedule_def Let_def)
  have "same_core s s0" by (rule same_coreI) (simp_all add: s0_def)
  obtain code1 t where j: "journal RecScheduleIssued payload s0 = (code1, t)" by force
  have t: "keeps k s t"
    using keeps_trans [OF keeps_same_core [OF \<open>same_core s s0\<close>] keeps_journal] j by (metis snd_conv)
  have run': "and_then (journal RecScheduleIssued payload)
      (and_then (succeed (apply_schedule sched)) advance_schedule_ids) s0 = (code, u)"
    using run unfolding issue_schedule_def Let_def s0_def sched_def payload_def .
  show ?thesis
  proof (cases "code1 = Ok")
    case True
    then have "advance_schedule_ids (apply_schedule sched t) = (code, u)"
      using run' j by (simp add: and_then_def)
    then obtain i g where i: "advance (im_next_schedule (apply_schedule sched t)) = Inr i"
      and u: "u = with_ids i g (apply_schedule sched t)"
      using advance_schedule_ids_cases left by blast
    have "im_next_schedule t = im_next_schedule s"
      using journal_ids(1) [of RecScheduleIssued payload s0] j by (simp add: s0_def)
    then have "keeps k t u"
      unfolding u by (intro keeps_issue_schedule) (use i apply_schedule_ids [of sched t] sched in auto)
    with t show ?thesis by (rule keeps_trans)
  next
    case False
    then have "u = t" using run' j by (simp add: and_then_def)
    with t show ?thesis by simp
  qed
qed

lemma keeps_finish_round: "keeps k s (finish_round now s)"
  unfolding finish_round_def maybe_retire_schedules_def
  by (rule keeps_trans [OF keeps_normalize keeps_retire_loop])

lemma keeps_arbitrate:
  assumes run: "arbitrate now s = (outcome, t)" and left: "ids_left t"
  shows "keeps k s t"
proof (cases "now < im_last_tick s")
  case False
  obtain code1 s1 outcome1 where 1: "prepare_round now s = ((code1, s1), outcome1)"
    by (metis prod.exhaust)
  obtain code2 rn where 2: "placement now s1 outcome1 = (code2, rn)" by force
  obtain code3 s3 where 3: "issue_schedule (rn_entries rn) now (rn_impl rn) = (code3, s3)" by force
  have k1: "keeps k s s1" by (rule keeps_prepare_round [OF 1])
  then have k2: "keeps k s (rn_impl rn)" by (rule keeps_trans) (rule keeps_placement [OF 2])
  have k3: "keeps k s s3" if "code3 = Ok \<or> ids_left s3"
    using k2 by (rule keeps_trans) (rule keeps_issue [OF 3 that])
  from run left k1 k2 k3 show ?thesis
    unfolding arbitrate_def 1 prod.case 2 3
    by (auto simp: False intro: keeps_trans [OF _ keeps_finish_round] split: if_splits)
qed (use run in \<open>simp add: arbitrate_def keeps_refl\<close>)

section \<open>The public operations\<close>

lemma keeps_observe_tick: "keeps k s (observe_tick now s)"
  by (rule keeps_same_core, rule same_coreI) (simp_all add: observe_tick_def)

lemmas operation_steps = keeping.and_then_steps keeps_journal keeps_check keeps_succeed

lemma keeps_registrations:
  "keeps k s (snd (register_resource rd s))" "keeps k s (snd (register_reservation rv s))"
  "keeps k s (snd (retire_reservation i g s))" "keeps k s (snd (register_priority_class pd s))"
  "keeps k s (snd (register_qos_class qd s))" "keeps k s (snd (install_policy p s))"
proof -
  have same: "keeps k s (apply_resource rd s)" "keeps k s (apply_reservation rv s)"
    "keeps k s (apply_retire_reservation i g s)" "keeps k s (apply_priority_class pd s)"
    "keeps k s (apply_qos_class qd s)" "keeps k s (apply_policy p s)" for s
    by (rule keeps_same_core; rule same_coreI; simp add: apply_resource_def apply_reservation_def
        apply_retire_reservation_def apply_priority_class_def apply_qos_class_def apply_policy_def Let_def
        split: option.split)+
  show "keeps k s (snd (register_resource rd s))" "keeps k s (snd (register_reservation rv s))"
    "keeps k s (snd (register_priority_class pd s))"
    "keeps k s (snd (register_qos_class qd s))" "keeps k s (snd (install_policy p s))"
    unfolding register_resource_def register_reservation_def register_priority_class_def
      register_qos_class_def install_policy_def by (intro operation_steps same)+
  have "keeps k s (snd (and_then (journal type payload) (succeed (apply_retire_reservation i g)) s))"
    for type payload by (intro operation_steps same)
  then show "keeps k s (snd (retire_reservation i g s))"
    by (simp add: retire_reservation_def keeps_refl split: option.split)
qed

lemma journal_flows: "journal type payload s = (code, t) \<Longrightarrow> im_flows t = im_flows s"
  by (auto simp: journal_def split: option.splits prod.splits)

lemma check_Ok [simp]: "check code s = (Ok, t) \<longleftrightarrow> code = Ok \<and> t = s"
  by auto

lemma keeps_admit_flow: "keeps k s (snd (admit_flow d s))"
  unfolding admit_flow_def
  by (intro operation_steps keeps_apply_admit) (auto dest: journal_flows split: if_splits)

lemma keeps_update_flow: "keeps k s (snd (update_flow d s))"
proof -
  have "keeps k s (snd (and_then (check c1) (and_then (check c2) (and_then (check c3)
      (and_then (journal type payload) (and_then (apply_update d)
        (succeed (\<lambda>s. release_scheduled_entry (fd_flow d) (im_last_tick s) s)))))) s))"
    if "om_find (fd_flow d) (im_flows s) = Some r" "c1 = Ok \<Longrightarrow> fd_generation (fr_descriptor r) \<le> fd_generation d"
    for r c1 c2 c3 type payload
    by (intro operation_steps keeps_apply_update keeps_release_scheduled_entry)
      (use that in \<open>auto dest: journal_flows\<close>)
  note step = this
  have guard: "keeps k s (snd (and_then (check code) f s))" if "keeps k s (snd (f s))" for code f
    using that by (intro keeping.and_then_steps keeps_check) simp
  show ?thesis
  proof (cases "om_find (fd_flow d) (im_flows s)")
    case None
    then show ?thesis by (simp add: update_flow_def and_then_def keeps_refl split: prod.split)
  next
    case (Some r)
    have "fd_generation (fr_descriptor r) \<le> fd_generation d"
      if "(case advance (fd_generation (fr_descriptor r)) of Inl e \<Rightarrow> e
        | Inr expected \<Rightarrow> if fd_generation d \<noteq> expected then InvalidArgument else Ok) = Ok"
      using that advance_greater [of "fd_generation (fr_descriptor r)"] advance_fails_iff
      by (auto split: sum.splits if_splits)
    then show ?thesis
      unfolding update_flow_def by (intro guard) (simp only: Some option.case, rule step [OF Some])
  qed
qed

lemma keeps_with_flow:
  assumes "\<And>r. om_find flow (im_flows s) = Some r \<Longrightarrow> fd_generation (fr_descriptor r) = generation \<Longrightarrow>
    keeps k s (snd (f r s))"
  shows "keeps k s (snd (with_flow flow generation f s))"
  using assms by (auto simp: with_flow_def keeps_refl split: option.split)

lemma observe_tick_flows [simp]: "im_flows (observe_tick now s) = im_flows s"
  by (simp add: observe_tick_def)

lemma keeps_cancel_flow: "keeps k s (snd (cancel_flow flow generation reason now s))"
proof -
  let ?cancel = "\<lambda>s. normalize_transient_states now (apply_cancel flow generation now s)"
  have "keeps k t (snd (and_then (journal type payload) (succeed ?cancel) t))"
    if "\<And>r. om_find flow (im_flows t) = Some r \<Longrightarrow> \<not> is_terminal (fr_lifecycle r)" for t type payload
  proof (intro operation_steps)
    fix u assume "journal type payload t = (Ok, u)"
    then have "im_flows u = im_flows t" by (rule journal_flows)
    with that show "keeps k u (?cancel u)" by (intro keeps_trans [OF keeps_apply_cancel keeps_normalize]) simp
  qed
  note step = this
  show ?thesis
    unfolding cancel_flow_def
    by (intro keeps_trans [OF keeps_observe_tick keeps_with_flow])
      (simp add: keeps_refl, intro impI step, simp)
qed

lemma keeps_notify_readiness: "keeps k s (snd (notify_readiness flow generation signal now s))"
proof -
  have "keeps k t (apply_readiness flow generation signal now t)" for t
    by (auto simp: apply_readiness_def quiet_def keeps_refl intro!: keeps_quiet split: option.split)
  then show ?thesis
    unfolding notify_readiness_def
    by (intro keeps_trans [OF keeps_observe_tick keeps_with_flow])
      (auto simp: keeps_refl intro!: operation_steps)
qed

lemma keeps_resolve_ambiguous: "keeps k s (snd (resolve_ambiguous flow generation resolution now s))"
proof -
  have "keeps k t (apply_ambiguity_resolved flow generation resolution now t)" for t
    unfolding apply_ambiguity_resolved_def
    by (auto simp: current_flow_def keeps_refl split: option.split intro!: keeps_steps)
  then show ?thesis
    unfolding resolve_ambiguous_def
    by (intro keeps_trans [OF keeps_observe_tick keeps_with_flow])
      (auto simp: keeps_refl intro!: operation_steps)
qed

lemma keeps_advance_epoch: "keeps k s (snd (advance_epoch reason now s))"
proof -
  have "keeps k s (snd (journal type payload (observe_tick now s)))" for type payload
    by (rule keeps_trans [OF keeps_observe_tick keeps_journal])
  then have "keeps k s t" "keeps k s (apply_epoch_advance previous nxt reason now t)"
    if "journal type payload (observe_tick now s) = (code, t)" for type payload code t previous nxt
    using that keeps_trans [OF _ keeps_epoch_advance] by (metis snd_conv)+
  then show ?thesis
    by (auto simp: advance_epoch_def Let_def keeps_observe_tick split: sum.split prod.split)
qed

lemma keeps_release_schedule: "keeps k s (snd (release_schedule schedule generation now s))"
proof -
  have "keeps k t (normalize_transient_states now (apply_release_schedule schedule now t))" for t
    by (rule keeps_trans [OF keeps_apply_release_schedule keeps_normalize])
  then have "keeps k t (snd (and_then (journal type payload)
      (succeed (\<lambda>s. normalize_transient_states now (apply_release_schedule schedule now s))) t))" for t type payload
    by (intro operation_steps)
  then have "keeps k s (snd (and_then (journal type payload)
      (succeed (\<lambda>s. normalize_transient_states now (apply_release_schedule schedule now s))) (observe_tick now s)))"
    for type payload by (rule keeps_trans [OF keeps_observe_tick])
  then show ?thesis
    by (auto simp: release_schedule_def Let_def keeps_observe_tick split: option.split)
qed

end
