(* ===== verification/Recovery.thy ===== *)
theory Recovery
  imports Facade
begin

text \<open>
  Restart of a durable scheduler (\<^verbatim>\<open>apply_record\<close>, \<^verbatim>\<open>recover\<close>, \<^verbatim>\<open>initialize\<close> and
  \<^verbatim>\<open>Scheduler::create\<close> of \<^verbatim>\<open>src/scheduler.cpp\<close>): the snapshot is loaded, every record behind it is
  replayed through the transition that the live operation used, and the epoch advances before any
  call is accepted.
\<close>

section \<open>\<^verbatim>\<open>apply_record\<close>\<close>

definition epoch_reasons :: "epoch_reason list" where
  "epoch_reasons =
     [EpochExplicit, EpochCoordinatorRestart, EpochPolicyChange, EpochTopologyChange, EpochRecovery]"

definition readiness_signals :: "readiness_signal list" where
  "readiness_signals = [SignalUnset, SignalReady, SignalNotReady]"

definition ambiguity_resolutions :: "ambiguity_resolution list" where
  "ambiguity_resolutions = [ResolveRetry, ResolveAbandon]"

text \<open>
  A case of \<^verbatim>\<open>apply_record\<close>: the fields are read, the transition is applied, and only then the record
  must be exhausted.
\<close>

definition replay_fields :: "'a reader \<Rightarrow> ('a \<Rightarrow> impl action) \<Rightarrow> bytes \<Rightarrow> impl action" where
  "replay_fields r f payload s = (case r payload of
     Inl e \<Rightarrow> (e, s)
   | Inr (x, rest) \<Rightarrow> and_then (f x) (check (if rest \<noteq> [] then CorruptData else Ok)) s)"

definition rd_pair :: "'a reader \<Rightarrow> 'b reader \<Rightarrow> ('a \<times> 'b) reader" where
  "rd_pair r q = rd_bind r (\<lambda>x. rd_bind q (\<lambda>y. rd_return (x, y)))"

definition replay_closed :: "bytes \<Rightarrow> impl action" where
  "replay_closed = replay_fields
     (rd_pair rd_id (rd_pair (rd_enum attempt_states) (rd_pair rd_u64 rd_text)))
     (\<lambda>(attempt, state, tick, detail). succeed
        (\<lambda>s. normalize_transient_states tick (apply_attempt_closed attempt state detail tick s)))"

definition replay_completion :: "bytes \<Rightarrow> impl action" where
  "replay_completion = replay_fields
     (rd_pair read_evidence (rd_pair rd_u64 (rd_pair (rd_enum lifecycles) rd_u64)))
     (\<lambda>(evidence, credited, lifecycle, tick). succeed
        (apply_completion evidence credited lifecycle tick))"

definition replay_resolution :: "bytes \<Rightarrow> impl action" where
  "replay_resolution = replay_fields
     (rd_pair rd_id (rd_pair rd_id (rd_pair (rd_enum ambiguity_resolutions) rd_u64)))
     (\<lambda>(flow, generation, resolution, tick). succeed
        (apply_ambiguity_resolved flow generation resolution tick))"

fun apply_record :: "journal_record_type \<Rightarrow> bytes \<Rightarrow> impl action" where
  "apply_record RecPolicyInstalled payload = replay_fields read_policy
     (\<lambda>p. and_then (check (validate_policy p)) (succeed (apply_policy p))) payload"
| "apply_record RecResourceRegistered payload = replay_fields read_resource
     (\<lambda>d. and_then (check (validate_resource d)) (succeed (apply_resource d))) payload"
| "apply_record RecReservationRegistered payload = replay_fields read_reservation
     (\<lambda>d. and_then (check (validate_reservation d)) (succeed (apply_reservation d))) payload"
| "apply_record RecReservationRetired payload = replay_fields (rd_pair rd_id rd_id)
     (\<lambda>(reservation, generation). succeed (apply_retire_reservation reservation generation)) payload"
| "apply_record RecPriorityClassRegistered payload = replay_fields read_priority_class
     (\<lambda>d. and_then (check (validate_priority d)) (succeed (apply_priority_class d))) payload"
| "apply_record RecQoSClassRegistered payload = replay_fields read_qos_class
     (\<lambda>d. and_then (check (validate_qos d)) (succeed (apply_qos_class d))) payload"
| "apply_record RecEpochAdvanced payload = replay_fields
     (rd_pair rd_id (rd_pair rd_id (rd_pair (rd_enum epoch_reasons) rd_u64)))
     (\<lambda>(previous, nxt, reason, tick). succeed (apply_epoch_advance previous nxt reason tick)) payload"
| "apply_record RecFlowAdmitted payload = replay_fields read_flow_descriptor
     (\<lambda>d. and_then (check (validate_flow d)) (apply_admit d)) payload"
| "apply_record RecFlowUpdated payload = replay_fields read_flow_descriptor
     (\<lambda>d. and_then (check (validate_flow d)) (apply_update d)) payload"
| "apply_record RecFlowReadinessChanged payload = replay_fields
     (rd_pair rd_id (rd_pair rd_id (rd_pair (rd_enum readiness_signals) rd_u64)))
     (\<lambda>(flow, generation, signal, tick). succeed (apply_readiness flow generation signal tick)) payload"
| "apply_record RecFlowCancelled payload = replay_fields (rd_pair rd_id (rd_pair rd_id rd_u64))
     (\<lambda>(flow, generation, tick). succeed
        (\<lambda>s. normalize_transient_states tick (apply_cancel flow generation tick s))) payload"
| "apply_record RecFlowRetired payload = replay_fields (rd_pair rd_id rd_id)
     (\<lambda>(flow, generation). succeed (apply_retire_flow flow generation)) payload"
| "apply_record RecScheduleIssued payload = replay_fields read_schedule
     (\<lambda>sched. succeed (apply_schedule sched)) payload"
| "apply_record RecScheduleReleased payload = replay_fields (rd_pair rd_id rd_u64)
     (\<lambda>(schedule, tick). succeed (apply_release_schedule schedule tick)) payload"
| "apply_record RecAttemptOpened payload = replay_fields (rd_pair read_ticket (rd_pair rd_u64 rd_u64))
     (\<lambda>(ticket, nominal, tick). succeed (apply_attempt_opened ticket nominal tick)) payload"
| "apply_record RecAttemptStarted payload = replay_fields (rd_pair rd_id rd_u64)
     (\<lambda>(attempt, tick). succeed (apply_attempt_started attempt tick)) payload"
| "apply_record RecAttemptClosed payload = replay_closed payload"
| "apply_record RecCompletionCommitted payload = replay_completion payload"
| "apply_record RecAmbiguityResolved payload = replay_resolution payload"
| "apply_record RecCheckpoint payload = check Ok"
| "apply_record RecUnknown payload = check Ok"
| "apply_record (RecUnlisted code) payload = check Unsupported"

section \<open>\<^verbatim>\<open>recover\<close>\<close>

definition replay_visitor :: "impl visitor" where
  "replay_visitor view = apply_record (jv_type view) (jv_payload view)"

definition note_replay :: "bool \<Rightarrow> journal_scan_report \<Rightarrow> durable_store \<Rightarrow> impl \<Rightarrow> impl" where
  "note_replay have_snapshot report store s = s\<lparr>im_recovery := (im_recovery s)\<lparr>
     rp_journal_records_replayed := jr_records report,
     rp_journal_bytes_replayed := jr_bytes report,
     rp_tail_truncated := jr_tail_truncated report \<or> ds_open_tail_truncated store,
     rp_recovered := have_snapshot \<or> jr_records report > 0,
     rp_epoch_before := im_epoch s,
     rp_flows_restored := of_nat (length (im_flows s)),
     rp_resources_restored := of_nat (length (im_resources s)),
     rp_reservations_restored := of_nat (length (im_reservations s)),
     rp_priority_classes_restored := of_nat (length (im_priority_classes s)),
     rp_qos_classes_restored := of_nat (length (im_qos_classes s))\<rparr>\<rparr>"

text \<open>The new incarnation: its epoch is journalled before it retires the authority of the old one.\<close>

definition begin_incarnation :: "impl action" where
  "begin_incarnation s =
     (let previous = (if id_valid (im_epoch s) then im_epoch s else Ident 0) in
      case advance previous of
        Inl e \<Rightarrow> (e, s)
      | Inr nxt \<Rightarrow>
          and_then (journal RecEpochAdvanced (take_record
            [rw_id previous, rw_id nxt, rw_u8 (epoch_reason_code EpochRecovery), rw_u64 (im_last_tick s)]))
          (succeed (\<lambda>s.
            let t = apply_epoch_advance previous nxt EpochRecovery (im_last_tick s) s in
            t\<lparr>im_recovery := (im_recovery t)\<lparr>
               rp_epoch_after := im_epoch t,
               rp_detail := (if rp_recovered (im_recovery t)
                  then lit ''recovered durable state; epoch advanced''
                  else lit ''fresh durable state; epoch initialized'')\<rparr>\<rparr>)) s)"

definition replay_journal :: "bool \<Rightarrow> durable_store \<Rightarrow> impl action" where
  "replay_journal have_snapshot store s =
     (case store_replay True replay_visitor s store of (code, report, s1, store1) \<Rightarrow>
        let s2 = s1\<lparr>im_store := Some store1\<rparr> in
        case report of
          None \<Rightarrow> (code, s2)
        | Some report \<Rightarrow>
            if code \<noteq> Ok then (code, s2)
            else begin_incarnation (note_replay have_snapshot report store1 s2))"

definition recover :: "durable_store \<Rightarrow> impl action" where
  "recover store s0 =
     (case store_read_snapshot store of (snapshot, store1) \<Rightarrow>
        let s = s0\<lparr>im_store := Some store1\<rparr> in
        case snapshot of
          Inr payload \<Rightarrow>
            (case apply_state_snapshot payload s of (code, s1) \<Rightarrow>
               if code \<noteq> Ok then (code, s1)
               else replay_journal True store1
                 (s1\<lparr>im_recovery := (im_recovery s1)\<lparr>rp_snapshot_records := 1\<rparr>\<rparr>))
        | Inl e \<Rightarrow> if e \<noteq> NotFound then (e, s) else replay_journal False store1 s)"

section \<open>Starting a scheduler\<close>

definition initialize :: "disk \<Rightarrow> impl action" where
  "initialize d s =
     (if opt_state_directory (im_options s) = [] then (Ok, initialize_volatile s)
      else case store_open (opt_state_directory (im_options s)) (opt_flush_to_storage (im_options s)) d of
        Inl e \<Rightarrow> (e, s)
      | Inr store \<Rightarrow> recover store s)"

definition create :: "scheduler_options \<Rightarrow> disk \<Rightarrow> impl result" where
  "create options d =
     (if validate_policy (opt_policy options) \<noteq> Ok then Inl (validate_policy (opt_policy options))
      else case initialize d (impl_new options) of (code, s) \<Rightarrow>
        if code \<noteq> Ok then Inl code else Inr s)"

end
