(* ===== verification/Restart.thy ===== *)
theory Restart
  imports Preservation Recovery
begin

text \<open>
  What a restart does to the state: whatever the disk held, the new incarnation starts without any
  dispatch authority of the old one; and from the disk that a checkpoint left it starts from the
  checkpointed state, so that the invariant holds again.
\<close>

section \<open>The new incarnation\<close>

lemma journal_store: "journal type payload s = (code, t) \<Longrightarrow> \<exists>store. t = s\<lparr>im_store := store\<rparr>"
  by (auto simp: journal_def split: option.splits prod.splits) (metis impl.surjective impl.update_convs(35))

text \<open>A reported error is never the success code.\<close>

lemma errors_reported:
  "advance i \<noteq> Inl Ok" "store_open directory flush d \<noteq> Inl Ok"
  "fst (store_read_snapshot store) \<noteq> Inl Ok" "store_replay repair visit v store \<noteq> (Ok, None, v', store')"
  subgoal by (auto simp: advance_def checked_next_def try_assign_def split: sum.splits if_splits)
  subgoal by (auto simp: store_open_def Let_def split: prod.splits if_splits)
  subgoal by (auto simp: store_read_snapshot_def decode_snapshot_blob_def Let_def split: option.splits prod.splits if_splits)
  subgoal by (auto simp: store_replay_def Let_def split: prod.splits if_splits)
  done

lemma begin_incarnation_effect:
  assumes "begin_incarnation s = (Ok, t)"
  shows "\<exists>store report previous nxt. id_value previous = id_value (im_epoch s) \<and> advance previous = Inr nxt
    \<and> t = (apply_epoch_advance previous nxt EpochRecovery (im_last_tick s)
            (s\<lparr>im_store := store\<rparr>))\<lparr>im_recovery := report\<rparr>"
proof -
  define previous where "previous = (if id_valid (im_epoch s) then im_epoch s else Ident 0)"
  obtain nxt u where nxt: "advance previous = Inr nxt" and j: "journal RecEpochAdvanced (take_record
      [rw_id previous, rw_id nxt, rw_u8 (epoch_reason_code EpochRecovery), rw_u64 (im_last_tick s)]) s = (Ok, u)"
    and t: "\<exists>report. t = (apply_epoch_advance previous nxt EpochRecovery (im_last_tick u) u)\<lparr>im_recovery := report\<rparr>"
    using assms unfolding begin_incarnation_def previous_def [symmetric] Let_def
    by (auto simp: and_then_eq errors_reported split: sum.splits)
  obtain store where "u = s\<lparr>im_store := store\<rparr>" using journal_store [OF j] by blast
  moreover have "id_value previous = id_value (im_epoch s)"
    by (simp add: previous_def id_valid_def)
  ultimately show ?thesis using nxt t by auto
qed

lemma replay_journal_incarnation:
  "replay_journal have store s = (Ok, t) \<Longrightarrow> \<exists>u. begin_incarnation u = (Ok, t)"
  by (auto simp: replay_journal_def Let_def errors_reported split: prod.splits option.splits if_splits)

lemma create_incarnation:
  assumes "create options d = Inr t" "opt_state_directory options \<noteq> []"
  shows "\<exists>u. begin_incarnation u = (Ok, t)"
proof -
  have "im_options (impl_new options) = options" by (simp add: impl_new_def)
  then obtain store where "recover store (impl_new options) = (Ok, t)"
    using assms by (auto simp: create_def initialize_def errors_reported split: if_splits prod.splits sum.splits)
  then show ?thesis
    using errors_reported(3) [of store]
    by (auto simp: recover_def Let_def split: prod.splits sum.splits if_splits dest: replay_journal_incarnation)
qed

definition with_indexes :: "flow_id list \<Rightarrow> flow_id list \<Rightarrow> flow_id list \<Rightarrow> impl \<Rightarrow> impl" where
  "with_indexes a b c s = s\<lparr>im_waiting_index := a, im_ready_index := b, im_inflight_index := c\<rparr>"

lemma with_indexes_simps:
  "with_indexes a b c (with_indexes a' b' c' s) = with_indexes a b c s"
  "with_indexes (im_waiting_index s) (im_ready_index s) (im_inflight_index s) s = s"
  by (simp_all add: with_indexes_def)

lemma index_insert_frame':
  "\<exists>a b c. index_insert n k s = with_indexes a b c s"
  by (rule exI [of _ "im_waiting_index (index_insert n k s)"], rule exI [of _ "im_ready_index (index_insert n k s)"],
      rule exI [of _ "im_inflight_index (index_insert n k s)"])
    (simp add: index_insert_def with_indexes_def)

lemma reindex_frame: "\<exists>a b c. reindex_all s = with_indexes a b c s"
proof -
  have "\<exists>a b c. fold (\<lambda>(k, r :: flow_runtime). index_insert (index_slot (fr_lifecycle r)) k) m u
      = with_indexes a b c u" for m u
  proof (induction m arbitrary: u)
    case Nil
    have "u = with_indexes (im_waiting_index u) (im_ready_index u) (im_inflight_index u) u"
      by (simp only: with_indexes_simps)
    then show ?case unfolding fold_simps by blast
  next
    case (Cons e m)
    obtain k r where e: "e = (k, r)" by (cases e)
    obtain a b c where 1: "index_insert (index_slot (fr_lifecycle r)) k u = with_indexes a b c u"
      using index_insert_frame' by blast
    obtain a' b' c' where "fold (\<lambda>(k, r :: flow_runtime). index_insert (index_slot (fr_lifecycle r)) k) m
        (with_indexes a b c u) = with_indexes a' b' c' (with_indexes a b c u)"
      using Cons by blast
    then show ?case by (auto simp: e 1 with_indexes_simps)
  qed
  then show ?thesis unfolding reindex_all_def with_indexes_def [symmetric] by (metis with_indexes_simps(1))
qed

lemma reindex_kept [simp]:
  "im_resources (reindex_all s) = im_resources s" "im_attempts (reindex_all s) = im_attempts s"
  "im_schedules (reindex_all s) = im_schedules s" "im_epoch (reindex_all s) = im_epoch s"
  "im_schedule_attempts (reindex_all s) = im_schedule_attempts s"
  "im_policy (reindex_all s) = im_policy s" "im_last_tick (reindex_all s) = im_last_tick s"
  "im_reservations (reindex_all s) = im_reservations s"
  "im_priority_classes (reindex_all s) = im_priority_classes s"
  "im_qos_classes (reindex_all s) = im_qos_classes s"
  "im_next_schedule_generation (reindex_all s) = im_next_schedule_generation s"
  using reindex_frame [of s] by (auto simp: with_indexes_def)

text \<open>The fence: no attempt, no schedule and no slot outlives the old incarnation.\<close>

definition fenced :: "impl \<Rightarrow> bool" where
  "fenced s \<longleftrightarrow> im_attempts s = [] \<and> im_schedules s = [] \<and> im_schedule_attempts s = []
     \<and> im_schedule_order s = []
     \<and> list_all (\<lambda>r. fr_scheduled_schedule r = unbound \<and> fr_outstanding_reserved r = 0) (om_values (im_flows s))
     \<and> list_all (\<lambda>rr. rr_in_flight rr = 0) (om_values (im_resources s))"

lemma epoch_advance_fenced: "fenced (apply_epoch_advance previous nxt reason now s)"
  by (auto simp: fenced_def apply_epoch_advance_def Let_def om_values_def list_all_iff retire_flow_authority_def
      clear_scheduled_def)

section \<open>The restored state satisfies the invariant\<close>

lemma find_durable: "om_find k (durable_values f m) = map_option f (om_find k m)"
  by (simp add: durable_values_def om_find_map_values)

lemma durable_flow_fields [simp]:
  "fr_descriptor (durable_flow r) = fr_descriptor r" "fr_lifecycle (durable_flow r) = fr_lifecycle r"
  "fr_open_attempt (durable_flow r) = fr_open_attempt r" "fr_served_work (durable_flow r) = fr_served_work r"
  by (simp_all add: durable_flow_def)

lemma durable_attempt_fields [simp]:
  "ar_ticket (durable_attempt a) = ar_ticket a" "ar_state (durable_attempt a) = ar_state a"
  by (simp_all add: durable_attempt_def)

lemma own_attempts:
  assumes "om_find i (fold own_attempt m acc) = Some as" "a \<in> set as"
  shows "(\<exists>rec. (a, rec) \<in> set m \<and> dt_schedule (ar_ticket rec) = i)
    \<or> (\<exists>as'. om_find i acc = Some as' \<and> a \<in> set as')"
  using assms
proof (induction m arbitrary: acc)
  case (Cons e m)
  obtain b rec where e: "e = (b, rec)" by (cases e)
  from Cons.IH [of "own_attempt e acc"] Cons.prems consider
    "\<exists>rec. (a, rec) \<in> set m \<and> dt_schedule (ar_ticket rec) = i"
    | as' where "om_find i (own_attempt e acc) = Some as'" "a \<in> set as'" by auto
  then show ?case
    by cases (auto simp: e own_attempt_def Let_def split: if_splits option.splits)
qed simp

lemma core_wf_restored:
  assumes wf: "core_wf s"
  shows "core_wf (count_restored (reindex_all (restored s s0)))"
proof -
  define t where "t = restored s s0"
  let ?u = "count_restored (reindex_all t)"
  have flows: "om_find k (im_flows ?u) = map_option durable_flow (om_find k (im_flows s))" for k
    by (simp add: count_restored_def t_def restored_def find_durable)
  have attempts: "om_find a (im_attempts ?u) = map_option durable_attempt (om_find a (im_attempts s))" for a
    by (simp add: count_restored_def t_def restored_def find_durable)
  have kept: "im_schedules ?u = im_schedules s" "im_next_attempt ?u = im_next_attempt s"
    "im_next_schedule ?u = im_next_schedule s"
    "im_schedule_attempts ?u = fold own_attempt (im_attempts ?u) []"
    by (simp_all add: count_restored_def t_def restored_def)
  have "flows_wf t"
    using core_wf_tables [OF wf]
    by (auto simp: t_def restored_def tables_wf_def flows_wf_def find_durable om_wf_def durable_values_simps)
  then have "tables_wf (reindex_all t)" by (rule tables_wf_reindex)
  then have "tables_wf ?u" by (rule tables_wf_cong [THEN iffD1, rotated -1]) (simp_all add: count_restored_def)
  moreover have held: "attempt_held ?u = attempt_held s"
    by (auto simp: attempt_held_def flows fun_eq_iff)
  have live: "attempt_live ?u a rec \<longleftrightarrow> (\<exists>rec'. attempt_live s a rec' \<and> rec = durable_attempt rec')" for a rec
    by (auto simp: attempt_live_def attempts)
  have auth: "holders_wf s" "counters_wf s" "identities_wf s"
    using core_wf_authority [OF wf] by (simp_all add: authority_wf_def)
  have "holders_wf ?u" using auth(1) unfolding holders_wf_def held live by fastforce
  moreover have "live_of ?u = live_of s" unfolding live_of_def live by fastforce
  then have "counters_wf ?u" using auth(2) by (simp add: counters_wf_def kept)
  moreover have ordered: "om_wf (im_attempts ?u)"
    using auth(3) by (simp add: count_restored_def t_def restored_def om_wf_def durable_values_simps identities_wf_def)
  then have "\<exists>rec. om_find a (im_attempts ?u) = Some rec \<and> dt_schedule (ar_ticket rec) = i"
    if "om_find i (im_schedule_attempts ?u) = Some as" "a \<in> set as" for i as a
    using own_attempts [where i = i and m = "im_attempts ?u" and acc = "[]" and as = as and a = a] that by (auto simp: kept(4) om_find_eq_Some)
  then have "identities_wf ?u"
    using auth(3) ordered unfolding identities_wf_def kept(1-3) by (fastforce simp: attempts)
  ultimately show ?thesis
    using core_wf_flow [OF wf] unfolding t_def [symmetric]
    by (auto simp: core_wf_def authority_wf_def flows flow_ok_def)
qed

section \<open>Restart from a checkpoint\<close>

text \<open>
  The disk a checkpoint left: its snapshot, and no record behind it.  The platform may answer the
  calls of the new process in any way.
\<close>

definition checkpoint_disk :: "impl \<Rightarrow> disk \<Rightarrow> bool" where
  "checkpoint_disk s d \<longleftrightarrow> dk_journal d = [] \<and>
     dk_snapshot d = Some (build_snapshot_blob (encode_state_snapshot s)) \<and> encode_state_snapshot s \<noteq> []
     \<and> length (encode_state_snapshot s) \<le> kMaxSnapshotPayload"

lemma checkpoint_leaves:
  assumes "checkpoint s = (Ok, t)" "im_store t = Some store"
  shows "checkpoint_disk s \<lparr>dk_journal = dk_journal store, dk_snapshot = dk_snapshot store, dk_io = io\<rparr>"
proof -
  obtain store0 where run: "store_compact (encode_state_snapshot s) store0 = (Ok, store)"
    and "encode_state_snapshot s \<noteq> []"
    using assms by (auto simp: checkpoint_def Let_def split: option.splits if_splits prod.splits)
  moreover have "\<not> ds_torn_tail_pending store"
    using run by (auto simp: store_compact_def and_then_eq)
  ultimately show ?thesis
    using store_compact_holds [OF run] by (simp add: checkpoint_disk_def store_holds_def)
qed

lemma store_open_disk:
  assumes "store_open directory flush d = Inr store"
  shows "dk_journal store = dk_journal d \<and> dk_snapshot store = dk_snapshot d"
proof -
  have "and_then io_call (and_then io_call io_call) d = (c, d') \<Longrightarrow> \<exists>io. d' = d\<lparr>dk_io := io\<rparr>" for c d'
    by (fastforce simp: and_then_eq dest!: io_call_frame)
  with assms show ?thesis
    by (fastforce simp: store_open_def Let_def split: if_splits prod.splits dest!: io_call_frame)
qed

lemma read_snapshot_disk:
  assumes "store_read_snapshot store = (result, store')"
    and "dk_snapshot store = Some (build_snapshot_blob payload)" "length payload \<le> kMaxSnapshotPayload"
  shows "(\<exists>io. store' = store\<lparr>dk_io := io\<rparr>) \<and> (result = Inr payload \<or> (\<exists>e. result = Inl e \<and> e \<noteq> NotFound))"
  using assms(1) snapshot_roundtrip [OF assms(3)] unfolding store_read_snapshot_def assms(2)
  by (auto split: prod.splits if_splits dest!: io_call_frame)

text \<open>The state that enters the new incarnation, whatever its store and its report say.\<close>

definition noted :: "impl \<Rightarrow> impl \<Rightarrow> bool" where
  "noted s t \<longleftrightarrow> (\<exists>store report. t = s\<lparr>im_store := store, im_recovery := report\<rparr>)"

lemma notedI: "noted s (s\<lparr>im_store := store, im_recovery := report\<rparr>)"
  unfolding noted_def by blast

lemma replay_empty:
  assumes "dk_journal store = []" "replay_journal have store s = (Ok, t)"
  shows "\<exists>u. noted s u \<and> begin_incarnation u = (Ok, t)"
proof -
  have scan: "scan_journal u visit [] v = (scan_start, v)" for u and visit :: "impl visitor" and v
    by (simp add: scan_journal_def scan_loop.simps scan_step_def)
  have same: "s1 = s" if "store_replay True replay_visitor s store = (code, report, s1, store1)" for code report s1 store1
    using that assms(1) by (auto simp: store_replay_def scan Let_def scan_start_def split: prod.splits if_splits
        dest!: io_call_frame)
  obtain code r s1 store1 where run: "store_replay True replay_visitor s store = (code, r, s1, store1)"
    by (metis prod_cases4)
  then obtain report where "r = Some report" "code = Ok"
    using assms(2) errors_reported(4) [of True replay_visitor s store s1 store1]
    by (auto simp: replay_journal_def Let_def split: option.splits if_splits)
  with assms(2) run same [OF run]
  have "begin_incarnation (note_replay have report store1 (s\<lparr>im_store := Some store1\<rparr>)) = (Ok, t)"
    by (simp add: replay_journal_def)
  moreover have "noted s (note_replay have report store1 (s\<lparr>im_store := Some store1\<rparr>))"
    unfolding noted_def note_replay_def by (rule exI, rule exI) (rule refl)
  ultimately show ?thesis by blast
qed

lemma restart_from_checkpoint:
  assumes disk: "checkpoint_disk s d" and s: "restorable s"
    and start: "create options d = Inr t" "opt_state_directory options \<noteq> []"
  shows "\<exists>s0 u. noted (reindex_all (restored s s0)) u \<and> begin_incarnation u = (Ok, t)"
proof -
  let ?payload = "encode_state_snapshot s"
  have "im_options (impl_new options) = options" by (simp add: impl_new_def)
  then obtain store where open_: "store_open (opt_state_directory options) (opt_flush_to_storage options) d = Inr store"
    and run: "recover store (impl_new options) = (Ok, t)"
    using start by (auto simp: create_def initialize_def errors_reported split: if_splits prod.splits sum.splits)
  have store: "dk_journal store = []" "dk_snapshot store = Some (build_snapshot_blob ?payload)"
    using store_open_disk [OF open_] disk by (simp_all add: checkpoint_disk_def)
  obtain result store1 where snap: "store_read_snapshot store = (result, store1)" by force
  have "length ?payload \<le> kMaxSnapshotPayload" using disk by (simp add: checkpoint_disk_def)
  note snapped = read_snapshot_disk [OF snap store(2) this]
  then have journal: "dk_journal store1 = []" using store(1) by auto
  have result: "result = Inr ?payload"
    using snapped run errors_reported(3) [of store] by (auto simp: recover_def snap Let_def)
  let ?s0 = "(impl_new options)\<lparr>im_store := Some store1\<rparr>"
  let ?s1 = "count_restored (reindex_all (restored s ?s0))"
  have "apply_state_snapshot ?payload ?s0 = (Ok, ?s1)"
    using disk by (intro snapshot_loads [OF s]) (simp add: checkpoint_disk_def)
  then have "replay_journal True store1 (?s1\<lparr>im_recovery := (im_recovery ?s1)\<lparr>rp_snapshot_records := 1\<rparr>\<rparr>) = (Ok, t)"
    using run by (simp add: recover_def snap result Let_def)
  from replay_empty [OF journal this] show ?thesis
    by (auto simp: noted_def count_restored_def)
qed

lemma keeps_noted: "noted s t \<Longrightarrow> keeps k s t"
  unfolding noted_def by (elim exE) (rule keeps_same_core, rule same_coreI, simp_all)

lemma keeps_incarnation:
  assumes "begin_incarnation s = (Ok, t)"
  shows "keeps k s t"
proof -
  obtain store report previous nxt where t: "t = (apply_epoch_advance previous nxt EpochRecovery (im_last_tick s)
      (s\<lparr>im_store := store\<rparr>))\<lparr>im_recovery := report\<rparr>"
    using begin_incarnation_effect [OF assms] by blast
  have a: "keeps k s (s\<lparr>im_store := store\<rparr>)" by (rule keeps_same_core, rule same_coreI) simp_all
  have b: "keeps k u (u\<lparr>im_recovery := report\<rparr>)" for u by (rule keeps_same_core, rule same_coreI) simp_all
  show ?thesis unfolding t by (rule keeps_trans [OF keeps_trans [OF a keeps_epoch_advance] b])
qed

lemma keeps_restart:
  assumes "checkpoint_disk s d" "restorable s" "create options d = Inr t" "opt_state_directory options \<noteq> []"
  shows "keeps k s t"
proof (rule keepsI)
  assume wf: "core_wf s"
  obtain s0 u where u: "noted (reindex_all (restored s s0)) u" "begin_incarnation u = (Ok, t)"
    using restart_from_checkpoint [OF assms] by blast
  let ?r = "count_restored (reindex_all (restored s s0))"
  have "noted ?r u" using u(1) by (auto simp: noted_def count_restored_def)
  then have "keeps k ?r t" using keeps_noted keeps_incarnation [OF u(2)] keeps_trans by blast
  moreover have "keeps k s ?r"
    using core_wf_restored [OF wf, of s0]
    by (auto simp: keeps_def evolves_def count_restored_def restored_def find_durable progress_def)
  ultimately show "keeps k s t" using keeps_trans by blast
qed

end
