(* ===== verification/Reachability.thy ===== *)
theory Reachability
  imports Rounds Restart
begin

text \<open>
  Dispatch and completion keep the invariant, and the step relation of the scheduler: a call is one
  public method of \<^verbatim>\<open>Scheduler\<close> (\<^verbatim>\<open>src/scheduler.cpp\<close>, at the end of the file), which holds the
  mutex of \<^verbatim>\<open>Impl\<close> from start to end, so that any interleaving of clients is a sequence of calls.
\<close>

section \<open>Dispatch\<close>

lemma keeps_then_observed: "keeps k (observe_tick now s) t \<Longrightarrow> keeps k s t"
  by (rule keeps_trans [OF keeps_observe_tick])

lemma opened_next_attempt:
  "im_next_attempt (consume_entry i n (apply_attempt_opened t nominal now s)) = im_next_attempt s"
  by (simp add: consume_entry_def apply_attempt_opened_def Let_def split: option.split)

lemma keeps_open_attempt_op:
  assumes run: "open_attempt t n remaining now s = (res, u)" and left: "ids_left u"
    and flow: "om_find (dt_flow t) (im_flows s) = Some r" "fr_lifecycle r = FlowScheduled"
      "fd_generation (fr_descriptor r) = dt_flow_generation t"
    and sched: "find_schedule s (dt_schedule t) = Some sr" and id: "dt_attempt t = im_next_attempt s"
  shows "keeps k s u"
proof -
  obtain code s' where j: "journal RecAttemptOpened (take_record [write_ticket t, rw_u64 remaining, rw_u64 now]) s = (code, s')"
    by force
  have keep: "keeps k s s'" using keeps_journal [of k s] j by (metis snd_conv)
  have same: "im_flows s' = im_flows s" "im_schedules s' = im_schedules s" "im_next_attempt s' = im_next_attempt s"
    using j by (auto simp: journal_def split: option.splits prod.splits)
  let ?o = "consume_entry (dt_schedule t) n (apply_attempt_opened t (dt_quantum t) now s')"
  show ?thesis
  proof (cases "code = Ok")
    case True
    show ?thesis
    proof (cases "advance (im_next_attempt s')")
      case (Inl e)
      then have "u = ?o" using run True by (simp add: open_attempt_def j opened_next_attempt)
      with Inl left show ?thesis by (simp add: ids_left_def opened_next_attempt advance_fails_iff)
    next
      case (Inr nxt)
      have "u = ?o\<lparr>im_next_attempt := nxt\<rparr>"
        using run True Inr by (simp add: open_attempt_def j opened_next_attempt)
      moreover have "keeps k s' (?o\<lparr>im_next_attempt := nxt\<rparr>)"
        by (rule keeps_open_attempt [where r = r and sr = sr])
          (use flow sched id Inr in \<open>simp_all add: same find_schedule_def\<close>)
      ultimately show ?thesis using keep by (auto intro: keeps_trans)
    qed
  qed (use run keep in \<open>simp add: open_attempt_def j\<close>)
qed

lemma make_ticket_fields [simp]:
  "dt_attempt (make_ticket s schedule generation e worker boot now) = im_next_attempt s"
  "dt_schedule (make_ticket s schedule generation e worker boot now) = schedule"
  "dt_flow (make_ticket s schedule generation e worker boot now) = se_flow e"
  "dt_flow_generation (make_ticket s schedule generation e worker boot now) = se_flow_generation e"
  "dt_quantum (make_ticket s schedule generation e worker boot now) = se_quantum e"
  "dt_epoch (make_ticket s schedule generation e worker boot now) = im_epoch s"
  by (simp_all add: make_ticket_def Let_def)

lemma entry_checks_Ok:
  assumes "entry_checks schedule generation n sr s = Ok"
  shows "n < length (sc_entries (sr_schedule sr)) \<and> se_kind (sc_entries (sr_schedule sr) ! n) = KindRun
    \<and> sr_consumed sr ! n = 0 \<and> sc_generation (sr_schedule sr) = generation \<and> sc_epoch (sr_schedule sr) = im_epoch s
    \<and> (\<exists>r. om_find (se_flow (sc_entries (sr_schedule sr) ! n)) (im_flows s) = Some r
         \<and> fr_lifecycle r = FlowScheduled \<and> fr_scheduled_schedule r = schedule
         \<and> fd_generation (fr_descriptor r) = se_flow_generation (sc_entries (sr_schedule sr) ! n))"
  using assms by (auto simp: entry_checks_def Let_def split: if_splits option.splits)

text \<open>A dispatch either fails with the state as it was, or reaches the opening of the attempt.\<close>

lemma begin_dispatch_cases:
  assumes "begin_dispatch schedule generation ordinal worker boot now s = (res, t)"
  obtains (failed) e where "res = Inl e" "t = observe_tick now s"
  | (opened) sr e r ticket where "find_schedule (observe_tick now s) schedule = Some sr"
      "entry_checks schedule generation (unat ordinal) sr (observe_tick now s) = Ok"
      "e = sc_entries (sr_schedule sr) ! unat ordinal" "om_find (se_flow e) (im_flows s) = Some r"
      "ticket = make_ticket (observe_tick now s) schedule generation e worker boot now"
      "validate_ticket_fields ticket now (observe_tick now s) = Ok"
      "open_attempt ticket (unat ordinal) (remaining_work r) now (observe_tick now s) = (res, t)"
  using assms unfolding begin_dispatch_def Let_def
  by (auto split: if_splits option.splits)

lemma keeps_begin_dispatch:
  assumes "begin_dispatch schedule generation ordinal worker boot now s = (res, t)" "ids_left t"
  shows "keeps k s t"
  using assms(1)
proof (cases rule: begin_dispatch_cases)
  case (opened sr e r ticket)
  obtain r' where r': "om_find (se_flow e) (im_flows s) = Some r'" "fr_lifecycle r' = FlowScheduled"
    "fd_generation (fr_descriptor r') = se_flow_generation e"
    using entry_checks_Ok [OF opened(2)] by (auto simp: opened(3))
  have "keeps k (observe_tick now s) t"
    by (rule keeps_open_attempt_op [OF opened(7) assms(2)])
      (use opened r' in \<open>simp_all add: find_schedule_def\<close>)
  then show ?thesis by (rule keeps_then_observed)
qed (simp add: keeps_observe_tick)

lemma keeps_mark_started: "keeps k s (snd (mark_started t now s))"
proof -
  have "keeps k u (snd (and_then (journal type payload) (succeed (apply_attempt_started (dt_attempt t) now)) u))"
    for u type payload by (intro operation_steps keeps_attempt_started)
  then have "keeps k s (snd (and_then (journal type payload) (succeed (apply_attempt_started (dt_attempt t) now))
      (observe_tick now s)))" for type payload by (rule keeps_then_observed)
  then show ?thesis by (auto simp: mark_started_def Let_def keeps_observe_tick split: option.split)
qed

lemma keeps_abandon_attempt: "keeps k s (snd (abandon_attempt attempt reason now s))"
proof -
  have "keeps k u (snd (and_then (close_attempt attempt AttemptAbandoned reason now)
      (succeed (normalize_transient_states now)) u))" for u
    by (intro operation_steps keeps_close_attempt keeps_normalize closing_states)
  then have "keeps k s (snd (and_then (close_attempt attempt AttemptAbandoned reason now)
      (succeed (normalize_transient_states now)) (observe_tick now s)))" by (rule keeps_then_observed)
  then show ?thesis by (auto simp: abandon_attempt_def Let_def keeps_observe_tick split: option.split)
qed

lemma keeps_preempt_attempt: "keeps k s (snd (preempt_attempt attempt reason now s))"
proof -
  let ?count = "\<lambda>s. normalize_transient_states now (s\<lparr>im_preemptions_issued := im_preemptions_issued s + 1\<rparr>)"
  have "keeps k u (?count u)" for u
    by (rule keeps_trans [OF keeps_same_core keeps_normalize], rule same_coreI) simp_all
  then have "keeps k u (snd (and_then (close_attempt attempt AttemptPreempted reason now) (succeed ?count) u))" for u
    by (intro operation_steps keeps_close_attempt closing_states)
  then have "keeps k s (snd (and_then (close_attempt attempt AttemptPreempted reason now) (succeed ?count)
      (observe_tick now s)))" by (rule keeps_then_observed)
  then show ?thesis by (auto simp: preempt_attempt_def Let_def keeps_observe_tick split: option.split)
qed

section \<open>Completion\<close>

lemma keeps_reject: "keeps k s (snd (reject code detail s))" "keeps k s (snd (reject_flow flow code detail s))"
proof -
  show "keeps k s (snd (reject code detail s))" for s
    by (rule keeps_same_core, rule same_coreI) (simp_all add: reject_def)
  then show "keeps k s (snd (reject_flow flow code detail s))"
    unfolding reject_flow_def by (rule keeps_trans [OF keeps_quiet, rotated]) (simp add: quiet_def)
qed

lemma keeps_complete_closed: "keeps k s (snd (complete_closed ev r rec s))"
proof -
  have "keeps k s (t\<lparr>im_completions_duplicate := n\<rparr>)" if "keeps k s t" for t n
    by (rule keeps_then_same [OF same_coreI that]) simp_all
  then have "keeps k s (snd (acknowledge_duplicate flow r rec s))" for flow
    by (simp add: acknowledge_duplicate_def Let_def keeps_quiet quiet_def)
  then show ?thesis by (simp add: complete_closed_def keeps_reject)
qed

lemma lifecycle_after_settled: "\<not> holds_attempt (lifecycle_after ev r)"
  by (simp add: lifecycle_after_def)

lemma apply_completion_lifecycle:
  assumes "attempt_live s (ce_attempt ev) rec" "dt_flow (ar_ticket rec) = ce_flow ev"
    "om_find (ce_flow ev) (im_flows s) = Some r"
    and "om_find (ce_flow ev) (im_flows (apply_completion ev credited after now s)) = Some r'"
  shows "fr_lifecycle r' = after"
  using apply_completion_eq [OF assms(1-3), of credited now after] assms(4)
  by (auto simp: quiet_def same_core_def let_go_flows)

lemma keeps_commit_completion:
  assumes rec: "attempt_live s (ce_attempt ev) rec" "dt_flow (ar_ticket rec) = ce_flow ev"
    and flow: "om_find (ce_flow ev) (im_flows s) = Some r"
  shows "keeps k s (snd (commit_completion ev r now s))"
proof -
  define credited after where "credited = credited_units ev" and "after = lifecycle_after ev r"
  obtain code s1 where j: "journal RecCompletionCommitted (take_record [write_evidence ev, rw_u64 credited,
      rw_u8 (lifecycle_code after), rw_u64 now]) s = (code, s1)" by force
  have keep: "keeps k s s1" using keeps_journal [of k s] j by (metis snd_conv)
  have same: "im_flows s1 = im_flows s" "im_attempts s1 = im_attempts s"
    using j by (auto simp: journal_def split: option.splits prod.splits)
  have rec1: "attempt_live s1 (ce_attempt ev) rec" using rec(1) by (simp add: attempt_live_def same)
  let ?s2 = "apply_completion ev credited after now s1"
  have k2: "keeps k s ?s2"
    using rec1 rec(2) flow lifecycle_after_settled
    by (intro keeps_trans [OF keep keeps_completion]) (simp_all add: same after_def)
  have k3: "keeps k s (if after = FlowWaiting then rederive_readiness (ce_flow ev) credited now ?s2 else ?s2)"
  proof (cases "after = FlowWaiting")
    case True
    have "fr_lifecycle r' = FlowWaiting" if "om_find (ce_flow ev) (im_flows ?s2) = Some r'" for r'
      using apply_completion_lifecycle [OF rec1 rec(2) _ that] flow True by (simp add: same)
    then have "keeps k ?s2 (rederive_readiness (ce_flow ev) credited now ?s2)" by (rule keeps_rederive_readiness)
    with True k2 show ?thesis by (auto intro: keeps_trans)
  qed (use k2 in simp)
  show ?thesis
    using keep keeps_trans [OF k3 keeps_normalize, of now]
    by (simp add: commit_completion_def Let_def credited_def [symmetric] after_def [symmetric] j)
qed

lemma keeps_complete_attempt:
  assumes "om_find (ce_flow ev) (im_flows s) = Some r" "om_find (ce_attempt ev) (im_attempts s) = Some rec"
  shows "keeps k s (snd (complete_attempt ev r rec now s))"
proof -
  have "keeps k s (snd (commit_completion ev r now s))"
    if "dt_flow (ar_ticket rec) = ce_flow ev" "\<not> is_attempt_terminal (ar_state rec)"
    using that assms by (intro keeps_commit_completion [of _ _ rec]) (simp_all add: attempt_live_def)
  then show ?thesis by (simp add: complete_attempt_def Let_def keeps_reject keeps_complete_closed)
qed

lemma keeps_if:
  "(b \<Longrightarrow> keeps k s (snd x)) \<Longrightarrow> (\<not> b \<Longrightarrow> keeps k s (snd y)) \<Longrightarrow> keeps k s (snd (if b then x else y))"
  by simp

lemma keeps_complete: "keeps k s (snd (complete ev now s))"
proof -
  define t where "t = (observe_tick now s)\<lparr>im_completion_reports := im_completion_reports (observe_tick now s) + 1\<rparr>"
  have "keeps k s t"
    by (rule keeps_then_observed, rule keeps_same_core, rule same_coreI) (simp_all add: t_def)
  moreover have "keeps k t (snd (case om_find (ce_flow ev) (im_flows t) of
        None \<Rightarrow> reject UnknownFlow d1 t
      | Some r \<Rightarrow>
          if fd_generation (fr_descriptor r) \<noteq> ce_flow_generation ev
          then reject_flow (ce_flow ev) StaleFlowGeneration d2 t
          else case om_find (ce_attempt ev) (im_attempts t) of
            None \<Rightarrow> reject_flow (ce_flow ev) UnknownAttempt d3 t
          | Some rec \<Rightarrow> complete_attempt ev r rec now t))" for d1 d2 d3
    using keeps_complete_attempt keeps_reject
    by (cases "om_find (ce_flow ev) (im_flows t)"; cases "om_find (ce_attempt ev) (im_attempts t)")
      (simp_all only: option.case keeps_if)
  then have "keeps k t (snd (complete ev now s))"
    unfolding complete_def Let_def t_def [symmetric] by (intro keeps_if keeps_reject)
  ultimately show ?thesis by (rule keeps_trans)
qed

lemma keeps_checkpoint: "keeps k s (snd (checkpoint s))"
  by (rule keeps_same_core, rule same_coreI)
    (simp_all add: checkpoint_def Let_def split: option.split prod.split)

section \<open>Sequences of calls\<close>

text \<open>
  The states of a scheduler that starts empty, with or without a store, serves calls while the
  64-bit identities last, and may be restarted from the disk that a checkpoint left.
\<close>

inductive reachable :: "impl \<Rightarrow> bool" where
  start: "reachable ((initialize_volatile (impl_new options))\<lparr>im_store := store\<rparr>)"
| call: "reachable s \<Longrightarrow> ids_left (perform c s) \<Longrightarrow> reachable (perform c s)"
| restart: "reachable s \<Longrightarrow> checkpoint_disk s d \<Longrightarrow> restorable s \<Longrightarrow> create options d = Inr t \<Longrightarrow>
    opt_state_directory options \<noteq> [] \<Longrightarrow> reachable t"

lemma core_wf_start: "core_wf ((initialize_volatile (impl_new options))\<lparr>im_store := store\<rparr>)"
  by (simp add: core_wf_def tables_wf_def flows_wf_def index_wf_def in_slot_def authority_defs
      attempt_held_def attempt_live_def initialize_volatile_def impl_new_def id_valid_def)

lemma retire_flow_keeps:
  assumes wf: "core_wf s"
  shows "core_wf (snd (retire_flow flow generation s))
    \<and> (k \<noteq> flow \<longrightarrow> evolves k s (snd (retire_flow flow generation s)))"
proof -
  have "core_wf u \<and> (k \<noteq> flow \<longrightarrow> evolves k s u)"
    if r: "om_find flow (im_flows s) = Some r" "is_terminal (fr_lifecycle r)"
      and u: "u = snd (and_then (journal type payload) (succeed (apply_retire_flow flow generation)) s)"
    for r type payload u
  proof -
    obtain code t where j: "journal type payload s = (code, t)" by force
    have "keeps k s t" using keeps_journal [of k s] j by (metis snd_conv)
    then have t: "core_wf t" "evolves k s t" using wf by (simp_all add: keeps_def)
    have flows: "im_flows t = im_flows s" by (rule journal_flows [OF j])
    show ?thesis
    proof (cases "code = Ok")
      case True
      then have "u = apply_retire_flow flow generation t" by (simp add: u and_then_def j)
      then show ?thesis
        using apply_retire_flow_keeps [OF t(1), of flow generation k] r by (simp add: flows evolves_def)
    qed (use t in \<open>simp add: u and_then_def j\<close>)
  qed
  note step = this
  have idle: "core_wf s \<and> (k \<noteq> flow \<longrightarrow> evolves k s s)" using wf by (simp add: evolves_def)
  show ?thesis
    unfolding retire_flow_def with_flow_def
    by (cases "om_find flow (im_flows s)") (simp_all add: idle step)
qed

theorem call_keeps:
  assumes "core_wf s" "ids_left (perform c s)"
  shows "core_wf (perform c s) \<and> (evolves k s (perform c s) \<or> (\<exists>g. c = RetireFlow k g))"
proof (cases "\<exists>flow g. c = RetireFlow flow g")
  case True
  then obtain flow g where c: "c = RetireFlow flow g" by blast
  with retire_flow_keeps [OF assms(1), of flow g k] show ?thesis by (cases "k = flow") auto
next
  case False
  have "keeps k s (perform c s)"
  proof (cases c)
    case (Arbitrate now)
    then show ?thesis using assms(2) by (cases "arbitrate now s") (simp add: keeps_arbitrate)
  next
    case (BeginDispatch i g ordinal worker boot now)
    then show ?thesis
      using assms(2) by (cases "begin_dispatch i g ordinal worker boot now s") (simp add: keeps_begin_dispatch)
  qed (use False in \<open>simp_all add: keeps_registrations keeps_admit_flow keeps_update_flow keeps_cancel_flow
      keeps_notify_readiness keeps_resolve_ambiguous keeps_advance_epoch keeps_release_schedule
      keeps_mark_started keeps_abandon_attempt keeps_preempt_attempt keeps_complete keeps_checkpoint\<close>)
  with assms(1) show ?thesis by (simp add: keeps_def)
qed

theorem reachable_core_wf: "reachable s \<Longrightarrow> core_wf s"
  by (induction rule: reachable.induct)
    (use core_wf_start call_keeps keeps_restart in \<open>auto simp: keeps_def\<close>)

end
