(* ===== verification/Evidence.thy ===== *)
theory Evidence
  imports Reachability
begin

text \<open>
  What \<^verbatim>\<open>Scheduler::Impl::complete\<close> does with the evidence a worker reports: evidence that matches a
  live attempt is credited exactly once, and everything else leaves the authoritative state alone.
\<close>

section \<open>Evidence that matches its attempt\<close>

definition received :: "ticks \<Rightarrow> impl \<Rightarrow> impl" where
  "received now s = (observe_tick now s)\<lparr>im_completion_reports := im_completion_reports s + 1\<rparr>"

definition names_attempt :: "completion_evidence \<Rightarrow> dispatch_ticket \<Rightarrow> bool" where
  "names_attempt ev t \<longleftrightarrow> dt_flow t = ce_flow ev \<and> dt_schedule t = ce_schedule ev
     \<and> dt_schedule_generation t = ce_schedule_generation ev
     \<and> dt_worker t = ce_worker ev \<and> dt_boot t = ce_boot ev"

definition matches :: "impl \<Rightarrow> completion_evidence \<Rightarrow> flow_runtime \<Rightarrow> attempt_runtime \<Rightarrow> bool" where
  "matches s ev r rec \<longleftrightarrow> established (ce_provenance ev) \<and> evidence_bound ev
     \<and> ce_served ev \<le> kMaxServiceUnits \<and> ce_epoch ev = im_epoch s
     \<and> om_find (ce_flow ev) (im_flows s) = Some r
     \<and> fd_generation (fr_descriptor r) = ce_flow_generation ev
     \<and> om_find (ce_attempt ev) (im_attempts s) = Some rec \<and> names_attempt ev (ar_ticket rec)"

lemma received_fields [simp]:
  "im_flows (received now s) = im_flows s" "im_attempts (received now s) = im_attempts s"
  "im_epoch (received now s) = im_epoch s"
  by (simp_all add: received_def observe_tick_def)

lemma received_eq:
  "(observe_tick now s)\<lparr>im_completion_reports := im_completion_reports (observe_tick now s) + 1\<rparr> = received now s"
  by (simp add: received_def observe_tick_def)

lemma complete_mismatch:
  assumes "\<nexists>r rec. matches s ev r rec"
  shows "\<exists>code detail. complete ev now s = reject code detail (received now s)
    \<or> complete ev now s = reject_flow (ce_flow ev) code detail (received now s)"
proof -
  let ?u = "received now s"
  have wrong: "\<exists>code detail. complete_attempt ev r rec now ?u = reject code detail ?u
      \<or> complete_attempt ev r rec now ?u = reject_flow (ce_flow ev) code detail ?u"
    if "\<not> names_attempt ev (ar_ticket rec)" for r rec
    using that unfolding complete_attempt_def Let_def names_attempt_def by auto
  show ?thesis
  proof (cases "established (ce_provenance ev) \<and> evidence_bound ev \<and> ce_served ev \<le> kMaxServiceUnits
      \<and> ce_epoch ev = im_epoch s")
    case True
    then show ?thesis
      using assms wrong unfolding complete_def Let_def received_eq matches_def
      by (auto split: option.splits simp: linorder_not_less [symmetric])
  qed (auto simp: complete_def Let_def received_eq)
qed

lemma complete_match:
  assumes "matches s ev r rec"
  shows "complete ev now s = (let u = received now s; t = ar_ticket rec; flow = ce_flow ev in
      if is_attempt_terminal (ar_state rec) then complete_closed ev r rec u
      else if fr_open_attempt r \<noteq> ce_attempt ev
      then reject_flow flow StaleAttempt
             (lit ''the flow no longer holds the attempt named by the evidence'') u
      else if ce_served ev > dt_quantum t
      then reject_flow flow ContradictoryCompletion
             (lit ''reported service exceeds the authorized quantum'') u
      else if has_deadline (dt_deadline_tick t) \<and> now \<ge> dt_deadline_tick t
        \<and> ce_outcome ev = OutcomeServed
      then reject_flow flow DeadlinePassed
             (lit ''completion was observed after the authorized deadline'') u
      else commit_completion ev r now u)"
  using assms unfolding complete_def complete_attempt_def Let_def received_eq matches_def names_attempt_def
  by (simp add: linorder_not_less [symmetric])

section \<open>Evidence that is not applied\<close>

text \<open>The state without what a rejection or a duplicate may touch: counters, the clock and the store.\<close>

definition forget_reports :: "flow_accounting \<Rightarrow> flow_accounting" where
  "forget_reports a = a\<lparr>fa_duplicate_completions := 0, fa_rejected_completions := 0\<rparr>"

definition forget_counts :: "impl \<Rightarrow> impl" where
  "forget_counts s = s\<lparr>
     im_flows := map (\<lambda>(k, r). (k, r\<lparr>fr_accounting := forget_reports (fr_accounting r)\<rparr>)) (im_flows s),
     im_last_tick := 0, im_store := None, im_completion_reports := 0, im_completions_duplicate := 0,
     im_completions_rejected := 0\<rparr>"

lemma forget_counts_simps [simp]:
  "forget_counts (received now s) = forget_counts s"
  "forget_counts (s\<lparr>im_completions_rejected := n\<rparr>) = forget_counts s"
  "forget_counts (s\<lparr>im_completions_duplicate := n\<rparr>) = forget_counts s"
  "forget_counts (s\<lparr>im_store := st\<rparr>) = forget_counts s"
  by (simp_all add: forget_counts_def received_def observe_tick_def)

lemma forget_counts_journal: "journal type payload s = (code, t) \<Longrightarrow> forget_counts t = forget_counts s"
  by (auto simp: journal_def split: option.splits prod.splits)

lemma forget_counts_modify:
  assumes "\<And>r. (f r)\<lparr>fr_accounting := forget_reports (fr_accounting (f r))\<rparr>
    = r\<lparr>fr_accounting := forget_reports (fr_accounting r)\<rparr>"
  shows "forget_counts (modify_flow flow f s) = forget_counts s"
proof -
  have "map (\<lambda>(k, r). (k, r\<lparr>fr_accounting := forget_reports (fr_accounting r)\<rparr>)) (om_modify flow f m)
      = map (\<lambda>(k, r). (k, r\<lparr>fr_accounting := forget_reports (fr_accounting r)\<rparr>)) m" for m
    by (induction m) (auto simp: om_modify_def assms)
  then show ?thesis by (simp add: forget_counts_def modify_flow_def)
qed

lemma forget_counts_reject:
  "forget_counts (snd (reject code detail s)) = forget_counts s"
  "forget_counts (snd (reject_flow flow code detail s)) = forget_counts s"
  by (simp_all add: reject_flow_def reject_def forget_counts_modify forget_reports_def)

lemma forget_counts_closed: "forget_counts (snd (complete_closed ev r rec s)) = forget_counts s"
  by (simp add: complete_closed_def forget_counts_reject acknowledge_duplicate_def Let_def
      forget_counts_modify forget_reports_def)

definition applied :: "commit_outcome result \<Rightarrow> bool" where
  "applied res \<longleftrightarrow> (\<exists>out. res = Inr out \<and> co_disposition out = CommitApplied)"

lemma commit_applied:
  "\<not> applied (fst (commit_completion ev r now s))
   \<Longrightarrow> forget_counts (snd (commit_completion ev r now s)) = forget_counts s"
  by (auto simp: commit_completion_def Let_def applied_def dest: forget_counts_journal
      split: prod.splits if_splits)

lemma not_applied_reject [simp]:
  "\<not> applied (fst (reject code detail s))" "\<not> applied (fst (reject_flow flow code detail s))"
  "\<not> applied (fst (complete_closed ev r rec s))"
  by (auto simp: applied_def complete_closed_def acknowledge_duplicate_def reject_flow_def reject_def
      rejected_outcome_def Let_def split: if_splits)

lemma complete_unapplied:
  assumes "\<not> applied (fst (complete ev now s))"
  shows "forget_counts (snd (complete ev now s)) = forget_counts s"
proof (cases "\<exists>r rec. matches s ev r rec")
  case True
  then obtain r rec where m: "matches s ev r rec" by blast
  from assms show ?thesis
    unfolding complete_match [OF m] Let_def
    by (simp add: forget_counts_reject forget_counts_closed commit_applied split: if_splits)
next
  case False
  then show ?thesis using complete_mismatch [OF False, of now] by (auto simp: forget_counts_reject)
qed

section \<open>Evidence that is applied\<close>

text \<open>The conditions under which evidence is credited.\<close>

definition creditable :: "impl \<Rightarrow> completion_evidence \<Rightarrow> ticks \<Rightarrow> flow_runtime \<Rightarrow> attempt_runtime \<Rightarrow> bool" where
  "creditable s ev now r rec \<longleftrightarrow> matches s ev r rec \<and> \<not> is_attempt_terminal (ar_state rec)
     \<and> fr_open_attempt r = ce_attempt ev \<and> ce_served ev \<le> dt_quantum (ar_ticket rec)
     \<and> \<not> (has_deadline (dt_deadline_tick (ar_ticket rec)) \<and> now \<ge> dt_deadline_tick (ar_ticket rec)
          \<and> ce_outcome ev = OutcomeServed)"

lemma complete_applied:
  assumes "applied (fst (complete ev now s))"
  shows "\<exists>r rec. creditable s ev now r rec \<and> complete ev now s = commit_completion ev r now (received now s)"
proof -
  obtain r rec where m: "matches s ev r rec"
    using assms complete_mismatch [of s ev now] by fastforce
  with assms show ?thesis
    unfolding complete_match [OF m] Let_def
    by (intro exI [of _ r] exI [of _ rec]) (auto simp: creditable_def split: if_splits)
qed

lemma creditable_applied:
  assumes "creditable s ev now r rec" "\<And>payload. fst (journal RecCompletionCommitted payload (received now s)) = Ok"
  shows "applied (fst (complete ev now s))"
proof -
  have "applied (fst (commit_completion ev r now (received now s)))"
    using assms(2) by (auto simp: commit_completion_def Let_def applied_def split: prod.splits) (metis fst_conv)
  moreover have "matches s ev r rec" using assms(1) by (simp add: creditable_def)
  ultimately show ?thesis
    using assms(1) by (auto simp: complete_match Let_def creditable_def)
qed

lemma normalize_flow_frame [simp]:
  "im_attempts (normalize_flow now flow s) = im_attempts s" "im_epoch (normalize_flow now flow s) = im_epoch s"
  by (simp_all add: normalize_flow_def split: option.split)

lemma normalize_frame [simp]:
  "im_attempts (normalize_transient_states now s) = im_attempts s"
  "im_epoch (normalize_transient_states now s) = im_epoch s"
proof -
  have "im_attempts (fold (normalize_flow now) ks s) = im_attempts s
      \<and> im_epoch (fold (normalize_flow now) ks s) = im_epoch s" for ks
    by (induction ks arbitrary: s) simp_all
  then show "im_attempts (normalize_transient_states now s) = im_attempts s"
    "im_epoch (normalize_transient_states now s) = im_epoch s"
    by (simp_all add: normalize_transient_states_def)
qed

lemma normalize_settled:
  assumes "om_find k (im_flows s) = Some r" "fr_lifecycle r \<noteq> FlowPreempting" "fr_lifecycle r \<noteq> FlowCancelling"
  shows "om_find k (im_flows (normalize_transient_states now s)) = Some r"
proof -
  have "om_find k (im_flows (fold (normalize_flow now) ks s)) = Some r" for ks
    using assms
  proof (induction ks arbitrary: s)
    case (Cons j ks)
    have "om_find k (im_flows (normalize_flow now j s)) = Some r"
      using Cons.prems by (auto simp: normalize_flow_def split: option.split)
    from Cons.IH [OF this Cons.prems(2,3)] show ?case by simp
  qed simp
  then show ?thesis by (simp add: normalize_transient_states_def)
qed

lemma rederive_frame [simp]:
  "im_attempts (rederive_readiness flow c now s) = im_attempts s"
  "im_epoch (rederive_readiness flow c now s) = im_epoch s"
  by (simp_all add: rederive_readiness_def split: option.split)

lemma rederive_flow:
  assumes "om_find flow (im_flows s) = Some r"
  shows "\<exists>r'. om_find flow (im_flows (rederive_readiness flow c now s)) = Some r'
    \<and> fr_descriptor r' = fr_descriptor r \<and> fr_open_attempt r' = fr_open_attempt r
    \<and> fr_served_work r' = fr_served_work r \<and> fr_lifecycle r' \<in> {FlowWaiting, FlowReady}"
  using assms by (simp add: rederive_readiness_def)

lemma saturating_add_0 [simp]: "saturating_add x 0 = x"
  by (simp add: saturating_add_def)

text \<open>The state after a commit: the flow is credited and let go, the attempt carries the evidence.\<close>

definition committed ::
  "completion_evidence \<Rightarrow> flow_runtime \<Rightarrow> ticks \<Rightarrow> impl \<Rightarrow> commit_outcome \<Rightarrow> flow_runtime \<Rightarrow> impl \<Rightarrow> bool" where
  "committed ev r now s out r' t \<longleftrightarrow>
     om_find (ce_flow ev) (im_flows t) = Some r' \<and> fr_descriptor r' = fr_descriptor r
     \<and> fr_open_attempt r' = unbound
     \<and> fr_served_work r' = saturating_add (fr_served_work r) (credited_units ev)
     \<and> (if lifecycle_after ev r = FlowWaiting then fr_lifecycle r' \<in> {FlowWaiting, FlowReady}
        else fr_lifecycle r' = lifecycle_after ev r)
     \<and> im_attempts t = om_modify (ce_attempt ev) (commit_record ev (credited_units ev) now) (im_attempts s)
     \<and> im_epoch t = im_epoch s \<and> co_code out = Ok \<and> co_credited out = credited_units ev
     \<and> co_lifecycle_after out = fr_lifecycle r' \<and> co_flow_completed out = (fr_lifecycle r' = FlowCompleted)"

lemma apply_completion_effect:
  assumes "om_find (ce_flow ev) (im_flows s) = Some r" "om_find (ce_attempt ev) (im_attempts s) = Some rec"
  shows "\<exists>r'. om_find (ce_flow ev) (im_flows (apply_completion ev c after now s)) = Some r'
      \<and> fr_descriptor r' = fr_descriptor r \<and> fr_open_attempt r' = unbound \<and> fr_lifecycle r' = after
      \<and> fr_served_work r' = saturating_add (fr_served_work r) c"
    and "im_attempts (apply_completion ev c after now s) = om_modify (ce_attempt ev) (commit_record ev c now) (im_attempts s)"
    and "im_epoch (apply_completion ev c after now s) = im_epoch s"
  using assms
  by (auto simp: apply_completion_def Let_def modify_attempt_def commit_record_def [abs_def]
      word_pos_iff)

lemma commit_effect:
  assumes flow: "om_find (ce_flow ev) (im_flows s) = Some r" "om_find (ce_attempt ev) (im_attempts s) = Some rec"
    and run: "commit_completion ev r now s = (Inr out, t)"
  shows "\<exists>r'. committed ev r now s out r' t"
proof -
  let ?c = "credited_units ev" and ?after = "lifecycle_after ev r" and ?k = "ce_flow ev"
  obtain s1 where s1: "journal RecCompletionCommitted (take_record [write_evidence ev, rw_u64 ?c,
      rw_u8 (lifecycle_code ?after), rw_u64 now]) s = (Ok, s1)"
    using run by (auto simp: commit_completion_def Let_def split: prod.splits if_splits)
  then have same: "im_flows s1 = im_flows s" "im_attempts s1 = im_attempts s" "im_epoch s1 = im_epoch s"
    by (auto simp: journal_def split: option.splits prod.splits)
  define s2 where "s2 = apply_completion ev ?c ?after now s1"
  define s3 where "s3 = (if ?after = FlowWaiting then rederive_readiness ?k ?c now s2 else s2)"
  note effect = apply_completion_effect [where ev = ev and s = s1 and r = r and rec = rec and c = ?c and after = ?after and now = now, folded s2_def, unfolded same, OF flow]
  obtain r' where r': "om_find ?k (im_flows s3) = Some r'" "fr_descriptor r' = fr_descriptor r"
      "fr_open_attempt r' = unbound" "fr_served_work r' = saturating_add (fr_served_work r) ?c"
      "if ?after = FlowWaiting then fr_lifecycle r' \<in> {FlowWaiting, FlowReady} else fr_lifecycle r' = ?after"
    using effect(1) rederive_flow [where flow = ?k and s = s2 and c = ?c and now = now] unfolding s3_def by (cases "?after = FlowWaiting") fastforce+
  have "im_attempts s3 = im_attempts s2" "im_epoch s3 = im_epoch s2" by (simp_all add: s3_def)
  moreover have final: "om_find ?k (im_flows (normalize_transient_states now s3)) = Some r'"
    using r'(5) by (intro normalize_settled r'(1)) (auto simp: lifecycle_after_def split: if_splits)
  moreover have "t = normalize_transient_states now s3" "co_code out = Ok" "co_credited out = ?c"
    "co_lifecycle_after out = fr_lifecycle r'" "co_flow_completed out = (fr_lifecycle r' = FlowCompleted)"
    using run unfolding commit_completion_def Let_def s1 prod.case s2_def [symmetric] s3_def [symmetric]
    by (auto simp: final)
  ultimately show ?thesis using r' effect unfolding committed_def by auto
qed

theorem complete_credits:
  assumes "complete ev now s = (Inr out, t)" "co_disposition out = CommitApplied"
  shows "\<exists>r rec r'. creditable s ev now r rec \<and> committed ev r now s out r' t"
proof -
  have "applied (fst (complete ev now s))" using assms by (simp add: applied_def)
  then obtain r rec where c: "creditable s ev now r rec"
    and run: "complete ev now s = commit_completion ev r now (received now s)"
    using complete_applied by blast
  have "\<exists>r'. committed ev r now (received now s) out r' t"
    using c run assms(1) by (intro commit_effect [of _ _ _ rec]) (simp_all add: creditable_def matches_def)
  moreover have "committed ev r now (received now s) = committed ev r now s"
    by (simp add: committed_def fun_eq_iff)
  ultimately show ?thesis using c by metis
qed

text \<open>Evidence for a committed attempt, whatever it says.\<close>

lemma committed_attempt_closed:
  assumes m: "matches t ev r rec" and rec: "ar_state rec = AttemptCommitted" "ar_has_evidence rec"
  shows "\<exists>out u. complete ev now t = (Inr out, u)
    \<and> (if evidence_digest ev = ar_evidence_digest rec
       then co_disposition out = CommitIdempotentDuplicate \<and> co_credited out = ar_credited rec
       else co_disposition out = CommitRejected \<and> co_code out = ContradictoryCompletion)"
  using rec unfolding complete_match [OF m] Let_def
  by (simp add: complete_closed_def acknowledge_duplicate_def reject_flow_def reject_def rejected_outcome_def
      Let_def)

lemma matches_after_commit:
  assumes "creditable s ev now r rec" "committed ev r now s out r' t"
    and "ce_attempt ev' = ce_attempt ev" "ce_epoch ev' = ce_epoch ev" "ce_flow ev' = ce_flow ev"
    and "ce_flow_generation ev' = ce_flow_generation ev" "names_attempt ev' (ar_ticket rec)"
    and "established (ce_provenance ev')" "evidence_bound ev'" "ce_served ev' \<le> kMaxServiceUnits"
  shows "matches t ev' r' (commit_record ev (credited_units ev) now rec)"
  using assms by (simp add: matches_def creditable_def committed_def commit_record_def)

section \<open>Identities\<close>

text \<open>A report draws no identity.\<close>

definition next_ids :: "impl \<Rightarrow> attempt_id \<times> schedule_id \<times> generation" where
  "next_ids s = (im_next_attempt s, im_next_schedule s, im_next_schedule_generation s)"

lemma next_ids_simps [simp]:
  "next_ids (received now s) = next_ids s" "next_ids (snd (reject code detail s)) = next_ids s"
  "next_ids (snd (reject_flow flow code detail s)) = next_ids s"
  "next_ids (snd (complete_closed ev r rec s)) = next_ids s"
  "next_ids (rederive_readiness flow c now s) = next_ids s"
  "next_ids (apply_completion ev c after now s) = next_ids s"
  by (simp_all add: next_ids_def received_def observe_tick_def reject_flow_def reject_def complete_closed_def
      acknowledge_duplicate_def rederive_readiness_def apply_completion_def Let_def split: option.split)

lemma next_ids_journal: "journal type payload s = (code, t) \<Longrightarrow> next_ids t = next_ids s"
  by (auto simp: next_ids_def journal_def split: option.splits prod.splits)

lemma next_ids_normalize [simp]: "next_ids (normalize_transient_states now s) = next_ids s"
proof -
  have "next_ids (normalize_flow now k s) = next_ids s" for k s
    by (simp add: next_ids_def normalize_flow_def split: option.split)
  then have "next_ids (fold (normalize_flow now) ks s) = next_ids s" for ks
    by (induction ks arbitrary: s) simp_all
  then show ?thesis by (simp add: normalize_transient_states_def)
qed

lemma next_ids_commit: "next_ids (snd (commit_completion ev r now s)) = next_ids s"
  by (simp add: commit_completion_def Let_def next_ids_journal split: prod.split)

lemma next_ids_complete: "next_ids (snd (complete ev now s)) = next_ids s"
proof (cases "\<exists>r rec. matches s ev r rec")
  case True
  then show ?thesis by (auto simp: complete_match Let_def next_ids_commit)
next
  case False
  then show ?thesis using complete_mismatch [OF False, of now] by auto
qed

end
