(* ===== verification/Standing.thy ===== *)
theory Standing
  imports Evidence
begin

text \<open>
  What an arbitration round leaves alone: the policy, the classes, the reservations, the terms and the
  credited work of every flow, and the capacity left in the interval of every resource.
\<close>

section \<open>What a round leaves alone\<close>

definition flow_terms :: "impl \<Rightarrow> flow_id \<Rightarrow> (flow_descriptor \<times> u64) option" where
  "flow_terms s k = map_option (\<lambda>r. (fr_descriptor r, fr_served_work r)) (om_find k (im_flows s))"

definition resource_terms :: "ticks \<Rightarrow> impl \<Rightarrow> resource_id \<Rightarrow> (resource_descriptor \<times> u64) option" where
  "resource_terms now s i =
     map_option (\<lambda>rr. (rr_descriptor rr, capacity_remaining rr now)) (om_find i (im_resources s))"

definition same_setup :: "ticks \<Rightarrow> impl \<Rightarrow> impl \<Rightarrow> bool" where
  "same_setup now s t \<longleftrightarrow> im_policy t = im_policy s \<and> im_policy_binding t = im_policy_binding s
     \<and> im_epoch t = im_epoch s \<and> im_qos_classes t = im_qos_classes s
     \<and> im_priority_classes t = im_priority_classes s \<and> im_reservations t = im_reservations s
     \<and> im_next_schedule t = im_next_schedule s \<and> im_next_attempt t = im_next_attempt s
     \<and> im_next_schedule_generation t = im_next_schedule_generation s
     \<and> flow_terms t = flow_terms s \<and> resource_terms now t = resource_terms now s"

interpretation setting: state_relation "same_setup now" for now
  by unfold_locales (simp_all add: same_setup_def)

lemmas same_setup_refl [simp] = setting.reflexive
lemmas same_setup_trans = setting.transitive

lemma same_setup_modify_flow:
  "(\<And>r. fr_descriptor (f r) = fr_descriptor r \<and> fr_served_work (f r) = fr_served_work r)
   \<Longrightarrow> same_setup now s (modify_flow k f s)"
  by (auto simp: same_setup_def flow_terms_def resource_terms_def fun_eq_iff option.map_comp o_def)

lemma same_setup_set_lifecycle: "same_setup now s (set_lifecycle k l tick s)"
  by (auto simp: same_setup_def flow_terms_def resource_terms_def fun_eq_iff option.map_comp o_def)

lemma find_modify_resource [simp]:
  "om_find i (im_resources (modify_resource resource f s)) =
     (if i = resource then map_option f (om_find i (im_resources s)) else om_find i (im_resources s))"
  by (simp add: modify_resource_def)

lemma same_setup_modify_resource:
  "(\<And>rr. rr_descriptor (f rr) = rr_descriptor rr \<and> capacity_remaining (f rr) now = capacity_remaining rr now)
   \<Longrightarrow> same_setup now s (modify_resource i f s)"
  by (auto simp: same_setup_def flow_terms_def resource_terms_def fun_eq_iff option.map_comp o_def)

lemma same_setup_release_slot: "same_setup now s (release_slot i s)"
  unfolding release_slot_def by (rule same_setup_modify_resource) (simp add: capacity_remaining_def)

lemma roll_interval_terms:
  "rr_descriptor (roll_interval now rr) = rr_descriptor rr"
  "capacity_remaining (roll_interval now rr) now = capacity_remaining rr now"
  by (auto simp: roll_interval_def capacity_remaining_def Let_def)

lemma same_setup_roll: "same_setup now s (modify_resource i (roll_interval now) s)"
  by (rule same_setup_modify_resource) (simp add: roll_interval_terms)

lemma same_setupI:
  assumes "im_policy t = im_policy s" "im_policy_binding t = im_policy_binding s" "im_epoch t = im_epoch s"
    "im_qos_classes t = im_qos_classes s" "im_priority_classes t = im_priority_classes s"
    "im_reservations t = im_reservations s" "im_next_schedule t = im_next_schedule s"
    "im_next_schedule_generation t = im_next_schedule_generation s" "im_next_attempt t = im_next_attempt s"
    "im_flows t = im_flows s" "im_resources t = im_resources s"
  shows "same_setup now s t"
  using assms by (simp add: same_setup_def flow_terms_def resource_terms_def fun_eq_iff)

lemma same_setup_tables:
  "same_setup now s (modify_schedule i f s)" "same_setup now s (modify_attempt a g s)"
  "same_setup now s (release_open_attempt i s)"
  by (rule same_setupI; simp)+

lemma same_setup_journal: "same_setup now s (snd (journal type payload s))"
  by (rule same_setupI) (simp_all add: journal_def split: option.split prod.split)

text \<open>The relation after each primitive, for proofs from the outermost update inwards.\<close>

lemmas setup_then_set = same_setup_trans [OF _ same_setup_set_lifecycle]
lemmas setup_then_slot = same_setup_trans [OF _ same_setup_release_slot]
lemmas setup_then_tables = same_setup_tables [THEN same_setup_trans [rotated]]

lemma setup_then_flow:
  "(\<And>r. fr_descriptor (f r) = fr_descriptor r \<and> fr_served_work (f r) = fr_served_work r)
   \<Longrightarrow> same_setup now s t \<Longrightarrow> same_setup now s (modify_flow k f t)"
  by (rule same_setup_trans [OF _ same_setup_modify_flow])

lemma setup_then_same:
  "same_setup now s t \<Longrightarrow> same_setup now s (t\<lparr>im_deadline_misses := n\<rparr>)"
  "same_setup now s t \<Longrightarrow> same_setup now s (t\<lparr>im_preemptions_issued := n\<rparr>)"
  "same_setup now s t \<Longrightarrow> same_setup now s (t\<lparr>im_preemptions_in_window := m\<rparr>)"
  by (rule same_setup_trans, assumption, rule same_setupI; simp)+

lemmas setup_steps = setup_then_set setup_then_slot setup_then_tables setup_then_flow setup_then_same
  same_setup_refl

lemma same_setup_attempt_closed: "same_setup now s (apply_attempt_closed a st d tick s)"
proof -
  have settle: "same_setup now s (settle_flow rec b st d tick t)" if "same_setup now s t" for rec b d t
    using that unfolding settle_flow_def Let_def
    by (cases st) (simp_all add: setup_steps)
  show ?thesis
    unfolding apply_attempt_closed_def Let_def
    by (auto simp: release_reserved_def intro!: settle setup_steps split: option.split)
qed

lemma same_setup_close_attempt: "same_setup now s (snd (close_attempt a st d tick s))"
  unfolding close_attempt_def
  by (intro setting.and_then_steps same_setup_journal) (simp add: same_setup_attempt_closed)

lemma same_setup_note_deadline_miss: "same_setup now (fst so) (fst (note_deadline_miss flow r so))"
  by (cases so) (simp add: note_deadline_miss_def Let_def count_deadline_miss_def setup_steps)

lemma same_setup_handle_deadline_miss: "same_setup now (fst so) (fst (handle_deadline_miss flow tick so))"
proof (cases "om_find flow (im_flows (fst so))")
  case (Some r)
  obtain s outcome where note_eq: "note_deadline_miss flow r so = (s, outcome)" by force
  have "same_setup now (fst so) s" using same_setup_note_deadline_miss [of now so flow r] by (simp add: note_eq)
  then show ?thesis
    by (auto simp: handle_deadline_miss_def Some note_eq intro!: setup_steps)
qed (simp add: handle_deadline_miss_def)

lemma same_setup_fail_dependent: "same_setup now s (fail_dependent flow tick s)"
  unfolding fail_dependent_def by (intro setup_steps) simp

lemma same_setup_release_run_entry: "same_setup now s (release_run_entry i n tick s)"
  unfolding release_run_entry_def Let_def reclaim_entry_def
  by (auto simp: clear_scheduled_def release_reserved_def intro!: setup_steps split: option.split)

lemma same_setup_release_schedule: "same_setup now s (apply_release_schedule i tick s)"
  unfolding apply_release_schedule_def
  by (auto intro!: setting.fold_steps same_setup_release_run_entry split: option.split)

lemma same_setup_reclaim: "same_setup now (fst so) (fst (reclaim_loop tick queue so))"
proof (induction queue arbitrary: so)
  case (Cons i queue)
  obtain s outcome where so: "so = (s, outcome)" by force
  obtain code t where j: "journal RecScheduleReleased (take_record [rw_id i, rw_u64 tick]) s = (code, t)" by force
  have t: "same_setup now s t" using same_setup_journal [of now s] j by (metis snd_conv)
  then have "same_setup now s (apply_release_schedule i tick t)"
    by (rule same_setup_trans [OF _ same_setup_release_schedule])
  then show ?case
    using Cons t same_setup_trans by (fastforce simp: so j split: option.split)
qed simp

lemma same_setup_refresh_waiting: "same_setup now (fst so) (fst (refresh_waiting tick flow so))"
  using same_setup_handle_deadline_miss [of now so flow tick]
  by (cases so) (auto simp: refresh_waiting_def same_setup_fail_dependent intro!: setup_steps
      split: option.split prod.split)

lemma same_setup_refresh_inflight: "same_setup now (fst so) (fst (refresh_inflight tick flow so))"
  by (simp add: refresh_inflight_def same_setup_note_deadline_miss split: option.split)

lemma same_setup_refresh_lifecycles: "same_setup now (fst so) (fst (refresh_lifecycles tick so))"
proof -
  have "same_setup now (fst so) (fst (fold (refresh_waiting tick) ks so))" for ks so
    by (rule setting.pair_steps) (metis same_setup_refresh_waiting fst_conv)
  moreover have "same_setup now (fst so) (fst (fold (refresh_inflight tick) ks so))" for ks so
    by (rule setting.pair_steps) (metis same_setup_refresh_inflight fst_conv)
  ultimately show ?thesis unfolding refresh_lifecycles_def Let_def by (rule same_setup_trans)
qed

lemma same_setup_prepare_round:
  assumes "prepare_round tick s = ((code, t), outcome)"
  shows "same_setup now s t"
proof -
  define s0 where "s0 = s\<lparr>im_last_tick := tick, im_arbitration_rounds := im_arbitration_rounds s + 1\<rparr>"
  define so where "so = refresh_lifecycles tick (reclaim_expired_deliveries tick (s0, empty_outcome))"
  have "same_setup now s s0" by (rule same_setupI) (simp_all add: s0_def)
  moreover have "same_setup now s0 (fst (reclaim_expired_deliveries tick (s0, empty_outcome)))"
    using same_setup_reclaim [of now "(s0, empty_outcome)"] by (simp add: reclaim_expired_deliveries_def)
  moreover have "same_setup now (fst (reclaim_expired_deliveries tick (s0, empty_outcome))) (fst so)"
    unfolding so_def by (rule same_setup_refresh_lifecycles)
  moreover have "same_setup now t (snd (stop_overdue tick a t))" for a t
    unfolding stop_overdue_def
    by (intro setting.and_then_steps same_setup_close_attempt) (simp add: setup_steps)
  then have "same_setup now (fst so) (snd (for_each (stop_overdue tick) (overdue_attempts tick (fst so)) (fst so)))"
    by (intro setting.for_each_steps)
  moreover have "t = snd (for_each (stop_overdue tick) (overdue_attempts tick (fst so)) (fst so))"
    using assms by (auto simp: prepare_round_def Let_def s0_def so_def)
  ultimately show ?thesis by (blast intro: same_setup_trans)
qed

end
