(* ===== verification/Placement.thy ===== *)
theory Placement
  imports Standing "HOL-Library.Sublist"
begin

text \<open>
  What one arbitration round grants.  The invariant of the placement loop says that each Run entry
  names an eligible flow once, in rank order, that the quanta stay within the flow, the policy, the
  resource and the reservation, and that displacements respect the policy.
\<close>

lemma word_inc:
  assumes "(a :: 'a::len word) < b"
  shows "unat (a + 1) = unat a + 1" "a + 1 \<le> b"
proof -
  have "1 + a \<noteq> 0" using assms by (metis add.commute max_word_wrap word_order.extremum_strict)
  then show "unat (a + 1) = unat a + 1" using unatSuc [of a] by (simp add: add.commute)
  with assms show "a + 1 \<le> b" by (simp add: word_le_nat_alt word_less_nat_alt)
qed

lemma subseq_distinct: "subseq xs ys \<Longrightarrow> distinct ys \<Longrightarrow> distinct xs"
  by (induction rule: list_emb.induct) (auto dest: list_emb_set)

section \<open>Steps that touch one flow\<close>

text \<open>The flows other than the one a step is about.\<close>

definition touches :: "flow_id \<Rightarrow> impl \<Rightarrow> impl \<Rightarrow> bool" where
  "touches k s t \<longleftrightarrow> (\<forall>j. j \<noteq> k \<longrightarrow> om_find j (im_flows t) = om_find j (im_flows s))"

lemma touches_refl [simp]: "touches k s s"
  by (simp add: touches_def)

lemma touches_trans: "touches k s t \<Longrightarrow> touches k t u \<Longrightarrow> touches k s u"
  by (simp add: touches_def)

lemma touches_resource [simp]: "touches k s (modify_resource i f s)"
  by (simp add: touches_def)

lemma touches_handle_deadline_miss: "touches flow (fst so) (fst (handle_deadline_miss flow now so))"
  by (cases so) (auto simp: handle_deadline_miss_def note_deadline_miss_def Let_def touches_def split: option.split)

lemma touches_fail_dependent: "touches flow s (fail_dependent flow now s)"
  by (simp add: fail_dependent_def touches_def)

lemma touches_close_attempt:
  assumes "om_find a (im_attempts s) = Some rec"
  shows "touches (dt_flow (ar_ticket rec)) s (snd (close_attempt a st d now s))"
proof -
  obtain code t where j: "journal RecAttemptClosed (take_record [rw_id a, rw_u8 (attempt_state_code st), rw_u64 now,
      rw_text (bounded_detail d)]) s = (code, t)" by force
  have t: "im_flows t = im_flows s" "im_attempts t = im_attempts s"
    using j by (auto simp: journal_def split: option.splits prod.splits)
  have "touches (dt_flow (ar_ticket rec)) t (apply_attempt_closed a st d now t)"
    using assms t unfolding apply_attempt_closed_def Let_def settle_flow_def
    by (cases st) (auto simp: touches_def split: option.split)
  then show ?thesis using t by (auto simp: close_attempt_def and_then_def j touches_def)
qed

text \<open>The throttle of preemptions moves only with a displacement.\<close>

lemma throttle_steps [simp]:
  "im_preemptions_in_window (fst (handle_deadline_miss flow now so)) = im_preemptions_in_window (fst so)"
  "im_preemptions_in_window (fail_dependent flow now s) = im_preemptions_in_window s"
  by (cases so) (auto simp: handle_deadline_miss_def note_deadline_miss_def Let_def fail_dependent_def
      split: option.split)

lemma throttle_close_attempt [simp]:
  "im_preemptions_in_window (snd (close_attempt a st d now s)) = im_preemptions_in_window s"
proof -
  have "im_preemptions_in_window (apply_attempt_closed a st d now t) = im_preemptions_in_window t" for t
    unfolding apply_attempt_closed_def Let_def settle_flow_def
    by (cases st) (auto split: option.split)
  then show ?thesis
    by (auto simp: close_attempt_def and_then_def journal_def split: option.split prod.split)
qed

section \<open>Entries of a round\<close>

definition run_entries :: "schedule_entry list \<Rightarrow> schedule_entry list" where
  "run_entries es = filter (\<lambda>e. se_kind e = KindRun) es"

definition units :: "(schedule_entry \<Rightarrow> bool) \<Rightarrow> schedule_entry list \<Rightarrow> nat" where
  "units P es = sum_list (map (\<lambda>e. unat (se_quantum e)) (filter P (run_entries es)))"

lemma run_entries_simps [simp]:
  "run_entries [] = []" "run_entries (es @ es') = run_entries es @ run_entries es'"
  "run_entries [e] = (if se_kind e = KindRun then [e] else [])"
  by (simp_all add: run_entries_def)

lemma units_simps [simp]:
  "units P [] = 0" "units P (es @ es') = units P es + units P es'"
  "units P [e] = (if se_kind e = KindRun \<and> P e then unat (se_quantum e) else 0)"
  by (simp_all add: units_def)

text \<open>The entry is what the flow, its bindings and the policy allow.\<close>

definition entry_names :: "ticks \<Rightarrow> schedule_entry \<Rightarrow> flow_descriptor \<Rightarrow> bool" where
  "entry_names now e d \<longleftrightarrow> se_flow e = fd_flow d \<and> se_flow_generation e = fd_generation d
     \<and> se_resource e = bd_id (fd_resource d) \<and> se_resource_generation e = bd_generation (fd_resource d)
     \<and> se_reservation e = bd_id (fd_reservation d)
     \<and> se_reservation_generation e = bd_generation (fd_reservation d)
     \<and> se_start_tick e = now \<and> se_deadline_tick e = fd_deadline_tick d"

definition quantum_legal :: "ticks \<Rightarrow> impl \<Rightarrow> u64 \<Rightarrow> flow_runtime \<Rightarrow> bool" where
  "quantum_legal now s q r \<longleftrightarrow> 0 < q \<and> q \<le> fd_service_quantum (fr_descriptor r) \<and> q \<le> remaining_work r
     \<and> q \<le> sp_max_quantum (im_policy s)
     \<and> (\<forall>limit. qos_limit s (fr_descriptor r) = Some limit \<longrightarrow> q \<le> limit)
     \<and> (has_deadline (fd_deadline_tick (fr_descriptor r)) \<and> sp_strict_deadlines (im_policy s) \<longrightarrow>
          unat now + unat q \<le> unat (fd_deadline_tick (fr_descriptor r)))"

definition entry_legal :: "ticks \<Rightarrow> impl \<Rightarrow> schedule_entry \<Rightarrow> bool" where
  "entry_legal now s e \<longleftrightarrow> (\<exists>r rr. om_find (se_flow e) (im_flows s) = Some r \<and> fr_lifecycle r = FlowReady
     \<and> fst (derived_readiness s r now) \<and> entry_names now e (fr_descriptor r)
     \<and> om_find (se_resource e) (im_resources s) = Some rr
     \<and> res_generation (rr_descriptor rr) = se_resource_generation e
     \<and> quantum_legal now s (se_quantum e) r)"

lemma legal_quantum_le:
  "legal_quantum rn r rr now \<le> fd_service_quantum (fr_descriptor r)"
  "legal_quantum rn r rr now \<le> remaining_work r"
  "legal_quantum rn r rr now \<le> sp_max_quantum (im_policy (rn_impl rn))"
  "qos_limit (rn_impl rn) (fr_descriptor r) = Some limit \<Longrightarrow> legal_quantum rn r rr now \<le> limit"
  "legal_quantum rn r rr now \<le> round_capacity rn r rr now"
  "legal_quantum rn r rr now \<le> reservation_slack rn r now"
  "has_deadline (fd_deadline_tick (fr_descriptor r)) \<Longrightarrow> sp_strict_deadlines (im_policy (rn_impl rn)) \<Longrightarrow>
    legal_quantum rn r rr now \<le>
      (if fd_deadline_tick (fr_descriptor r) > now then fd_deadline_tick (fr_descriptor r) - now else 0)"
proof -
  define d where "d = fr_descriptor r"
  define q2 where "q2 = min (min (fd_service_quantum d) (remaining_work r)) (sp_max_quantum (im_policy (rn_impl rn)))"
  define q3 where "q3 = (case qos_limit (rn_impl rn) d of None \<Rightarrow> q2 | Some limit \<Rightarrow> min q2 limit)"
  define q5 where "q5 = min (min q3 (round_capacity rn r rr now)) (reservation_slack rn r now)"
  define left where "left = (if fd_deadline_tick d > now then fd_deadline_tick d - now else 0)"
  have q: "legal_quantum rn r rr now
      = (if has_deadline (fd_deadline_tick d) \<and> sp_strict_deadlines (im_policy (rn_impl rn)) then min q5 left else q5)"
    by (simp only: legal_quantum_def Let_def q2_def q3_def q5_def left_def d_def)
  have le5: "legal_quantum rn r rr now \<le> q5" by (simp add: q)
  have le3: "legal_quantum rn r rr now \<le> q3" by (rule order_trans [OF le5]) (simp add: q5_def min_le_iff_disj)
  have le2: "legal_quantum rn r rr now \<le> q2"
    by (rule order_trans [OF le3]) (simp add: q3_def split: option.split)
  show "legal_quantum rn r rr now \<le> fd_service_quantum (fr_descriptor r)"
    "legal_quantum rn r rr now \<le> remaining_work r"
    "legal_quantum rn r rr now \<le> sp_max_quantum (im_policy (rn_impl rn))"
    by (rule order_trans [OF le2]; simp add: q2_def d_def min_le_iff_disj)+
  show "qos_limit (rn_impl rn) (fr_descriptor r) = Some limit \<Longrightarrow> legal_quantum rn r rr now \<le> limit"
    by (rule order_trans [OF le3]) (simp add: q3_def d_def)
  show "legal_quantum rn r rr now \<le> round_capacity rn r rr now"
    "legal_quantum rn r rr now \<le> reservation_slack rn r now"
    by (rule order_trans [OF le5]; simp add: q5_def min_le_iff_disj)+
  show "has_deadline (fd_deadline_tick (fr_descriptor r)) \<Longrightarrow> sp_strict_deadlines (im_policy (rn_impl rn)) \<Longrightarrow>
    legal_quantum rn r rr now \<le>
      (if fd_deadline_tick (fr_descriptor r) > now then fd_deadline_tick (fr_descriptor r) - now else 0)"
    by (simp only: q left_def d_def simp_thms if_True min.cobounded2)
qed

lemma le_monus:
  fixes q a b :: u64
  assumes "q \<le> (if a > b then a - b else 0)" "q \<noteq> 0"
  shows "unat b + unat q \<le> unat a"
proof -
  have "b < a" "q \<le> a - b" using assms by (auto split: if_splits)
  then show ?thesis by (simp add: word_le_nat_alt word_less_nat_alt unat_sub_le)
qed

lemma legal_quantum_legal:
  assumes "legal_quantum rn r rr now \<noteq> 0"
  shows "quantum_legal now (rn_impl rn) (legal_quantum rn r rr now) r"
  unfolding quantum_legal_def
  using assms le_monus [OF legal_quantum_le(7) assms]
  by (simp add: word_pos_iff legal_quantum_le)

lemma legal_quantum_capacity:
  assumes "legal_quantum rn r rr now \<noteq> 0"
  shows "unat (pending (bd_id (fd_resource (fr_descriptor r))) (rn_pending_capacity rn))
      + unat (legal_quantum rn r rr now) \<le> unat (capacity_remaining rr now)"
  using le_monus [OF legal_quantum_le(5) [unfolded round_capacity_def Let_def] assms] .

section \<open>The placement loop, case by case\<close>

definition incumbent :: "impl \<Rightarrow> resource_id \<Rightarrow> attempt_id \<Rightarrow> bool" where
  "incumbent s resource a \<longleftrightarrow> id_valid a \<and> (\<exists>k r. om_find k (im_flows s) = Some r
     \<and> fr_open_attempt r = a \<and> bd_id (fd_resource (fr_descriptor r)) = resource)"

lemma worst_incumbent_holds:
  assumes "worst_incumbent s resource now = Some a"
  shows "incumbent s resource a"
proof -
  let ?ok = "\<lambda>w :: (order_key \<times> attempt_id) option. pred_option (\<lambda>x. incumbent s resource (snd x)) w"
  have step: "?ok (incumbent_step s resource now k w)" if "?ok w" for k w
  proof (cases "om_find k (im_flows s)")
    case (Some r)
    have "incumbent s resource (fr_open_attempt r)"
      if "id_valid (fr_open_attempt r)" "bd_id (fd_resource (fr_descriptor r)) = resource"
      using that Some by (auto simp: incumbent_def)
    with that Some show ?thesis by (cases w) (simp_all add: incumbent_step_def Let_def split: prod.split)
  qed (use that in \<open>simp add: incumbent_step_def\<close>)
  have "?ok (fold (incumbent_step s resource now) (im_inflight_index s) None)"
    by (rule fold_invariant) (simp_all add: step)
  then show ?thesis using assms by (auto simp: worst_incumbent_def)
qed

lemma worst_incumbent_live:
  assumes wf: "core_wf s" and a: "worst_incumbent s resource now = Some a"
  shows "\<exists>rec r. attempt_live s a rec \<and> om_find (dt_flow (ar_ticket rec)) (im_flows s) = Some r
    \<and> holds_attempt (fr_lifecycle r) \<and> bd_id (fd_resource (fr_descriptor r)) = resource"
proof -
  obtain k r where r: "om_find k (im_flows s) = Some r" "fr_open_attempt r = a" "id_valid a"
      "bd_id (fd_resource (fr_descriptor r)) = resource"
    using worst_incumbent_holds [OF a] unfolding incumbent_def by blast
  then obtain rec where "attempt_live s a rec" "dt_flow (ar_ticket rec) = k"
    using attempt_held_live [OF wf r(1)] by auto
  with r core_wf_flow [OF wf r(1)] show ?thesis by (auto simp: flow_ok_def)
qed

text \<open>The round after a displacement that succeeded.\<close>

definition displaced ::
  "order_key \<Rightarrow> flow_runtime \<Rightarrow> attempt_id \<Rightarrow> attempt_runtime \<Rightarrow> flow_runtime \<Rightarrow> ticks \<Rightarrow> round \<Rightarrow> round \<Rightarrow> bool" where
  "displaced key r victim va vr now rn rn' \<longleftrightarrow> core_wf (rn_impl rn) \<longrightarrow>
     attempt_live (rn_impl rn) victim va
     \<and> om_find (dt_flow (ar_ticket va)) (im_flows (rn_impl rn)) = Some vr \<and> holds_attempt (fr_lifecycle vr)
     \<and> bd_id (fd_resource (fr_descriptor vr)) = bd_id (fd_resource (fr_descriptor r))
     \<and> fst (preemption_allowed (rn_impl rn) key vr now)
     \<and> displace key r victim va vr now rn = (Ok, rn')"

lemma make_room_cases:
  assumes "make_room key r rr now rn = ((Ok, go), rn')"
  shows "if go then rn' = rn \<and> rr_in_flight rr + pending (bd_id (fd_resource (fr_descriptor r))) (rn_pending_in_flight rn)
             < res_max_overlap (rr_descriptor rr)
           \<or> (\<exists>victim va vr. displaced key r victim va vr now rn rn')
         else \<exists>g. rn' = on_outcome g rn"
proof (cases "rr_in_flight rr + pending (bd_id (fd_resource (fr_descriptor r))) (rn_pending_in_flight rn)
    < res_max_overlap (rr_descriptor rr)")
  case True
  then show ?thesis using assms by (simp add: make_room_def Let_def)
next
  case False
  show ?thesis
  proof (cases "\<exists>victim va vr. worst_incumbent (rn_impl rn) (bd_id (fd_resource (fr_descriptor r))) now = Some victim
      \<and> om_find victim (im_attempts (rn_impl rn)) = Some va
      \<and> om_find (dt_flow (ar_ticket va)) (im_flows (rn_impl rn)) = Some vr
      \<and> fst (preemption_allowed (rn_impl rn) key vr now)")
    case True
    then obtain victim va vr where v: "worst_incumbent (rn_impl rn) (bd_id (fd_resource (fr_descriptor r))) now = Some victim"
        "om_find victim (im_attempts (rn_impl rn)) = Some va"
        "om_find (dt_flow (ar_ticket va)) (im_flows (rn_impl rn)) = Some vr"
        "fst (preemption_allowed (rn_impl rn) key vr now)" by blast
    have run: "displace key r victim va vr now rn = (Ok, rn')" "go"
      using assms False v by (auto simp: make_room_def Let_def split: prod.splits)
    have "displaced key r victim va vr now rn rn'"
      using v run worst_incumbent_live [OF _ v(1)] by (auto simp: displaced_def attempt_live_def)
    with run(2) show ?thesis by auto
  next
    case none: False
    then show ?thesis
      using assms False
      by (auto simp: make_room_def Let_def round_defer_def split: option.splits prod.splits if_splits)
  qed
qed

text \<open>A turn of the loop that did not fail, as the steps it may consist of.\<close>

definition rolled :: "ticks \<Rightarrow> flow_runtime \<Rightarrow> round \<Rightarrow> round" where
  "rolled now r rn = on_impl (modify_resource (bd_id (fd_resource (fr_descriptor r))) (roll_interval now)) rn"

inductive roomed :: "order_key \<Rightarrow> flow_runtime \<Rightarrow> ticks \<Rightarrow> round \<Rightarrow> round \<Rightarrow> bool" where
  room: "roomed key r now rn rn"
| displace: "displaced key r victim va vr now rn rn' \<Longrightarrow> roomed key r now rn rn'"

inductive considered :: "nat \<Rightarrow> ticks \<Rightarrow> flow_id \<Rightarrow> round \<Rightarrow> round \<Rightarrow> bool" where
  skip: "considered limit now flow rn (on_outcome g rn)"
| lapse: "touches flow (rn_impl rn) t \<Longrightarrow> same_setup now (rn_impl rn) t
    \<Longrightarrow> im_preemptions_in_window t = im_preemptions_in_window (rn_impl rn)
    \<Longrightarrow> considered limit now flow rn (rn\<lparr>rn_impl := t, rn_outcome := outcome\<rparr>)"
| place: "om_find flow (im_flows (rn_impl rn)) = Some r \<Longrightarrow> fr_lifecycle r = FlowReady
    \<Longrightarrow> fst (derived_readiness (rn_impl rn) r now) \<Longrightarrow> length (rn_entries rn) < limit
    \<Longrightarrow> om_find (bd_id (fd_resource (fr_descriptor r))) (im_resources (rn_impl rn)) = Some rr0
    \<Longrightarrow> res_generation (rr_descriptor rr0) = bd_generation (fd_resource (fr_descriptor r))
    \<Longrightarrow> roomed key r now (rolled now r rn) rn2
    \<Longrightarrow> (\<exists>g. rn' = on_outcome g rn2)
      \<or> (\<exists>r2 rr2. om_find flow (im_flows (rn_impl rn2)) = Some r2
          \<and> om_find (bd_id (fd_resource (fr_descriptor r))) (im_resources (rn_impl rn2)) = Some rr2
          \<and> rn' = grant key r2 rr2 now rn2)
    \<Longrightarrow> considered limit now flow rn rn'"

lemma on_outcome_id: "on_outcome (\<lambda>x. x) rn = rn"
  by (simp add: on_outcome_def)

lemma lapsed_considered: "considered limit now flow rn (readiness_lapsed flow r reason now rn)"
proof -
  let ?so = "(rn_impl rn, rn_outcome rn)"
  have "considered limit now flow rn (rn\<lparr>rn_impl := fst (handle_deadline_miss flow now ?so),
      rn_outcome := snd (handle_deadline_miss flow now ?so)\<rparr>)"
    using touches_handle_deadline_miss [where so = ?so and flow = flow and now = now]
      same_setup_handle_deadline_miss [where so = ?so and flow = flow and now = now and tick = now]
    by (intro considered.lapse) simp_all
  moreover have "considered limit now flow rn (rn\<lparr>rn_impl := fail_dependent flow now (rn_impl rn),
      rn_outcome := defer_flow r reason (lit (reason_text reason)) (rn_outcome rn)\<rparr>)"
    by (intro considered.lapse touches_fail_dependent same_setup_fail_dependent throttle_steps)
  moreover have "considered limit now flow rn (rn\<lparr>rn_outcome := g (rn_outcome rn)\<rparr>)" for g
    using considered.skip [of limit now flow rn g] by (simp add: on_outcome_def)
  ultimately show ?thesis
    unfolding readiness_lapsed_def round_defer_def on_outcome_def on_impl_def case_prod_beta
    by (auto simp del: reason_text.simps)
qed

lemma place_candidate_considered:
  assumes "place_candidate flow key r now rn = (Ok, rn')"
    and "om_find flow (im_flows (rn_impl rn)) = Some r" "fr_lifecycle r = FlowReady"
    and "fst (derived_readiness (rn_impl rn) r now)" "length (rn_entries rn) < limit"
  shows "considered limit now flow rn rn'"
proof -
  let ?res = "bd_id (fd_resource (fr_descriptor r))"
  show ?thesis
  proof (cases "\<exists>rr0. om_find ?res (im_resources (rn_impl rn)) = Some rr0
      \<and> res_generation (rr_descriptor rr0) = bd_generation (fd_resource (fr_descriptor r))")
    case True
    then obtain rr0 where rr0: "om_find ?res (im_resources (rn_impl rn)) = Some rr0"
      "res_generation (rr_descriptor rr0) = bd_generation (fd_resource (fr_descriptor r))" by blast
    obtain code go rn2 where room: "make_room key r (roll_interval now rr0) now (rolled now r rn) = ((code, go), rn2)"
      by (metis surj_pair)
    have code: "code = Ok" using assms(1) rr0 room by (auto simp: place_candidate_def Let_def rolled_def split: if_splits)
    have rn': "if go then case (om_find flow (im_flows (rn_impl rn2)), om_find ?res (im_resources (rn_impl rn2))) of
          (Some r2, Some rr2) \<Rightarrow> rn' = grant key r2 rr2 now rn2 | _ \<Rightarrow> rn' = rn2 else rn' = rn2"
      using assms(1) rr0 room code by (auto simp: place_candidate_def Let_def rolled_def split: option.splits)
    have "roomed key r now (rolled now r rn) rn2" if go
      using make_room_cases [OF room [unfolded code]] that by (auto intro: roomed.intros)
    moreover have "\<exists>g. rn2 = on_outcome g (rolled now r rn)" if "\<not> go"
      using make_room_cases [OF room [unfolded code]] that by simp
    ultimately obtain rn3 where rn3: "roomed key r now (rolled now r rn) rn3" "go \<Longrightarrow> rn3 = rn2"
      "\<not> go \<Longrightarrow> \<exists>g. rn2 = on_outcome g rn3"
      using roomed.room by (cases go) blast+
    show ?thesis
    proof (rule considered.place [OF assms(2-5) rr0 rn3(1)], cases go)
      case True
      then show "(\<exists>g. rn' = on_outcome g rn3) \<or> (\<exists>r2 rr2. om_find flow (im_flows (rn_impl rn3)) = Some r2
          \<and> om_find ?res (im_resources (rn_impl rn3)) = Some rr2 \<and> rn' = grant key r2 rr2 now rn3)"
        using rn' rn3(2) on_outcome_id [of rn2, symmetric] by (auto split: option.splits)
    next
      case False
      then show "(\<exists>g. rn' = on_outcome g rn3) \<or> (\<exists>r2 rr2. om_find flow (im_flows (rn_impl rn3)) = Some r2
          \<and> om_find ?res (im_resources (rn_impl rn3)) = Some rr2 \<and> rn' = grant key r2 rr2 now rn3)"
        using rn' rn3(3) by auto
    qed
  next
    case False
    then have "\<exists>g. rn' = on_outcome g rn"
      using assms(1) by (auto simp: place_candidate_def Let_def round_defer_def split: option.splits)
    then show ?thesis by (auto intro: considered.skip)
  qed
qed

lemma consider_candidate_considered:
  assumes "consider_candidate limit now (flow, key) rn = (Ok, rn')"
  shows "considered limit now flow rn rn'"
proof -
  have "considered limit now flow rn rn" using considered.skip [of limit now flow rn "\<lambda>x. x"] by (simp add: on_outcome_id)
  then show ?thesis
    using assms lapsed_considered place_candidate_considered
    by (auto simp: consider_candidate_def round_defer_def not_le intro: considered.skip
        split: option.splits prod.splits if_splits)
qed

lemma displaced_effect:
  assumes "displaced key r victim va vr now rn rn'" "core_wf (rn_impl rn)"
  shows "rn_entries rn' = rn_entries rn @ [preempt_entry (rn_next_ordinal rn) key (fd_flow (fr_descriptor r))
      (dt_flow (ar_ticket va)) (fd_generation (fr_descriptor vr)) victim (ar_ticket va) now]"
    and "rn_next_ordinal rn' = rn_next_ordinal rn + 1"
    and "rn_pending_capacity rn' = rn_pending_capacity rn"
    and "rn_pending_reservation rn' = rn_pending_reservation rn"
    and "rn_pending_in_flight rn' = rn_pending_in_flight rn"
    and "touches (dt_flow (ar_ticket va)) (rn_impl rn) (rn_impl rn')"
    and "same_setup now (rn_impl rn) (rn_impl rn')"
    and "im_preemptions_in_window (rn_impl rn') = im_preemptions_in_window (rn_impl rn) + 1"
proof -
  obtain s where close: "close_attempt victim AttemptPreempted (lit ''displaced by higher authority'') now (rn_impl rn) = (Ok, s)"
    and rn': "rn_impl rn' = modify_resource (bd_id (fd_resource (fr_descriptor r))) (roll_interval now)
      (s\<lparr>im_preemptions_issued := im_preemptions_issued s + 1, im_preemptions_in_window := im_preemptions_in_window s + 1\<rparr>)"
    using assms by (auto simp: displaced_def displace_def Let_def split: prod.splits if_splits)
  show "rn_entries rn' = rn_entries rn @ [preempt_entry (rn_next_ordinal rn) key (fd_flow (fr_descriptor r))
      (dt_flow (ar_ticket va)) (fd_generation (fr_descriptor vr)) victim (ar_ticket va) now]"
    "rn_next_ordinal rn' = rn_next_ordinal rn + 1" "rn_pending_capacity rn' = rn_pending_capacity rn"
    "rn_pending_reservation rn' = rn_pending_reservation rn" "rn_pending_in_flight rn' = rn_pending_in_flight rn"
    using assms close by (auto simp: displaced_def displace_def Let_def round_defer_def on_outcome_def)
  have "om_find victim (im_attempts (rn_impl rn)) = Some va"
    using assms by (auto simp: displaced_def attempt_live_def)
  from touches_close_attempt [OF this, of AttemptPreempted "lit ''displaced by higher authority''" now] close
  show "touches (dt_flow (ar_ticket va)) (rn_impl rn) (rn_impl rn')" by (simp add: rn' touches_def)
  have "same_setup now (rn_impl rn) s"
    using same_setup_close_attempt [of now "rn_impl rn"] close by (metis snd_conv)
  then show "same_setup now (rn_impl rn) (rn_impl rn')"
    unfolding rn' by (intro same_setup_trans [OF _ same_setup_roll] setup_then_same)
  show "im_preemptions_in_window (rn_impl rn') = im_preemptions_in_window (rn_impl rn) + 1"
    using throttle_close_attempt [of victim AttemptPreempted "lit ''displaced by higher authority''" now "rn_impl rn"]
    by (simp add: rn' close)
qed

section \<open>Legality of the entries\<close>

lemma derived_readiness_kept:
  assumes "fst (derived_readiness s r now)" "same_setup now s t" "\<And>k. evolves k s t"
  shows "fst (derived_readiness t r now)"
proof -
  have "fr_lifecycle r' = FlowCompleted"
    if "om_find k (im_flows t) = Some r'" "om_find k (im_flows s) = Some r0" "fr_lifecycle r0 = FlowCompleted" for k r' r0
    using assms(3) [of k] that by (auto simp: evolves_def progress_def)
  moreover have "om_find k (im_flows t) \<noteq> None" if "om_find k (im_flows s) = Some r0" for k r0
    using assms(3) [of k] that by (auto simp: evolves_def)
  ultimately have "dependencies_satisfied t r" if "dependencies_satisfied s r"
    using that unfolding dependencies_satisfied_def list_all_iff by (fastforce split: option.splits)
  moreover have "reservation_usable t r now = reservation_usable s r now"
    using assms(2) by (simp add: same_setup_def reservation_usable_def Let_def)
  ultimately show ?thesis
    using assms(1) by (auto simp: derived_readiness_def Let_def split: if_splits prod.splits)
qed

lemma entry_legal_kept:
  assumes "entry_legal now s e" "same_setup now s t" "\<And>k. evolves k s t"
    and "om_find (se_flow e) (im_flows t) = om_find (se_flow e) (im_flows s)"
  shows "entry_legal now t e"
proof -
  obtain r rr where r: "om_find (se_flow e) (im_flows s) = Some r" "fr_lifecycle r = FlowReady"
      "fst (derived_readiness s r now)" "entry_names now e (fr_descriptor r)"
      "quantum_legal now s (se_quantum e) r"
    and rr: "om_find (se_resource e) (im_resources s) = Some rr"
      "res_generation (rr_descriptor rr) = se_resource_generation e"
    using assms(1) by (auto simp: entry_legal_def)
  have "resource_terms now t (se_resource e) = resource_terms now s (se_resource e)"
    using assms(2) by (simp add: same_setup_def)
  then obtain rr' where "om_find (se_resource e) (im_resources t) = Some rr'"
      "res_generation (rr_descriptor rr') = se_resource_generation e"
    using rr by (auto simp: resource_terms_def)
  moreover have "quantum_legal now t (se_quantum e) r"
    using r(5) assms(2) by (simp add: quantum_legal_def same_setup_def qos_limit_def)
  moreover have "fst (derived_readiness t r now)" by (rule derived_readiness_kept [OF r(3) assms(2,3)])
  ultimately show ?thesis using r assms(4) by (auto simp: entry_legal_def)
qed

definition legal_round :: "ticks \<Rightarrow> impl \<Rightarrow> flow_id list \<Rightarrow> round \<Rightarrow> bool" where
  "legal_round now s seen rn \<longleftrightarrow> core_wf (rn_impl rn) \<and> same_setup now s (rn_impl rn)
     \<and> subseq (map se_flow (run_entries (rn_entries rn))) seen
     \<and> (\<forall>e\<in>set (run_entries (rn_entries rn)). entry_legal now (rn_impl rn) e)"

lemma legal_round_touch:
  assumes "legal_round now s seen rn" "core_wf t" "same_setup now (rn_impl rn) t" "\<And>k. evolves k (rn_impl rn) t"
    and "touches j (rn_impl rn) t" "j \<notin> se_flow ` set (run_entries (rn_entries rn))"
    and "run_entries (rn_entries rn') = run_entries (rn_entries rn)" "rn_impl rn' = t"
  shows "legal_round now s seen rn'"
proof -
  have "entry_legal now t e" if e: "e \<in> set (run_entries (rn_entries rn))" for e
  proof (rule entry_legal_kept [OF _ assms(3,4)])
    show "entry_legal now (rn_impl rn) e" using assms(1) e by (simp add: legal_round_def)
    have "se_flow e \<noteq> j" using assms(6) e by blast
    then show "om_find (se_flow e) (im_flows t) = om_find (se_flow e) (im_flows (rn_impl rn))"
      using assms(5) by (simp add: touches_def)
  qed
  moreover have "same_setup now s t" using assms(1,3) same_setup_trans by (auto simp: legal_round_def)
  ultimately show ?thesis using assms(1,2,7,8) by (simp add: legal_round_def)
qed

lemma grant_fields:
  "rn_impl (grant key r rr now rn) = rn_impl rn"
  "rn_entries (grant key r rr now rn) = rn_entries rn @ (if legal_quantum rn r rr now = 0 then []
     else [run_entry (rn_impl rn) (rn_next_ordinal rn) key (fr_descriptor r) (legal_quantum rn r rr now) now])"
  "rn_next_ordinal (grant key r rr now rn)
     = rn_next_ordinal rn + (if legal_quantum rn r rr now = 0 then 0 else 1)"
  by (simp_all add: grant_def Let_def round_defer_def on_outcome_def)

lemma run_entry_names [simp]:
  "se_kind (run_entry s n key d q now) = KindRun" "se_flow (run_entry s n key d q now) = fd_flow d"
  "se_quantum (run_entry s n key d q now) = q" "se_resource (run_entry s n key d q now) = bd_id (fd_resource d)"
  "se_reservation (run_entry s n key d q now) = bd_id (fd_reservation d)"
  "se_reservation_generation (run_entry s n key d q now) = bd_generation (fd_reservation d)"
  "se_resource_generation (run_entry s n key d q now) = bd_generation (fd_resource d)"
  "entry_names now (run_entry s n key d q now) d"
  by (simp_all add: run_entry_def entry_names_def)

lemma legal_round_grant:
  assumes rn: "legal_round now s seen rn" and flow: "flow \<notin> se_flow ` set (run_entries (rn_entries rn))"
    and r: "om_find flow (im_flows (rn_impl rn)) = Some r" "fr_lifecycle r = FlowReady"
      "fst (derived_readiness (rn_impl rn) r now)"
    and rr: "om_find (bd_id (fd_resource (fr_descriptor r))) (im_resources (rn_impl rn)) = Some rr"
      "res_generation (rr_descriptor rr) = bd_generation (fd_resource (fr_descriptor r))"
  shows "legal_round now s (seen @ [flow]) (grant key r rr now rn)"
proof -
  have key: "fd_flow (fr_descriptor r) = flow"
    using rn r(1) core_wf_key by (auto simp: legal_round_def)
  have "entry_legal now (rn_impl rn) (run_entry (rn_impl rn) n key (fr_descriptor r) (legal_quantum rn r rr now) now)"
    if "legal_quantum rn r rr now \<noteq> 0" for n
    unfolding entry_legal_def using r rr key legal_quantum_legal [OF that] by auto
  then show ?thesis
    using rn key by (auto simp: legal_round_def grant_fields)
qed

lemma legal_round_more: "legal_round now s seen rn \<Longrightarrow> legal_round now s (seen @ [flow]) (on_outcome g rn)"
  by (auto simp: legal_round_def on_outcome_def)

lemma legal_round_roomed:
  assumes rn: "legal_round now s seen rn" and room: "roomed key r now (rolled now r rn) rn2"
    and keep: "\<And>k. keeps k (rn_impl rn) (rn_impl rn2)"
    and r: "om_find flow (im_flows (rn_impl rn)) = Some r" "fr_lifecycle r = FlowReady"
    and flow: "flow \<notin> se_flow ` set (run_entries (rn_entries rn))"
  shows "legal_round now s seen rn2 \<and> om_find flow (im_flows (rn_impl rn2)) = Some r
    \<and> run_entries (rn_entries rn2) = run_entries (rn_entries rn) \<and> same_setup now (rn_impl rn) (rn_impl rn2)"
proof -
  let ?rn1 = "rolled now r rn"
  have wf: "core_wf (rn_impl rn)" and evolves: "evolves k (rn_impl rn) (rn_impl rn2)"
    and wf2: "core_wf (rn_impl rn2)" for k
    using rn keep by (auto simp: legal_round_def keeps_def)
  have roll: "same_setup now (rn_impl rn) (rn_impl ?rn1)" "im_flows (rn_impl ?rn1) = im_flows (rn_impl rn)"
    "rn_entries ?rn1 = rn_entries rn"
    by (simp_all add: rolled_def same_setup_roll on_impl_def)
  have wf1: "core_wf (rn_impl ?rn1)"
    using wf keeps_same_core [OF same_core_primitives(3), of undefined "rn_impl rn"] by (simp add: rolled_def keeps_def)
  from room show ?thesis
  proof cases
    case room
    have "touches flow (rn_impl rn) (rn_impl rn2)" by (simp add: room touches_def roll)
    then have "legal_round now s seen rn2"
      by (intro legal_round_touch [OF rn wf2 _ evolves _ flow]) (simp_all add: room roll)
    then show ?thesis by (simp add: room roll r)
  next
    case (displace victim va vr)
    note effect = displaced_effect [OF displace wf1]
    let ?k = "dt_flow (ar_ticket va)"
    have vr: "om_find ?k (im_flows (rn_impl rn)) = Some vr" "holds_attempt (fr_lifecycle vr)"
      using displace wf1 by (auto simp: displaced_def roll)
    have same: "same_setup now (rn_impl rn) (rn_impl rn2)" by (rule same_setup_trans [OF roll(1) effect(7)])
    have other: "?k \<notin> se_flow ` set (run_entries (rn_entries rn))"
      using rn vr by (auto simp: legal_round_def entry_legal_def)
    have entries: "run_entries (rn_entries rn2) = run_entries (rn_entries rn)"
      by (simp add: effect(1) roll preempt_entry_def)
    have "touches ?k (rn_impl rn) (rn_impl rn2)" using effect(6) by (simp add: touches_def roll)
    moreover have "flow \<noteq> ?k" using r vr by auto
    moreover have "legal_round now s seen rn2"
      by (rule legal_round_touch [OF rn wf2 same evolves _ other entries refl]) fact
    ultimately show ?thesis using r same entries by (simp add: touches_def)
  qed
qed

lemma legal_round_new:
  assumes "legal_round now s seen rn" "flow \<notin> set seen"
  shows "flow \<notin> se_flow ` set (run_entries (rn_entries rn))"
proof -
  have "k \<in> set seen" if "k \<in> set (map se_flow (run_entries (rn_entries rn)))" for k
    using list_emb_set [OF _ that, of "(=)" seen] assms(1) by (auto simp: legal_round_def)
  then show ?thesis using assms(2) by auto
qed

lemma rolled_wf: "core_wf (rn_impl rn) \<Longrightarrow> core_wf (rn_impl (rolled now r rn))"
  using keeps_same_core [OF same_core_primitives(3), of undefined "rn_impl rn"] by (simp add: rolled_def keeps_def)

lemma rolled_fields [simp]:
  "rn_entries (rolled now r rn) = rn_entries rn" "rn_next_ordinal (rolled now r rn) = rn_next_ordinal rn"
  "rn_pending_capacity (rolled now r rn) = rn_pending_capacity rn"
  "rn_pending_reservation (rolled now r rn) = rn_pending_reservation rn"
  "rn_pending_in_flight (rolled now r rn) = rn_pending_in_flight rn"
  "im_preemptions_in_window (rn_impl (rolled now r rn)) = im_preemptions_in_window (rn_impl rn)"
  "im_flows (rn_impl (rolled now r rn)) = im_flows (rn_impl rn)"
  by (simp_all add: rolled_def on_impl_def)

lemma legal_round_step:
  assumes rn: "legal_round now s seen rn" and step: "considered limit now flow rn rn'"
    and keep: "\<And>k. keeps k (rn_impl rn) (rn_impl rn')" and flow: "flow \<notin> set seen"
  shows "legal_round now s (seen @ [flow]) rn'"
proof -
  note new = legal_round_new [OF rn flow]
  have evolves: "evolves k (rn_impl rn) (rn_impl rn')" and wf': "core_wf (rn_impl rn')" for k
    using rn keep by (auto simp: legal_round_def keeps_def)
  from step show ?thesis
  proof cases
    case (skip g)
    then show ?thesis using rn legal_round_more by simp
  next
    case (lapse t outcome)
    have "legal_round now s seen rn'"
      by (rule legal_round_touch [OF rn wf' _ evolves _ new]) (use lapse in simp_all)
    then show ?thesis using legal_round_more [of now s seen rn' flow "\<lambda>x. x"] by (simp add: on_outcome_id)
  next
    case (place r rr0 key rn2)
    have impl: "rn_impl rn2 = rn_impl rn'" using place(8) by (auto simp: grant_fields)
    have rn2: "legal_round now s seen rn2" "om_find flow (im_flows (rn_impl rn2)) = Some r"
        "run_entries (rn_entries rn2) = run_entries (rn_entries rn)" "same_setup now (rn_impl rn) (rn_impl rn2)"
      using legal_round_roomed [OF rn place(7) _ place(1,2) new] keep impl by simp_all
    have ready: "fst (derived_readiness (rn_impl rn2) r now)"
      by (rule derived_readiness_kept [OF place(3) rn2(4)]) (simp add: impl evolves)
    have "res_generation (rr_descriptor rr2) = bd_generation (fd_resource (fr_descriptor r))"
      if "om_find (bd_id (fd_resource (fr_descriptor r))) (im_resources (rn_impl rn2)) = Some rr2" for rr2
    proof -
      have "resource_terms now (rn_impl rn2) = resource_terms now (rn_impl rn)"
        using rn2(4) by (simp add: same_setup_def)
      from fun_cong [OF this, of "bd_id (fd_resource (fr_descriptor r))"] show ?thesis
        using that place(5,6) by (simp add: resource_terms_def)
    qed
    then show ?thesis
      using place(8) rn2 new legal_round_more [OF rn2(1)]
        legal_round_grant [OF rn2(1) _ rn2(2) place(2) ready] by auto
  qed
qed

section \<open>Capacity of resources and reservations\<close>

definition bound_to :: "reservation_id \<Rightarrow> schedule_entry \<Rightarrow> bool" where
  "bound_to v e \<longleftrightarrow> se_reservation e = v \<and> id_valid v \<and> id_valid (se_reservation_generation e)"

definition reservation_left :: "reservation_runtime \<Rightarrow> nat" where
  "reservation_left rv = unat (rsv_capacity (rv_descriptor rv)) - unat (rv_reserved_units rv)"

definition within_limits :: "ticks \<Rightarrow> impl \<Rightarrow> round \<Rightarrow> bool" where
  "within_limits now s rn \<longleftrightarrow>
     (\<forall>i. units (\<lambda>e. se_resource e = i) (rn_entries rn) \<le> unat (pending i (rn_pending_capacity rn)))
     \<and> (\<forall>i d c. resource_terms now s i = Some (d, c) \<longrightarrow> units (\<lambda>e. se_resource e = i) (rn_entries rn) \<le> unat c)
     \<and> (\<forall>v. units (bound_to v) (rn_entries rn) \<le> unat (pending v (rn_pending_reservation rn)))
     \<and> (\<forall>v rv. om_find v (im_reservations s) = Some rv \<longrightarrow>
          units (bound_to v) (rn_entries rn) \<le> reservation_left rv)"

lemma pending_charge:
  "pending k (charge q j m) = (if k = j then saturating_add (pending k m) q else pending k m)"
  by (simp add: pending_def charge_def)

lemma within_limits_cong:
  assumes "run_entries (rn_entries rn') = run_entries (rn_entries rn)"
    "rn_pending_capacity rn' = rn_pending_capacity rn" "rn_pending_reservation rn' = rn_pending_reservation rn"
  shows "within_limits now s rn' = within_limits now s rn"
  using assms by (simp add: within_limits_def units_def)

lemma grant_pending:
  assumes "legal_quantum rn r rr now \<noteq> 0"
  shows "rn_pending_capacity (grant key r rr now rn)
      = charge (legal_quantum rn r rr now) (bd_id (fd_resource (fr_descriptor r))) (rn_pending_capacity rn)"
    and "rn_pending_reservation (grant key r rr now rn) = (if id_valid (bd_id (fd_reservation (fr_descriptor r)))
      then charge (legal_quantum rn r rr now) (bd_id (fd_reservation (fr_descriptor r))) (rn_pending_reservation rn)
      else rn_pending_reservation rn)"
  using assms by (simp_all add: grant_def Let_def)

lemma saturating_exact:
  assumes "unat a + unat b \<le> unat (c :: u64)"
  shows "unat (saturating_add a b) = unat a + unat b"
  using assms unat_le_u64_max [of c] by (simp add: saturating_nat)

lemma saturating_add_mono: "n \<le> unat a \<Longrightarrow> n \<le> unat (saturating_add a b)"
  using saturating_add_ge [of a b] by (simp add: word_le_nat_alt)

lemma reservation_slack_left:
  assumes "bound (fd_reservation (fr_descriptor r))" "q \<le> reservation_slack rn r now" "q \<noteq> 0"
  shows "\<exists>rv. om_find (bd_id (fd_reservation (fr_descriptor r))) (im_reservations (rn_impl rn)) = Some rv
    \<and> unat (pending (bd_id (fd_reservation (fr_descriptor r))) (rn_pending_reservation rn)) + unat q \<le> reservation_left rv"
proof -
  let ?v = "bd_id (fd_reservation (fr_descriptor r))"
  have le: "unat (pending ?v (rn_pending_reservation rn)) + unat q \<le> unat (reservation_remaining (rn_impl rn) r now)"
    using assms by (intro le_monus) (simp_all add: reservation_slack_def Let_def)
  moreover have "unat q \<noteq> 0" using assms(3) by (simp add: unat_eq_zero)
  ultimately have "reservation_remaining (rn_impl rn) r now \<noteq> 0" by auto
  then obtain rv where "om_find ?v (im_reservations (rn_impl rn)) = Some rv"
      "reservation_remaining (rn_impl rn) r now = rsv_capacity (rv_descriptor rv) - rv_reserved_units rv"
      "rv_reserved_units rv < rsv_capacity (rv_descriptor rv)"
    using assms(1) by (auto simp: reservation_remaining_def Let_def not_le split: option.splits if_splits)
  with le show ?thesis by (auto simp: reservation_left_def word_less_nat_alt unat_sub_le word_le_nat_alt)
qed

lemma within_limits_grant:
  assumes rn: "within_limits now s rn" and same: "same_setup now s (rn_impl rn)"
    and rr: "om_find (bd_id (fd_resource (fr_descriptor r))) (im_resources (rn_impl rn)) = Some rr"
  shows "within_limits now s (grant key r rr now rn)"
proof (cases "legal_quantum rn r rr now = 0")
  case True
  then show ?thesis using rn by (simp add: grant_def Let_def round_defer_def on_outcome_def within_limits_def)
next
  case False
  let ?q = "legal_quantum rn r rr now" and ?i = "bd_id (fd_resource (fr_descriptor r))"
    and ?v = "bd_id (fd_reservation (fr_descriptor r))"
  have "resource_terms now s ?i = resource_terms now (rn_impl rn) ?i" using same by (simp add: same_setup_def)
  then have terms: "resource_terms now s ?i = Some (rr_descriptor rr, capacity_remaining rr now)"
    by (simp add: resource_terms_def rr)
  note cap = legal_quantum_capacity [OF False]
  have exact: "unat (saturating_add (pending ?i (rn_pending_capacity rn)) ?q) = unat (pending ?i (rn_pending_capacity rn)) + unat ?q"
    by (rule saturating_exact [OF cap])
  have old: "units (\<lambda>e. se_resource e = i) (rn_entries rn) \<le> unat (pending i (rn_pending_capacity rn))"
    "units (bound_to v) (rn_entries rn) \<le> unat (pending v (rn_pending_reservation rn))" for i v
    using rn by (simp_all add: within_limits_def)
  have grown: "units P (rn_entries (grant key r rr now rn)) = units P (rn_entries rn)
      + (if P (run_entry (rn_impl rn) (rn_next_ordinal rn) key (fr_descriptor r) ?q now) then unat ?q else 0)" for P
    by (simp add: grant_fields False)
  have slack: "\<exists>rv. om_find ?v (im_reservations s) = Some rv
      \<and> unat (pending ?v (rn_pending_reservation rn)) + unat ?q \<le> reservation_left rv"
    if "bound (fd_reservation (fr_descriptor r))"
    using reservation_slack_left [OF that legal_quantum_le(6) False] same by (simp add: same_setup_def)
  have left: "reservation_left rv \<le> unat (rsv_capacity (rv_descriptor rv))" for rv by (simp add: reservation_left_def)
  show ?thesis
    unfolding within_limits_def grown
  proof (intro conjI allI impI)
    fix i d c assume t: "resource_terms now s i = Some (d, c)"
    show "units (\<lambda>e. se_resource e = i) (rn_entries rn) + (if se_resource (run_entry (rn_impl rn) (rn_next_ordinal rn)
        key (fr_descriptor r) ?q now) = i then unat ?q else 0) \<le> unat c"
    proof (cases "i = ?i")
      case True
      with t terms have "c = capacity_remaining rr now" by simp
      with True show ?thesis using cap old(1) [of ?i] by simp
    qed (use rn t in \<open>auto simp: within_limits_def\<close>)
  next
    fix v rv assume rv: "om_find v (im_reservations s) = Some rv"
    show "units (bound_to v) (rn_entries rn) + (if bound_to v (run_entry (rn_impl rn) (rn_next_ordinal rn)
        key (fr_descriptor r) ?q now) then unat ?q else 0) \<le> reservation_left rv"
    proof (cases "v = ?v \<and> bound (fd_reservation (fr_descriptor r))")
      case True
      with slack rv have "unat (pending ?v (rn_pending_reservation rn)) + unat ?q \<le> reservation_left rv" by auto
      then show ?thesis using old(2) [of ?v] True by simp
    next
      case False
      then have "\<not> bound_to v (run_entry (rn_impl rn) (rn_next_ordinal rn) key (fr_descriptor r) ?q now)"
        by (auto simp: bound_to_def bound_def)
      then show ?thesis using rn rv by (simp add: within_limits_def)
    qed
  next
    fix i
    show "units (\<lambda>e. se_resource e = i) (rn_entries rn) + (if se_resource (run_entry (rn_impl rn) (rn_next_ordinal rn)
        key (fr_descriptor r) ?q now) = i then unat ?q else 0) \<le> unat (pending i (rn_pending_capacity (grant key r rr now rn)))"
      using old(1) [of i] exact by (auto simp: grant_pending [OF False] pending_charge)
  next
    fix v
    have "unat (saturating_add (pending ?v (rn_pending_reservation rn)) ?q) = unat (pending ?v (rn_pending_reservation rn)) + unat ?q"
      if "bound (fd_reservation (fr_descriptor r))"
      using slack [OF that] left by (auto intro: saturating_exact order_trans)
    then show "units (bound_to v) (rn_entries rn) + (if bound_to v (run_entry (rn_impl rn) (rn_next_ordinal rn)
        key (fr_descriptor r) ?q now) then unat ?q else 0) \<le> unat (pending v (rn_pending_reservation (grant key r rr now rn)))"
      using old(2) [of v]
      by (cases "v = ?v") (simp_all add: grant_pending [OF False] pending_charge bound_to_def bound_def saturating_add_mono)
  qed
qed

lemma roomed_fields:
  assumes "roomed key r now (rolled now r rn) rn2" "core_wf (rn_impl rn)"
  shows "rn_pending_capacity rn2 = rn_pending_capacity rn" "rn_pending_reservation rn2 = rn_pending_reservation rn"
    "rn_pending_in_flight rn2 = rn_pending_in_flight rn"
proof -
  from assms(1) show "rn_pending_capacity rn2 = rn_pending_capacity rn" "rn_pending_reservation rn2 = rn_pending_reservation rn"
    "rn_pending_in_flight rn2 = rn_pending_in_flight rn"
    by (cases; simp add: displaced_effect [OF _ rolled_wf [OF assms(2)]])+
qed

lemma within_limits_step:
  assumes rn: "legal_round now s seen rn" "within_limits now s rn" and step: "considered limit now flow rn rn'"
    and keep: "\<And>k. keeps k (rn_impl rn) (rn_impl rn')" and flow: "flow \<notin> set seen"
  shows "within_limits now s rn'"
  using step
proof cases
  case (skip g)
  then show ?thesis using rn by (simp add: within_limits_def on_outcome_def)
next
  case (lapse t outcome)
  then show ?thesis using rn by (simp add: within_limits_def)
next
  case (place r rr0 key rn2)
  have wf: "core_wf (rn_impl rn)" using rn by (simp add: legal_round_def)
  have impl: "rn_impl rn2 = rn_impl rn'" using place(8) by (auto simp: grant_fields)
  note new = legal_round_new [OF rn(1) flow]
  have rn2: "legal_round now s seen rn2" "om_find flow (im_flows (rn_impl rn2)) = Some r"
      "run_entries (rn_entries rn2) = run_entries (rn_entries rn)"
    using legal_round_roomed [OF rn(1) place(7) _ place(1,2) new] keep impl by simp_all
  have limits2: "within_limits now s rn2"
    using rn(2) within_limits_cong [OF rn2(3) roomed_fields(1,2) [OF place(7) wf]] by simp
  have same2: "same_setup now s (rn_impl rn2)" using rn2(1) by (simp add: legal_round_def)
  from place(8) show ?thesis
  proof (elim disjE exE conjE)
    fix g assume "rn' = on_outcome g rn2"
    then show ?thesis using limits2 by (simp add: within_limits_def on_outcome_def)
  next
    fix r2 rr2 assume r2: "om_find flow (im_flows (rn_impl rn2)) = Some r2" "rn' = grant key r2 rr2 now rn2"
      and rr2: "om_find (bd_id (fd_resource (fr_descriptor r))) (im_resources (rn_impl rn2)) = Some rr2"
    then show ?thesis using rn2(2) within_limits_grant [OF limits2 same2] by simp
  qed
qed

section \<open>Ordinals and preemption\<close>

definition numbered :: "nat \<Rightarrow> round \<Rightarrow> bool" where
  "numbered limit rn \<longleftrightarrow> rn_next_ordinal rn = of_nat (length (rn_entries rn))
     \<and> map se_ordinal (rn_entries rn) = map of_nat [0..<length (rn_entries rn)]
     \<and> length (rn_entries rn) \<le> limit + 1"

text \<open>What the policy says about displacing a flow.\<close>

definition displaceable :: "impl \<Rightarrow> flow_id \<Rightarrow> bool" where
  "displaceable s k \<longleftrightarrow> (\<exists>d served. flow_terms s k = Some (d, served) \<and> sp_preemption (im_policy s) \<noteq> PreemptNone
     \<and> fd_preemptible d \<and> sp_min_preempt_service (im_policy s) \<le> served
     \<and> \<not> (\<exists>qos. om_find (bd_id (fd_qos d)) (im_qos_classes s) = Some qos
            \<and> qos_generation qos = bd_generation (fd_qos d) \<and> qos_preemption_protected qos))"

definition preempt_entries :: "schedule_entry list \<Rightarrow> schedule_entry list" where
  "preempt_entries es = filter (\<lambda>e. se_kind e \<noteq> KindRun) es"

lemma preempt_entries_simps [simp]:
  "preempt_entries [] = []" "preempt_entries (es @ es') = preempt_entries es @ preempt_entries es'"
  "preempt_entries [e] = (if se_kind e = KindRun then [] else [e])"
  by (simp_all add: preempt_entries_def)

definition throttled :: "impl \<Rightarrow> round \<Rightarrow> bool" where
  "throttled s rn \<longleftrightarrow> (\<forall>e\<in>set (preempt_entries (rn_entries rn)). displaceable s (se_flow e))
     \<and> unat (im_preemptions_in_window (rn_impl rn))
         = unat (im_preemptions_in_window s) + length (preempt_entries (rn_entries rn))
     \<and> (preempt_entries (rn_entries rn) \<noteq> [] \<longrightarrow>
          im_preemptions_in_window (rn_impl rn) \<le> sp_max_preemptions_per_interval (im_policy s))"

lemma preemption_allowed_displaceable:
  assumes "fst (preemption_allowed s key r now)" "om_find k (im_flows s) = Some r"
  shows "displaceable s k" "im_preemptions_in_window s < sp_max_preemptions_per_interval (im_policy s)"
  using assms
  by (auto simp: preemption_allowed_def displaceable_def flow_terms_def Let_def not_le not_less
      split: if_splits option.splits)

lemma displaceable_cong: "same_setup now s t \<Longrightarrow> displaceable t k = displaceable s k"
  by (simp add: displaceable_def same_setup_def)

lemma throttled_roomed:
  assumes rn: "throttled s rn" and wf: "core_wf (rn_impl rn)" and same: "same_setup now s (rn_impl rn)"
    and room: "roomed key r now (rolled now r rn) rn2"
  shows "throttled s rn2"
  using room
proof cases
  case room
  then show ?thesis using rn by (simp add: throttled_def)
next
  case (displace victim va vr)
  let ?rn1 = "rolled now r rn"
  note wf1 = rolled_wf [OF wf]
  note effect = displaced_effect [OF displace wf1]
  have same1: "same_setup now s (rn_impl ?rn1)"
    using same_setup_trans [OF same same_setup_roll] by (simp add: rolled_def)
  have "fst (preemption_allowed (rn_impl ?rn1) key vr now)"
    "om_find (dt_flow (ar_ticket va)) (im_flows (rn_impl ?rn1)) = Some vr"
    using displace wf1 by (auto simp: displaced_def)
  note allowed = preemption_allowed_displaceable [OF this]
  have "displaceable s (dt_flow (ar_ticket va))" using allowed(1) displaceable_cong [OF same1] by simp
  moreover have "im_preemptions_in_window (rn_impl rn) < sp_max_preemptions_per_interval (im_policy s)"
    using allowed(2) same1 by (simp add: same_setup_def)
  then have "unat (im_preemptions_in_window (rn_impl rn) + 1) = unat (im_preemptions_in_window (rn_impl rn)) + 1"
    "im_preemptions_in_window (rn_impl rn) + 1 \<le> sp_max_preemptions_per_interval (im_policy s)"
    by (simp_all add: word_inc)
  ultimately show ?thesis
    using rn effect(8) by (auto simp: throttled_def effect(1) preempt_entry_def)
qed

lemma numbered_snoc:
  assumes "rn_next_ordinal rn = of_nat (length (rn_entries rn))"
    and "map se_ordinal (rn_entries rn) = map of_nat [0..<length (rn_entries rn)]"
    and "rn_entries rn' = rn_entries rn @ [e]" "se_ordinal e = rn_next_ordinal rn"
    and "rn_next_ordinal rn' = rn_next_ordinal rn + 1"
  shows "rn_next_ordinal rn' = of_nat (length (rn_entries rn'))"
    "map se_ordinal (rn_entries rn') = map of_nat [0..<length (rn_entries rn')]"
  using assms by (simp_all add: add.commute)

lemma numbered_step:
  assumes rn: "numbered limit rn" "core_wf (rn_impl rn)" and step: "considered limit now flow rn rn'"
  shows "numbered limit rn'"
  using step
proof cases
  case (skip g)
  then show ?thesis using rn by (simp add: numbered_def on_outcome_def)
next
  case (lapse t outcome)
  then show ?thesis using rn by (simp add: numbered_def)
next
  case (place r rr0 key rn2)
  have rn2: "rn_next_ordinal rn2 = of_nat (length (rn_entries rn2))"
    "map se_ordinal (rn_entries rn2) = map of_nat [0..<length (rn_entries rn2)]"
    "length (rn_entries rn2) \<le> limit"
    using place(7)
  proof (atomize(full), cases)
    case room
    then show "rn_next_ordinal rn2 = of_nat (length (rn_entries rn2))
        \<and> map se_ordinal (rn_entries rn2) = map of_nat [0..<length (rn_entries rn2)]
        \<and> length (rn_entries rn2) \<le> limit"
      using rn place(4) by (simp add: numbered_def)
  next
    case (displace victim va vr)
    note effect = displaced_effect [OF displace rolled_wf [OF rn(2)]]
    show "rn_next_ordinal rn2 = of_nat (length (rn_entries rn2))
        \<and> map se_ordinal (rn_entries rn2) = map of_nat [0..<length (rn_entries rn2)]
        \<and> length (rn_entries rn2) \<le> limit"
      using numbered_snoc [OF _ _ effect(1) _ effect(2)] rn(1) place(4) effect(1)
      by (simp add: numbered_def preempt_entry_def)
  qed
  from place(8) show ?thesis
  proof (elim disjE exE conjE)
    fix g assume "rn' = on_outcome g rn2"
    then show ?thesis using rn2 by (simp add: numbered_def on_outcome_def)
  next
    fix r2 rr2 assume rn': "rn' = grant key r2 rr2 now rn2"
    show ?thesis
    proof (cases "legal_quantum rn2 r2 rr2 now = 0")
      case True
      then show ?thesis using rn2 by (simp add: numbered_def rn' grant_fields)
    next
      case False
      then have "rn_entries rn' = rn_entries rn2 @ [run_entry (rn_impl rn2) (rn_next_ordinal rn2) key (fr_descriptor r2)
          (legal_quantum rn2 r2 rr2 now) now]" "rn_next_ordinal rn' = rn_next_ordinal rn2 + 1"
        by (simp_all add: rn' grant_fields)
      from numbered_snoc [OF rn2(1,2) this(1) _ this(2)] this(1) rn2(3) show ?thesis
        by (simp add: numbered_def run_entry_def)
    qed
  qed
qed

lemma throttled_step:
  assumes rn: "throttled s rn" and wf: "core_wf (rn_impl rn)" and same: "same_setup now s (rn_impl rn)"
    and step: "considered limit now flow rn rn'"
  shows "throttled s rn'"
  using step
proof cases
  case (skip g)
  then show ?thesis using rn by (simp add: throttled_def on_outcome_def)
next
  case (lapse t outcome)
  then show ?thesis using rn by (simp add: throttled_def)
next
  case (place r rr0 key rn2)
  have "throttled s rn2" by (rule throttled_roomed [OF rn wf same place(7)])
  moreover have "preempt_entries (rn_entries (grant key r2 rr2 now rn2)) = preempt_entries (rn_entries rn2)" for r2 rr2
    by (simp add: grant_fields)
  ultimately show ?thesis using place(8) by (auto simp: throttled_def on_outcome_def grant_fields(1))
qed

section \<open>The whole loop\<close>

definition round_inv :: "nat \<Rightarrow> ticks \<Rightarrow> impl \<Rightarrow> flow_id list \<Rightarrow> round \<Rightarrow> bool" where
  "round_inv limit now s seen rn \<longleftrightarrow> legal_round now s seen rn \<and> within_limits now s rn
     \<and> numbered limit rn \<and> throttled s rn"

lemma round_inv_step:
  assumes rn: "round_inv limit now s seen rn" and run: "consider_candidate limit now c rn = (Ok, rn')"
    and new: "fst c \<notin> set seen"
  shows "round_inv limit now s (seen @ [fst c]) rn'"
proof -
  have step: "considered limit now (fst c) rn rn'"
    using run by (intro consider_candidate_considered [of _ _ _ "snd c"]) simp
  have keep: "keeps k (rn_impl rn) (rn_impl rn')" for k
    using keeps_consider_candidate [of k rn limit now c] run by simp
  have legal: "legal_round now s seen rn" "core_wf (rn_impl rn)" "same_setup now s (rn_impl rn)"
    using rn by (simp_all add: round_inv_def legal_round_def)
  show ?thesis
    using rn legal_round_step [OF legal(1) step keep new] within_limits_step [OF legal(1) _ step keep new]
      numbered_step [OF _ legal(2) step] throttled_step [OF _ legal(2,3) step]
    by (simp add: round_inv_def)
qed

lemma round_inv_loop:
  assumes "round_inv limit now s seen rn" "for_each (consider_candidate limit now) cs rn = (Ok, rn')"
    and "distinct (seen @ map fst cs)"
  shows "round_inv limit now s (seen @ map fst cs) rn'"
  using assms
proof (induction cs arbitrary: seen rn)
  case (Cons c cs)
  obtain rn1 where rn1: "consider_candidate limit now c rn = (Ok, rn1)"
      "for_each (consider_candidate limit now) cs rn1 = (Ok, rn')"
    using Cons.prems(2) by (auto simp: and_then_eq)
  have "round_inv limit now s (seen @ [fst c]) rn1"
    using Cons.prems by (intro round_inv_step [OF _ rn1(1)]) auto
  from Cons.IH [OF this rn1(2)] Cons.prems(3) show ?case by simp
qed simp

lemma distinct_ranked:
  assumes "core_wf s"
  shows "distinct (map fst (ranked_candidates now s))"
proof -
  let ?f = "\<lambda>k. case om_find k (im_flows s) of None \<Rightarrow> None
    | Some r \<Rightarrow> if fr_lifecycle r \<noteq> FlowReady then None else Some (k, compute_key s r now)"
  have "map fst (List.map_filter ?f ks) = filter (\<lambda>k. ?f k \<noteq> None) ks" for ks
    by (induction ks) (auto simp: List.map_filter_simps split: option.split)
  moreover have "distinct (im_ready_index s)"
    using assms os_wf_distinct by (auto simp: core_wf_def tables_wf_def index_wf_def)
  ultimately have "distinct (map fst (ready_candidates now s))" by (simp add: ready_candidates_def)
  then show ?thesis by (simp add: ranked_candidates_def distinct_map)
qed

text \<open>The state the loop starts from, and the invariant it ends with.\<close>

definition round_base :: "ticks \<Rightarrow> impl \<Rightarrow> impl" where
  "round_base now s = roll_preemption_window now (fold (mark_starvation now) (im_ready_index s) s)"

lemma round_base_setup: "same_setup now s (round_base now s)"
proof -
  have "same_setup now t (mark_starvation now k t)" for k t
    by (auto simp: mark_starvation_def intro!: same_setup_modify_flow split: option.split)
  then have "same_setup now s (fold (mark_starvation now) (im_ready_index s) s)" by (intro setting.fold_steps)
  moreover have "same_setup now t (roll_preemption_window now t)" for t
    by (rule same_setupI) (simp_all add: roll_preemption_window_def Let_def)
  ultimately show ?thesis unfolding round_base_def by (rule same_setup_trans)
qed

lemma keeps_round_base: "keeps k s (round_base now s)"
proof -
  have "keeps k s (fold (mark_starvation now) (im_ready_index s) s)"
    by (intro keeping.fold_steps keeps_mark_starvation)
  moreover have "same_core t (roll_preemption_window now t)" for t
    by (rule same_coreI) (simp_all add: roll_preemption_window_def Let_def)
  ultimately show ?thesis unfolding round_base_def by (rule keeps_then_same [rotated])
qed

theorem placement_inv:
  assumes wf: "core_wf s" and run: "placement now s outcome = (Ok, rn)"
  shows "round_inv (entry_limit (im_policy s)) now (round_base now s) (map fst (ranked_candidates now s)) rn"
proof -
  let ?base = "round_base now s" and ?limit = "entry_limit (im_policy s)"
  have "core_wf ?base" using wf keeps_round_base [of undefined s now] by (simp add: keeps_def)
  then have "round_inv ?limit now ?base [] (round_start (?base, outcome))"
    by (simp add: round_inv_def legal_round_def within_limits_def numbered_def throttled_def round_start_def)
  moreover have "for_each (consider_candidate ?limit now) (ranked_candidates now s) (round_start (?base, outcome)) = (Ok, rn)"
    using run by (simp add: placement_def Let_def round_base_def)
  ultimately show ?thesis using round_inv_loop [where seen = "[]"] distinct_ranked [OF wf] by fastforce
qed

section \<open>The schedule is issued\<close>

lemma arbitrate_cases:
  assumes "arbitrate now s = (Inr out, t)"
  obtains s1 outcome rn where "im_last_tick s \<le> now" "prepare_round now s = ((Ok, s1), outcome)"
    "placement now s1 outcome = (Ok, rn)" "sc_entries (ao_schedule out) = rn_entries rn"
    "if rn_entries rn = [] then t = finish_round now (rn_impl rn)
     else ao_schedule out = build_schedule (rn_impl rn) (rn_entries rn) now
       \<and> (\<exists>s3. issue_schedule (rn_entries rn) now (rn_impl rn) = (Ok, s3) \<and> t = finish_round now s3)"
proof -
  obtain code1 s1 outcome where 1: "prepare_round now s = ((code1, s1), outcome)" by (metis prod.exhaust)
  obtain code2 rn where 2: "placement now s1 outcome = (code2, rn)" by force
  obtain code3 s3 where 3: "issue_schedule (rn_entries rn) now (rn_impl rn) = (code3, s3)" by force
  have "im_last_tick s \<le> now \<and> code1 = Ok \<and> code2 = Ok \<and> sc_entries (ao_schedule out) = rn_entries rn
    \<and> (if rn_entries rn = [] then t = finish_round now (rn_impl rn)
     else ao_schedule out = build_schedule (rn_impl rn) (rn_entries rn) now
       \<and> code3 = Ok \<and> t = finish_round now s3)"
    using assms unfolding arbitrate_def 1 prod.case 2 3
    by (auto simp: build_schedule_def idle_schedule_def empty_schedule_def Let_def not_less split: if_splits)
  then show ?thesis using 1 2 3 that by (auto split: if_splits)
qed

lemma apply_schedule_entry_other:
  "k \<noteq> se_flow e \<Longrightarrow> om_find k (im_flows (apply_schedule_entry sched e s)) = om_find k (im_flows s)"
  by (simp add: apply_schedule_entry_def place_flow_def charge_resource_def charge_reservation_def
      advance_clock_def Let_def split: option.split)

definition placed :: "schedule \<Rightarrow> schedule_entry \<Rightarrow> flow_runtime \<Rightarrow> bool" where
  "placed sched e r \<longleftrightarrow> fr_lifecycle r = FlowScheduled \<and> fr_scheduled_schedule r = sc_schedule sched
     \<and> fr_scheduled_ordinal r = se_ordinal e"

lemma apply_schedule_entry_placed:
  assumes "se_kind e = KindRun" "om_find (se_flow e) (im_flows s) = Some r" "fr_lifecycle r = FlowReady"
    "fd_generation (fr_descriptor r) = se_flow_generation e"
  shows "\<exists>r'. om_find (se_flow e) (im_flows (apply_schedule_entry sched e s)) = Some r' \<and> placed sched e r'
    \<and> fr_descriptor r' = fr_descriptor r \<and> fr_served_work r' = fr_served_work r"
  using assms
  by (simp add: apply_schedule_entry_def place_flow_def charge_resource_def charge_reservation_def
      advance_clock_def Let_def placed_def)

lemma fold_entries_other:
  assumes "k \<notin> se_flow ` set (run_entries es)"
  shows "om_find k (im_flows (fold (apply_schedule_entry sched) es s)) = om_find k (im_flows s)"
  using assms
proof (induction es arbitrary: s)
  case (Cons e es)
  have "om_find k (im_flows (apply_schedule_entry sched e s)) = om_find k (im_flows s)"
  proof (cases "se_kind e = KindRun")
    case True
    with Cons.prems show ?thesis by (intro apply_schedule_entry_other) (simp add: run_entries_def)
  qed (simp add: apply_schedule_entry_def)
  moreover have "k \<notin> se_flow ` set (run_entries es)" using Cons.prems by (auto simp: run_entries_def)
  ultimately show ?case using Cons.IH by simp
qed simp

lemma fold_entries_placed:
  assumes "distinct (map se_flow (run_entries es))" "e \<in> set (run_entries es)"
    and "om_find (se_flow e) (im_flows s) = Some r" "fr_lifecycle r = FlowReady"
    and "fd_generation (fr_descriptor r) = se_flow_generation e"
  shows "\<exists>r'. om_find (se_flow e) (im_flows (fold (apply_schedule_entry sched) es s)) = Some r' \<and> placed sched e r'
    \<and> fr_descriptor r' = fr_descriptor r \<and> fr_served_work r' = fr_served_work r"
  using assms
proof (induction es arbitrary: s)
  case (Cons x es)
  show ?case
  proof (cases "x = e")
    case True
    then have run: "se_kind e = KindRun" "se_flow e \<notin> se_flow ` set (run_entries es)"
      using Cons.prems(1,2) by (auto simp: run_entries_def split: if_splits)
    from apply_schedule_entry_placed [OF run(1) Cons.prems(3-5), of sched] show ?thesis
      using fold_entries_other [OF run(2)] True by simp
  next
    case False
    then have e: "e \<in> set (run_entries es)" "distinct (map se_flow (run_entries es))"
      using Cons.prems(1,2) by (auto simp: run_entries_def split: if_splits)
    have "om_find (se_flow e) (im_flows (apply_schedule_entry sched x s)) = om_find (se_flow e) (im_flows s)"
    proof (cases "se_kind x = KindRun")
      case True
      then have "se_flow e \<noteq> se_flow x" using Cons.prems(1) e(1) by (auto simp: run_entries_def image_iff)
      then show ?thesis by (rule apply_schedule_entry_other)
    qed (simp add: apply_schedule_entry_def)
    with Cons.IH [OF e(2,1)] Cons.prems(3-5) show ?thesis by simp
  qed
qed simp

lemma retire_loop_flows: "im_flows (retire_loop queue s) = im_flows s"
proof (induction queue arbitrary: s)
  case (Cons i queue)
  have "im_flows (drop_schedule i s) = im_flows s" by (simp add: drop_schedule_def split: option.split)
  then show ?case using Cons.IH by (simp split: option.split)
qed simp

lemma finish_round_scheduled:
  assumes "om_find k (im_flows s) = Some r" "fr_lifecycle r = FlowScheduled"
  shows "om_find k (im_flows (finish_round now s)) = Some r"
  using normalize_settled [OF assms(1)] assms(2)
  by (simp add: finish_round_def maybe_retire_schedules_def retire_loop_flows)

lemma issue_schedule_flows:
  assumes "issue_schedule es now s = (Ok, t)"
  shows "\<exists>u. im_flows u = im_flows s \<and> im_flows t = im_flows (fold (apply_schedule_entry (build_schedule s es now)) es u)"
proof -
  let ?sched = "build_schedule s es now"
  obtain u where "journal RecScheduleIssued (take_record [write_schedule ?sched])
        (s\<lparr>im_provenance_sequence := im_provenance_sequence s + 1\<rparr>) = (Ok, u)"
      and t: "advance_schedule_ids (apply_schedule ?sched u) = (Ok, t)"
    using assms by (auto simp: issue_schedule_def Let_def and_then_eq)
  then have u: "im_flows u = im_flows s" using journal_flows by fastforce
  have "im_flows t = im_flows (apply_schedule ?sched u)"
    using t by (auto simp: advance_schedule_ids_def split: sum.splits)
  moreover have "sc_entries ?sched = es" by (simp add: build_schedule_def Let_def)
  ultimately show ?thesis
    unfolding apply_schedule_def
    by (intro exI conjI) (simp_all add: u)
qed

text \<open>What a round that succeeded did, in terms of the state it started from.\<close>

definition granted_round ::
  "ticks \<Rightarrow> impl \<Rightarrow> arbitration_outcome \<Rightarrow> impl \<Rightarrow> impl \<Rightarrow> round \<Rightarrow> bool" where
  "granted_round now s out t s1 rn \<longleftrightarrow> (\<exists>outcome. prepare_round now s = ((Ok, s1), outcome))
     \<and> core_wf s1 \<and> same_setup now s s1 \<and> same_setup now s (rn_impl rn)
     \<and> round_inv (entry_limit (im_policy s)) now (round_base now s1) (map fst (ranked_candidates now s1)) rn
     \<and> sc_entries (ao_schedule out) = rn_entries rn
     \<and> (\<forall>e. e \<in> set (run_entries (rn_entries rn)) \<longrightarrow>
          (\<exists>r. om_find (se_flow e) (im_flows t) = Some r \<and> placed (ao_schedule out) e r))
     \<and> (\<forall>k. evolves k (rn_impl rn) t)"

theorem arbitrate_grants:
  assumes wf: "core_wf s" and run: "arbitrate now s = (Inr out, t)"
  shows "\<exists>s1 rn. granted_round now s out t s1 rn"
proof -
  obtain s1 outcome rn where r: "prepare_round now s = ((Ok, s1), outcome)" "placement now s1 outcome = (Ok, rn)"
      "sc_entries (ao_schedule out) = rn_entries rn"
    and issue: "if rn_entries rn = [] then t = finish_round now (rn_impl rn)
      else ao_schedule out = build_schedule (rn_impl rn) (rn_entries rn) now
       \<and> (\<exists>s3. issue_schedule (rn_entries rn) now (rn_impl rn) = (Ok, s3) \<and> t = finish_round now s3)"
    using arbitrate_cases [OF run] by metis
  have same1: "same_setup now s s1" by (rule same_setup_prepare_round [OF r(1)])
  have wf1: "core_wf s1" using keeps_prepare_round [OF r(1)] wf by (auto simp: keeps_def)
  have inv: "round_inv (entry_limit (im_policy s)) now (round_base now s1) (map fst (ranked_candidates now s1)) rn"
    using placement_inv [OF wf1 r(2)] same1 by (simp add: same_setup_def)
  have same: "same_setup now s (rn_impl rn)"
    using same_setup_trans [OF same_setup_trans [OF same1 round_base_setup]] inv
    by (auto simp: round_inv_def legal_round_def)
  have "\<exists>r. om_find (se_flow e) (im_flows t) = Some r \<and> placed (ao_schedule out) e r"
    if e: "e \<in> set (run_entries (rn_entries rn))" for e
  proof -
    have "rn_entries rn \<noteq> []" using e by auto
    then obtain s3 where s3: "issue_schedule (rn_entries rn) now (rn_impl rn) = (Ok, s3)" "t = finish_round now s3"
        "ao_schedule out = build_schedule (rn_impl rn) (rn_entries rn) now"
      using issue by auto
    obtain u where u: "im_flows u = im_flows (rn_impl rn)"
      "im_flows s3 = im_flows (fold (apply_schedule_entry (ao_schedule out)) (rn_entries rn) u)"
      using issue_schedule_flows [OF s3(1)] s3(3) by auto
    have "subseq (map se_flow (run_entries (rn_entries rn))) (map fst (ranked_candidates now s1))"
      using inv by (simp add: round_inv_def legal_round_def)
    then have "distinct (map se_flow (run_entries (rn_entries rn)))"
      using distinct_ranked [OF wf1] by (rule subseq_distinct)
    moreover have "entry_legal now (rn_impl rn) e" using inv e by (simp add: round_inv_def legal_round_def)
    ultimately obtain r' where "om_find (se_flow e) (im_flows s3) = Some r'" "placed (ao_schedule out) e r'"
      using fold_entries_placed [OF _ e, of u _ "ao_schedule out"] u by (auto simp: entry_legal_def entry_names_def)
    then show ?thesis using finish_round_scheduled [where k = "se_flow e" and s = s3 and now = now] s3(2) by (auto simp: placed_def)
  qed
  moreover have "keeps k (rn_impl rn) t" for k
    using issue keeps_finish_round keeps_trans [OF keeps_issue keeps_finish_round] by (auto split: if_splits)
  then have "evolves k (rn_impl rn) t" for k
    using inv by (auto simp: keeps_def round_inv_def legal_round_def)
  ultimately show ?thesis using r(1,3) wf1 same1 inv same unfolding granted_round_def by blast
qed

text \<open>What readiness means for the flow.\<close>

lemma derived_readiness_terms:
  assumes "fst (derived_readiness s r now)"
  shows "fd_readiness_signal (fr_descriptor r) \<noteq> 2" "fd_release_tick (fr_descriptor r) \<le> now"
    "fd_auto_ready (fr_descriptor r) \<or> fd_readiness_signal (fr_descriptor r) = 1"
    "dependencies_satisfied s r" "fst (reservation_usable s r now)"
    "has_deadline (fd_deadline_tick (fr_descriptor r)) \<Longrightarrow> now < fd_deadline_tick (fr_descriptor r)"
  using assms by (auto simp: derived_readiness_def Let_def not_less not_le split: if_splits prod.splits)

end
