(* ===== verification/Scenario.thy ===== *)
theory Scenario
  imports Facade
begin

text \<open>
  A concrete run of a volatile scheduler: a resource, a priority and a QoS class and one flow are
  registered, a round is arbitrated and its entry dispatched.  The states are those the operations
  return; the witnesses of the properties are evaluated on them.
\<close>

definition ex_provenance :: provenance where
  "ex_provenance = \<lparr>pv_origin = OriginExternal, pv_sequence = 1, pv_digest = 0\<rparr>"

definition ex_policy :: scheduling_policy where
  "ex_policy = \<lparr>sp_policy = Ident 1, sp_generation = Ident 1, sp_preemption = PreemptStrictPriority,
     sp_deadline_ordering = True, sp_weighted_fairness = True, sp_min_service_guarantee = True,
     sp_strict_deadlines = True, sp_starvation_bound_ticks = 64, sp_deadline_urgency_ticks = 16,
     sp_min_preempt_service = 0, sp_max_preemptions_per_interval = 8,
     sp_preemption_interval_ticks = 64, sp_max_flows = 16, sp_max_resources = 8,
     sp_max_reservations = 8, sp_max_entries_per_schedule = 8, sp_max_quantum = 16,
     sp_default_max_overlap = 1, sp_retained_schedule_history = 16,
     sp_dispatch_delivery_horizon = 32, sp_provenance = ex_provenance\<rparr>"

definition ex_options :: scheduler_options where
  "ex_options = \<lparr>opt_policy = ex_policy, opt_state_directory = [], opt_flush_to_storage = False,
     opt_require_compatible_format = True\<rparr>"

definition ex_resource :: resource_descriptor where
  "ex_resource = \<lparr>res_resource = Ident 1, res_generation = Ident 1, res_capacity = 100,
     res_interval = 10, res_max_overlap = 1, res_provenance = ex_provenance\<rparr>"

definition ex_priority :: priority_class_descriptor where
  "ex_priority = \<lparr>prio_priority = Ident 1, prio_generation = Ident 1, prio_rank = 1,
     prio_weight = 1, prio_provenance = ex_provenance\<rparr>"

definition ex_urgent :: priority_class_descriptor where
  "ex_urgent = \<lparr>prio_priority = Ident 2, prio_generation = Ident 1, prio_rank = 0,
     prio_weight = 1, prio_provenance = ex_provenance\<rparr>"

definition ex_qos :: qos_class_descriptor where
  "ex_qos = \<lparr>qos_qos = Ident 1, qos_generation = Ident 1, qos_preemption_protected = False,
     qos_max_service_per_dispatch = 8, qos_provenance = ex_provenance\<rparr>"

definition ex_flow :: "u64 \<Rightarrow> flow_descriptor" where
  "ex_flow n = \<lparr>fd_flow = Ident n, fd_generation = Ident 1,
     fd_path = \<lparr>bd_id = Ident 1, bd_generation = Ident 1\<rparr>,
     fd_resource = \<lparr>bd_id = Ident 1, bd_generation = Ident 1\<rparr>,
     fd_reservation = \<lparr>bd_id = unbound, bd_generation = unbound\<rparr>,
     fd_priority = \<lparr>bd_id = Ident 1, bd_generation = Ident 1\<rparr>,
     fd_qos = \<lparr>bd_id = Ident 1, bd_generation = Ident 1\<rparr>, fd_fairness_group = Ident 1,
     fd_estimated_work = 4, fd_service_quantum = 4, fd_min_service = 0, fd_min_service_window = 0,
     fd_release_tick = 0, fd_deadline_tick = kNoDeadline, fd_weight = 1, fd_preemptible = True,
     fd_auto_ready = True, fd_readiness_signal = 0, fd_dependencies = [], fd_trace = Ident 1,
     fd_provenance = ex_provenance\<rparr>"

definition ex_entry :: schedule_entry where
  "ex_entry = \<lparr>se_ordinal = 0, se_kind = KindRun, se_flow = Ident 1, se_flow_generation = Ident 1,
     se_attempt = unbound, se_path = Ident 1, se_path_generation = Ident 1, se_resource = Ident 1,
     se_resource_generation = Ident 1, se_reservation = unbound,
     se_reservation_generation = unbound, se_qos = Ident 1, se_qos_generation = Ident 1,
     se_priority = Ident 1, se_priority_generation = Ident 1, se_quantum = 4, se_start_tick = 1,
     se_deadline_tick = kNoDeadline, se_reservation_end = kNoWindowBound, se_tier = kTierNormal,
     se_reason = ReasonSelected, se_detail = lit ''tier 3 priority 1'', se_ordering_digest = 0\<rparr>"

definition ex_schedule :: schedule where
  "ex_schedule = \<lparr>sc_schedule = Ident 1, sc_generation = Ident 1, sc_epoch = Ident 1,
     sc_policy = Ident 1, sc_policy_generation = Ident 1,
     sc_policy_binding = \<lparr>pb_policy = Ident 1, pb_generation = Ident 1, pb_digest = 0\<rparr>, sc_at_tick = 1, sc_entries = [ex_entry],
     sc_digest = 0, sc_provenance = ex_provenance\<rparr>"

definition ex_ticket :: dispatch_ticket where
  "ex_ticket = \<lparr>dt_attempt = Ident 1, dt_epoch = Ident 1, dt_schedule = Ident 1,
     dt_schedule_generation = Ident 1, dt_flow = Ident 1, dt_flow_generation = Ident 1,
     dt_path = Ident 1, dt_path_generation = Ident 1, dt_resource = Ident 1,
     dt_resource_generation = Ident 1, dt_reservation = unbound,
     dt_reservation_generation = unbound, dt_qos = Ident 1, dt_qos_generation = Ident 1,
     dt_priority = Ident 1, dt_priority_generation = Ident 1, dt_policy = Ident 1,
     dt_policy_generation = Ident 1, dt_worker = Ident 7, dt_boot = Ident 9, dt_start_tick = 2,
     dt_deadline_tick = kNoDeadline, dt_reservation_end = kNoWindowBound, dt_quantum = 4,
     dt_state = AttemptOpen, dt_digest = 1\<rparr>"

definition empty_store :: durable_store where
  "empty_store = \<lparr>dk_journal = [], dk_snapshot = None, dk_io = [], ds_flush_to_storage = True,
     ds_last_sequence = 0, ds_valid_bytes = 0, ds_open_tail_truncated = False,
     ds_torn_tail_pending = False\<rparr>"

definition ex_evidence :: completion_evidence where
  "ex_evidence = \<lparr>ce_schedule = Ident 1, ce_schedule_generation = Ident 1, ce_attempt = Ident 1,
     ce_epoch = Ident 1, ce_flow = Ident 1, ce_flow_generation = Ident 1, ce_worker = Ident 7,
     ce_boot = Ident 9, ce_outcome = OutcomeServed, ce_served = 3, ce_effect_code = 0,
     ce_effect_digest = 0, ce_observed_tick = 3, ce_provenance = ex_provenance\<rparr>"

section \<open>The run\<close>

definition ex_start :: impl where
  "ex_start = initialize_volatile (impl_new ex_options)"

definition ex_calls :: "call list" where
  "ex_calls = [RegisterResource ex_resource, RegisterPriorityClass ex_priority,
     RegisterQoSClass ex_qos, AdmitFlow (ex_flow 1)]"

text \<open>A call with the test that identities are left, and a list of calls.\<close>

definition guard_ids :: "bool \<Rightarrow> impl \<Rightarrow> bool \<times> impl" where
  "guard_ids ok s = (ok \<and> ids_left s, s)"

definition serve :: "call \<Rightarrow> bool \<times> impl \<Rightarrow> bool \<times> impl" where
  "serve c os = guard_ids (fst os) (perform c (snd os))"

definition run :: "call list \<Rightarrow> bool \<times> impl" where
  "run calls = fold serve calls (True, ex_start)"

definition ex_admitted :: impl where
  "ex_admitted = snd (run ex_calls)"

definition ex_begin :: call where
  "ex_begin = BeginDispatch (Ident 1) (Ident 1) 0 (Ident 7) (Ident 9) 2"

definition ex_contend :: "call list" where
  "ex_contend = [RegisterPriorityClass ex_urgent,
     AdmitFlow ((ex_flow 2)\<lparr>fd_priority := \<lparr>bd_id = Ident 2, bd_generation = Ident 1\<rparr>\<rparr>)]"

definition ex_running :: impl where
  "ex_running = snd (run (ex_calls @ [Arbitrate 1, ex_begin]))"

definition ex_contended :: impl where
  "ex_contended = snd (run (ex_calls @ [Arbitrate 1, ex_begin] @ ex_contend))"

text \<open>
  For the evaluation of the run the digests, the records given to the absent journal and the texts of
  explanations stay symbolic: no decision of the run depends on them.
\<close>

declare digest64_def [code del] take_record_def [code del] bounded_detail_def [code del]
  lit_def [code del] dec_def [code del] evidence_digest_def [code del] ticket_digest_def [code del]
  compute_schedule_digest_def [code del] digest_of_key_def [code del] digest_of_policy_def [code del]
  write_evidence_def [code del] write_ticket_def [code del] write_schedule_def [code del]
  write_flow_descriptor_def [code del] write_resource_def [code del] write_priority_class_def [code del]
  write_qos_class_def [code del]

text \<open>What the witnesses read of the round and of the state after the dispatch.\<close>

definition observed_entries :: "arbitration_outcome result \<Rightarrow> (decision_kind \<times> flow_id \<times> resource_id \<times> u64) list" where
  "observed_entries res = (case res of Inl _ \<Rightarrow> []
     | Inr out \<Rightarrow> map (\<lambda>e. (se_kind e, se_flow e, se_resource e, se_quantum e)) (sc_entries (ao_schedule out)))"

definition observed_flow :: "flow_id \<times> flow_runtime \<Rightarrow> flow_id \<times> flow_lifecycle \<times> attempt_id \<times> generation" where
  "observed_flow e = (fst e, fr_lifecycle (snd e), fr_open_attempt (snd e),
     fd_generation (fr_descriptor (snd e)))"

definition observed_attempt :: "attempt_id \<times> attempt_runtime \<Rightarrow> attempt_id \<times> attempt_state \<times> flow_id
  \<times> (schedule_id \<times> generation) \<times> (worker_id \<times> boot_id) \<times> u64 \<times> ticks" where
  "observed_attempt e = (fst e, ar_state (snd e), dt_flow (ar_ticket (snd e)),
     (dt_schedule (ar_ticket (snd e)), dt_schedule_generation (ar_ticket (snd e))),
     (dt_worker (ar_ticket (snd e)), dt_boot (ar_ticket (snd e))), dt_quantum (ar_ticket (snd e)),
     dt_deadline_tick (ar_ticket (snd e)))"

definition observed :: "bool \<times> impl \<Rightarrow> (bool \<times> fabric_epoch)
  \<times> (flow_id \<times> flow_lifecycle \<times> attempt_id \<times> generation) list
  \<times> (attempt_id \<times> attempt_state \<times> flow_id \<times> (schedule_id \<times> generation) \<times> (worker_id \<times> boot_id)
      \<times> u64 \<times> ticks) list \<times> (schedule_id \<times> u64) list \<times> bool" where
  "observed os = ((fst os, im_epoch (snd os)), map observed_flow (im_flows (snd os)),
     map observed_attempt (im_attempts (snd os)),
     map (\<lambda>e. (fst e, sr_open_attempts (snd e))) (im_schedules (snd os)), im_store (snd os) = None)"

definition explored_contention where
  "explored_contention os = (fst os, observed_entries (fst (arbitrate 3 (snd os))))"

definition explored_dispatch where
  "explored_dispatch os = (observed os, explored_contention (fold serve ex_contend os))"

definition explored_round where
  "explored_round ok p = (ok, observed_entries (fst p), explored_dispatch (serve ex_begin (guard_ids ok (snd p))))"

lemma ex_explored:
  "explored_round (fst (run ex_calls)) (arbitrate 1 (snd (run ex_calls))) =
    (True, [(KindRun, Ident 1, Ident 1, 4)],
     (((True, Ident 1), [(Ident 1, FlowDispatched, Ident 1, Ident 1)],
       [(Ident 1, AttemptOpen, Ident 1, (Ident 1, Ident 1), (Ident 7, Ident 9), 4, kNoDeadline)],
       [(Ident 1, 1)], True),
      (True, [(KindPreempt, Ident 1, Ident 1, 4), (KindRun, Ident 2, Ident 1, 4)])))"
  by code_simp

text \<open>The evaluation is over.\<close>

declare digest64_def [code] take_record_def [code] bounded_detail_def [code]
  lit_def [code] dec_def [code] evidence_digest_def [code] ticket_digest_def [code]
  compute_schedule_digest_def [code] digest_of_key_def [code] digest_of_policy_def [code]
  write_evidence_def [code] write_ticket_def [code] write_schedule_def [code]
  write_flow_descriptor_def [code] write_resource_def [code] write_priority_class_def [code]
  write_qos_class_def [code]

lemma ex_run_observed:
  "observed (run (ex_calls @ [Arbitrate 1, ex_begin])) =
    ((True, Ident 1), [(Ident 1, FlowDispatched, Ident 1, Ident 1)],
     [(Ident 1, AttemptOpen, Ident 1, (Ident 1, Ident 1), (Ident 7, Ident 9), 4, kNoDeadline)],
     [(Ident 1, 1)], True)"
proof -
  have eq: "run (ex_calls @ [Arbitrate 1, ex_begin])
      = serve ex_begin (guard_ids (fst (run ex_calls)) (snd (arbitrate 1 (snd (run ex_calls)))))"
    by (simp add: run_def serve_def)
  show ?thesis
    using ex_explored unfolding explored_round_def explored_dispatch_def eq prod.inject by (elim conjE) assumption
qed

lemma ex_round:
  "\<exists>out t e. arbitrate 1 ex_admitted = (Inr out, t) \<and> sc_entries (ao_schedule out) = [e]
    \<and> se_kind e = KindRun \<and> se_flow e = Ident 1 \<and> se_resource e = Ident 1 \<and> se_quantum e = 4"
  using ex_explored
  by (cases "arbitrate 1 ex_admitted")
    (auto simp: explored_round_def ex_admitted_def observed_entries_def map_eq_Cons_conv split: sum.splits)

lemma ex_contention:
  "explored_contention (run (ex_calls @ [Arbitrate 1, ex_begin] @ ex_contend))
    = (True, [(KindPreempt, Ident 1, Ident 1, 4), (KindRun, Ident 2, Ident 1, 4)])"
proof -
  have eq: "run (ex_calls @ [Arbitrate 1, ex_begin] @ ex_contend)
      = fold serve ex_contend (serve ex_begin (guard_ids (fst (run ex_calls)) (snd (arbitrate 1 (snd (run ex_calls))))))"
    by (simp add: run_def serve_def)
  show ?thesis
    using ex_explored unfolding explored_round_def explored_dispatch_def eq prod.inject by (elim conjE) assumption
qed

lemma ex_preemption:
  "\<exists>out t e. arbitrate 3 ex_contended = (Inr out, t) \<and> e \<in> set (sc_entries (ao_schedule out))
    \<and> se_kind e = KindPreempt \<and> se_flow e = Ident 1"
  using ex_contention
  by (cases "arbitrate 3 ex_contended")
    (auto simp: explored_contention_def ex_contended_def observed_entries_def map_eq_Cons_conv split: sum.splits)

lemma ex_running_state:
  "\<exists>r rec sr. im_flows ex_running = [(Ident 1, r)] \<and> im_attempts ex_running = [(Ident 1, rec)]
    \<and> im_schedules ex_running = [(Ident 1, sr)]
    \<and> observed_flow (Ident 1, r) = (Ident 1, FlowDispatched, Ident 1, Ident 1)
    \<and> observed_attempt (Ident 1, rec)
      = (Ident 1, AttemptOpen, Ident 1, (Ident 1, Ident 1), (Ident 7, Ident 9), 4, kNoDeadline)
    \<and> sr_open_attempts sr = 1 \<and> im_epoch ex_running = Ident 1 \<and> im_store ex_running = None"
  using ex_run_observed
  by (auto simp: observed_def ex_running_def observed_flow_def observed_attempt_def map_eq_Cons_conv)

lemma ids_left_ex_running: "ids_left ex_running"
proof -
  have "fst (run (ex_calls @ [Arbitrate 1, ex_begin]))" using ex_run_observed by (simp add: observed_def)
  moreover have "run (ex_calls @ [Arbitrate 1, ex_begin]) = serve ex_begin (run (ex_calls @ [Arbitrate 1]))"
    by (simp add: run_def)
  ultimately show ?thesis by (simp add: ex_running_def serve_def guard_ids_def)
qed

end
