(* ===== verification/Runs.thy ===== *)
theory Runs
  imports Reachability Scenario
begin

text \<open>
  The states of the concrete run are reachable, so the properties of reachable states apply to them.
\<close>

lemma reachable_start: "reachable ex_start"
proof -
  have "ex_start = (initialize_volatile (impl_new ex_options))\<lparr>im_store := None\<rparr>"
    by (simp add: ex_start_def initialize_volatile_def impl_new_def)
  also have "reachable \<dots>" by (rule reachable.start)
  finally show ?thesis .
qed

lemma reachable_serve:
  assumes "fst os \<Longrightarrow> reachable (snd os)" "fst (serve c os)"
  shows "reachable (snd (serve c os))"
  using assms unfolding serve_def guard_ids_def fst_conv snd_conv by (intro reachable.call) simp_all

lemma reachable_run:
  assumes "fst (run calls)"
  shows "reachable (snd (run calls))"
proof -
  have "fst (fold serve calls os) \<longrightarrow> reachable (snd (fold serve calls os))"
    if "fst os \<longrightarrow> reachable (snd os)" for os
    using that by (induction calls arbitrary: os) (simp_all add: reachable_serve)
  then show ?thesis using assms reachable_start by (simp add: run_def)
qed

lemma reachable_ex_admitted: "reachable ex_admitted"
  using ex_explored reachable_run [of ex_calls] by (simp add: explored_round_def ex_admitted_def)

lemma reachable_ex_contended: "reachable ex_contended"
  using ex_contention reachable_run [of "ex_calls @ [Arbitrate 1, ex_begin] @ ex_contend"]
  by (simp add: explored_contention_def ex_contended_def)

lemma reachable_ex_running: "reachable ex_running"
  using ex_run_observed reachable_run [of "ex_calls @ [Arbitrate 1, ex_begin]"]
  by (simp add: observed_def ex_running_def)

end
