(* ===== verification/Replay.thy ===== *)
theory Replay
  imports Restart
begin

text \<open>
  The journal as the second copy of the state: a call that answers Ok has appended the record from
  which \<^verbatim>\<open>apply_record\<close> repeats its effect, so that replaying the journal of a scheduler that was only
  configured rebuilds the state it had.  The clock, the store and the recovery report are not
  journalled.
\<close>

section \<open>States that agree on everything the journal carries\<close>

type_synonym ambient = "ticks \<times> durable_store option \<times> recovery_report"

fun moved :: "ambient \<Rightarrow> impl \<Rightarrow> impl" where
  "moved (tick, store, report) s = s\<lparr>im_last_tick := tick, im_store := store, im_recovery := report\<rparr>"

definition alike :: "impl \<Rightarrow> impl \<Rightarrow> bool" where
  "alike s t \<longleftrightarrow> (\<exists>m. t = moved m s)"

declare moved.simps [simp del]

named_theorems moving \<open>the transitions that do not depend on clock, store and report\<close>

lemma moved_moved: "moved m (moved n s) = moved m s"
  by (cases m; cases n) (simp add: moved.simps)

lemma moved_self: "moved (im_last_tick s, im_store s, im_recovery s) s = s"
  by (simp add: moved.simps)

lemma alike_moved [simp]: "alike s (moved m t) = alike s t"
  unfolding alike_def by (metis moved_moved moved_self)

lemma moved_alike [simp]: "alike (moved m s) t = alike s t"
  unfolding alike_def by (metis moved_moved moved_self)

lemma alike_refl [simp, intro]: "alike s s"
  unfolding alike_def by (metis moved_self)

lemma alike_sym: "alike s t \<Longrightarrow> alike t s"
  unfolding alike_def by (metis moved_moved moved_self)

lemma alike_trans [trans]: "alike s t \<Longrightarrow> alike t u \<Longrightarrow> alike s u"
  unfolding alike_def by (metis moved_moved)

lemma updates_moved:
  "t\<lparr>im_store := store\<rparr> = moved (im_last_tick t, store, im_recovery t) t"
  "t\<lparr>im_last_tick := tick\<rparr> = moved (tick, im_store t, im_recovery t) t"
  "t\<lparr>im_recovery := report\<rparr> = moved (im_last_tick t, im_store t, report) t"
  by (simp_all add: moved.simps)

lemma alike_updates [simp]:
  "alike s (t\<lparr>im_store := store\<rparr>) = alike s t" "alike s (t\<lparr>im_last_tick := tick\<rparr>) = alike s t"
  "alike s (t\<lparr>im_recovery := report\<rparr>) = alike s t"
  "alike (t\<lparr>im_store := store\<rparr>) s = alike t s" "alike (t\<lparr>im_last_tick := tick\<rparr>) s = alike t s"
  "alike (t\<lparr>im_recovery := report\<rparr>) s = alike t s"
  by (simp_all only: updates_moved alike_moved moved_alike)

lemma fields_moved [moving]:
  "im_flows (moved m s) = im_flows s" "im_attempts (moved m s) = im_attempts s"
  "im_schedules (moved m s) = im_schedules s" "im_schedule_order (moved m s) = im_schedule_order s"
  "im_schedule_attempts (moved m s) = im_schedule_attempts s"
  "im_policy (moved m s) = im_policy s" "im_epoch (moved m s) = im_epoch s"
  "im_reservations (moved m s) = im_reservations s" "im_resources (moved m s) = im_resources s"
  "im_priority_classes (moved m s) = im_priority_classes s" "im_qos_classes (moved m s) = im_qos_classes s"
  "im_virtual_time (moved m s) = im_virtual_time s" "find_schedule (moved m s) = find_schedule s"
  "current_flow k g (moved m s) = current_flow k g s"
  by (cases m; simp add: moved.simps find_schedule_def fun_eq_iff current_flow_def)+

lemma modify_moved [moving]:
  "modify_flow k f (moved m s) = moved m (modify_flow k f s)"
  "modify_resource r g (moved m s) = moved m (modify_resource r g s)"
  "modify_schedule i h (moved m s) = moved m (modify_schedule i h s)"
  "modify_attempt a p (moved m s) = moved m (modify_attempt a p s)"
  by (cases m; simp add: moved.simps modify_flow_def modify_resource_def modify_schedule_def modify_attempt_def)+

lemma index_moved [moving]:
  "index_insert n k (moved m s) = moved m (index_insert n k s)"
  "index_erase n k (moved m s) = moved m (index_erase n k s)"
  by (cases m; simp add: moved.simps index_insert_def index_erase_def)+

lemma enter_moved [moving]: "enter_lifecycle (moved m s) = enter_lifecycle s"
proof -
  have "stamp_virtual_finish (moved m s) = stamp_virtual_finish s"
    by (simp add: stamp_virtual_finish_def virtual_clock_def moving fun_eq_iff)
  then show ?thesis by (intro ext) (simp only: enter_lifecycle_def)
qed

lemma set_lifecycle_moved [moving]:
  "set_lifecycle k n now (moved m s) = moved m (set_lifecycle k n now s)"
  by (simp add: set_lifecycle_def update_index_def moving split: option.splits)

lemma apply_configuration_moved [moving]:
  "apply_policy p (moved m s) = moved m (apply_policy p s)"
  "apply_resource d (moved m s) = moved m (apply_resource d s)"
  "apply_reservation v (moved m s) = moved m (apply_reservation v s)"
  "apply_retire_reservation i g (moved m s) = moved m (apply_retire_reservation i g s)"
  "apply_priority_class pc (moved m s) = moved m (apply_priority_class pc s)"
  "apply_qos_class q (moved m s) = moved m (apply_qos_class q s)"
  by (cases m; simp add: moved.simps apply_policy_def apply_resource_def apply_reservation_def
      apply_retire_reservation_def apply_priority_class_def apply_qos_class_def Let_def split: option.split)+

lemma apply_flow_moved [moving]:
  "apply_admit d (moved m s) = (fst (apply_admit d s), moved m (snd (apply_admit d s)))"
  "apply_readiness k g signal now (moved m s) = moved m (apply_readiness k g signal now s)"
  "apply_retire_flow k g (moved m s) = moved m (apply_retire_flow k g s)"
  "apply_ambiguity_resolved k g resolution now (moved m s)
   = moved m (apply_ambiguity_resolved k g resolution now s)"
  subgoal by (cases m) (simp add: moved.simps apply_admit_def Let_def)
  subgoal by (simp add: apply_readiness_def moving split: option.split)
  subgoal by (cases m) (simp add: moved.simps apply_retire_flow_def current_flow_def split: option.split)
  subgoal by (simp add: apply_ambiguity_resolved_def moving split: option.split)
  done

lemma release_moved [moving]:
  "release_run_entry i n now (moved m s) = moved m (release_run_entry i n now s)"
  by (simp add: release_run_entry_def reclaim_entry_def release_slot_def Let_def moving
      split: option.split)

lemma fold_moved:
  "(\<And>x s. f x (moved m s) = moved m (f x s)) \<Longrightarrow> fold f xs (moved m s) = moved m (fold f xs s)"
  by (induction xs arbitrary: s) simp_all

lemma apply_release_moved [moving]:
  "apply_release_schedule i now (moved m s) = moved m (apply_release_schedule i now s)"
  by (auto simp: apply_release_schedule_def moving intro!: fold_moved split: option.split)

lemma apply_attempt_moved [moving]:
  "apply_attempt_started a now (moved m s) = moved m (apply_attempt_started a now s)"
  "apply_attempt_closed a st d now (moved m s) = moved m (apply_attempt_closed a st d now s)"
  subgoal by (simp add: apply_attempt_started_def Let_def moving split: option.split)
  subgoal by (simp add: apply_attempt_closed_def Let_def release_open_attempt_def release_slot_def
      settle_flow_def moving split: option.split attempt_state.split)
  done

lemma release_scheduled_moved [moving]:
  "release_scheduled_entry k now (moved m s) = moved m (release_scheduled_entry k now s)"
  by (simp add: release_scheduled_entry_def moving split: option.split)

lemma apply_cancel_moved [moving]: "apply_cancel k g now (moved m s) = moved m (apply_cancel k g now s)"
  by (cases "current_flow k g s") (simp_all add: apply_cancel_def moving)

lemma normalize_moved [moving]:
  "normalize_transient_states now (moved m s) = moved m (normalize_transient_states now s)"
  by (simp add: normalize_transient_states_def moving) (rule fold_moved, simp add: normalize_flow_def moving split: option.split)

lemma reindex_moved [moving]: "reindex_all (moved m s) = moved m (reindex_all s)"
proof -
  have "fold (\<lambda>(k, r :: flow_runtime). index_insert (index_slot (fr_lifecycle r)) k) xs (moved m u)
      = moved m (fold (\<lambda>(k, r). index_insert (index_slot (fr_lifecycle r)) k) xs u)" for xs u
    by (rule fold_moved) (auto simp: moving)
  moreover have "(moved m s)\<lparr>im_waiting_index := [], im_ready_index := [], im_inflight_index := []\<rparr>
      = moved m (s\<lparr>im_waiting_index := [], im_ready_index := [], im_inflight_index := []\<rparr>)"
    by (cases m) (simp add: moved.simps)
  ultimately show ?thesis by (simp only: reindex_all_def fields_moved)
qed

text \<open>The epoch advance also counts in the recovery report.\<close>

lemma alike_fold:
  assumes "\<And>x s t. alike s t \<Longrightarrow> alike (f x s) (f x t)" "alike s t"
  shows "alike (fold f xs s) (fold f xs t)"
  using assms(2) by (induction xs arbitrary: s t) (simp_all add: assms(1))

lemma alike_abandon:
  assumes "alike s t"
  shows "alike (abandon_open_attempts now detail s) (abandon_open_attempts now detail t)"
proof -
  let ?close = "\<lambda>a s. let s' = apply_attempt_closed a AttemptAbandoned detail now s in
      s'\<lparr>im_recovery := (im_recovery s')\<lparr>rp_attempts_abandoned := rp_attempts_abandoned (im_recovery s') + 1\<rparr>\<rparr>"
  obtain m where t: "t = moved m s" using assms by (auto simp: alike_def)
  have step: "alike (?close a u) (?close a v)" if uv: "alike u v" for a u v
  proof -
    obtain m where "v = moved m u" using uv unfolding alike_def by blast
    then show ?thesis by (simp add: Let_def moving)
  qed
  have "alike (fold ?close (open_attempts s) s) (fold ?close (open_attempts t) t)"
    using alike_fold [of ?close, OF step assms] by (simp add: open_attempts_def t moving)
  then obtain m' where "fold ?close (open_attempts t) t = moved m' (fold ?close (open_attempts s) s)"
    by (auto simp: alike_def)
  then show ?thesis
    unfolding abandon_open_attempts_def Let_def
    by (simp add: moving fold_moved)
qed

lemma alike_epoch_advance:
  assumes "alike s t"
  shows "alike (apply_epoch_advance previous nxt reason now s) (apply_epoch_advance previous nxt reason now t)"
proof -
  obtain m where t: "abandon_open_attempts now (lit ''epoch advanced: prior dispatch authority retired'') t
      = moved m (abandon_open_attempts now (lit ''epoch advanced: prior dispatch authority retired'') s)"
    using alike_abandon [OF assms] unfolding alike_def by blast
  define u where "u = abandon_open_attempts now (lit ''epoch advanced: prior dispatch authority retired'') s"
  have retired: "\<exists>m'. reindex_all ((moved m u)\<lparr>im_flows := fs, im_resources := rs, im_recovery := rp\<rparr>)
      = moved m' (reindex_all (u\<lparr>im_flows := fs, im_resources := rs, im_recovery := rp'\<rparr>))" for fs rs rp rp'
  proof -
    obtain tick store c where m: "m = (tick, store, c)" by (cases m)
    have "(moved m u)\<lparr>im_flows := fs, im_resources := rs, im_recovery := rp\<rparr>
        = moved (tick, store, rp) (u\<lparr>im_flows := fs, im_resources := rs, im_recovery := rp'\<rparr>)"
      by (simp add: m moved.simps)
    then show ?thesis unfolding reindex_moved [symmetric] by metis
  qed
  have cleared: "(moved m v)\<lparr>im_schedules := [], im_schedule_attempts := [], im_schedule_order := [],
      im_attempts := [], im_epoch := nxt, im_preemptions_in_window := 0, im_preemption_window_index := 0\<rparr>
    = moved m (v\<lparr>im_schedules := [], im_schedule_attempts := [], im_schedule_order := [],
      im_attempts := [], im_epoch := nxt, im_preemptions_in_window := 0, im_preemption_window_index := 0\<rparr>)" for m v
    by (cases m) (simp add: moved.simps)
  show ?thesis
    unfolding apply_epoch_advance_def Let_def t u_def [symmetric] fields_moved
    using retired cleared by (metis alike_def)
qed

lemma im_last_tick_moved: "im_last_tick (moved m s) = fst m"
  by (cases m) (simp add: moved.simps)

lemma im_store_moved: "im_store (moved m s) = fst (snd m)"
  by (cases m) (simp add: moved.simps)

section \<open>The record of a call repeats the call\<close>

definition repeats :: "journal_record_type \<Rightarrow> bytes \<Rightarrow> impl \<Rightarrow> impl \<Rightarrow> bool" where
  "repeats ty payload s t \<longleftrightarrow> (\<forall>u. alike s u \<longrightarrow>
     (\<exists>v. apply_record ty payload u = (Ok, v) \<and> alike t v \<and> im_last_tick v = im_last_tick u))"

lemma moved_frame:
  "(\<And>m v. f (moved m v) = moved m (f v)) \<Longrightarrow> im_last_tick (f v) = im_last_tick v \<and> im_store (f v) = im_store v"
  by (metis im_store_moved im_last_tick_moved fst_conv snd_conv moved_self)

lemma repeatsI:
  assumes "\<And>m v. f (moved m v) = moved m (f v)" "\<And>v. apply_record ty payload v = (Ok, f v)" "alike (f s) t"
  shows "repeats ty payload s t"
  unfolding repeats_def
proof (intro allI impI exI conjI)
  fix u assume "alike s u"
  then obtain m where "u = moved m s" by (auto simp: alike_def)
  then show "alike t (f u)" using assms(3) by (simp add: assms(1) alike_sym)
  show "im_last_tick (f u) = im_last_tick u" using moved_frame [of f, OF assms(1)] by simp
qed (rule assms(2))

text \<open>A record that holds exactly the fields its reader expects.\<close>

definition recorded :: "'a reader \<Rightarrow> writing list \<Rightarrow> 'a \<Rightarrow> bool" where
  "recorded r parts x \<longleftrightarrow> (\<exists>bs. writes (rw_block parts) bs \<and> length bs \<le> kDefaultLimit \<and> reads r bs x)"

lemma replay_recorded:
  assumes "recorded r parts x"
  shows "replay_fields r f (take_record parts) s = f x s"
proof -
  obtain bs where bs: "writes (rw_block parts) bs" "length bs \<le> kDefaultLimit" "reads r bs x"
    using assms unfolding recorded_def by blast
  then have "r bs = Inr (x, [])" unfolding reads_def by (metis append_Nil2)
  then have "replay_fields r f bs s = f x s"
    by (simp add: replay_fields_def and_then_def check_def split: prod.split)
  from decode_take_record [OF bs(1,2), where decode = "\<lambda>bs. replay_fields r f bs s", OF this] show ?thesis .
qed

lemma recordedI:
  assumes "writes (rw_block parts) bs" "length bs \<le> kDefaultLimit" "\<And>rest. r (bs @ rest) = Inr (x, rest)"
  shows "recorded r parts x"
  using assms unfolding recorded_def reads_def by blast

lemma length_ids [simp]: "length (ids_bytes is) = 8 * length is"
  by (induction "is") (simp_all add: ids_bytes_def)

lemma recorded_descriptors:
  "recorded read_resource [write_resource rd] rd" "recorded read_reservation [write_reservation rv] rv"
  "recorded read_priority_class [write_priority_class pc] pc" "recorded read_qos_class [write_qos_class q] q"
  "recorded read_policy [write_policy p] p"
  "flow_encodable d \<Longrightarrow> recorded read_flow_descriptor [write_flow_descriptor d] d"
  subgoal unfolding write_resource_def
    by (rule recordedI, (rule writes_intros)+) (simp_all add: kDefaultLimit_def read_resource_def)
  subgoal unfolding write_reservation_def
    by (rule recordedI, (rule writes_intros)+) (simp_all add: kDefaultLimit_def read_reservation_def)
  subgoal unfolding write_priority_class_def
    by (rule recordedI, (rule writes_intros)+) (simp_all add: kDefaultLimit_def read_priority_class_def)
  subgoal unfolding write_qos_class_def
    by (rule recordedI, (rule writes_intros)+) (simp_all add: kDefaultLimit_def read_qos_class_def)
  subgoal unfolding write_policy_def
    by (rule recordedI, (rule writes_intros)+) (simp_all add: kDefaultLimit_def read_policy_def)
  subgoal unfolding write_flow_descriptor_def
    by (rule recordedI, (rule writes_intros)+)
      (simp_all add: kDefaultLimit_def read_flow_descriptor_def flow_encodable_def)
  done

lemma rd_codes [simp, codec_simps]:
  "rd_enum epoch_reasons (epoch_reason_code x # rest) = Inr (x, rest)"
  "rd_enum readiness_signals (signal_code y # rest) = Inr (y, rest)"
  "rd_enum ambiguity_resolutions (resolution_code z # rest) = Inr (z, rest)"
  "rd_enum attempt_states (attempt_state_code w # rest) = Inr (w, rest)"
  subgoal by (cases x) (simp_all add: rd_enum_def epoch_reasons_def)
  subgoal by (cases y) (simp_all add: rd_enum_def readiness_signals_def)
  subgoal by (cases z) (simp_all add: rd_enum_def ambiguity_resolutions_def)
  subgoal by (cases w) (simp_all add: rd_enum_def attempt_states_def)
  done

lemma recorded_fields:
  "recorded (rd_pair rd_id rd_id) [rw_id i, rw_id g] (i, g)"
  "recorded (rd_pair rd_id rd_u64) [rw_id i, rw_u64 now] (i, now)"
  "recorded (rd_pair rd_id (rd_pair rd_id (rd_pair (rd_enum epoch_reasons) rd_u64)))
     [rw_id e, rw_id e', rw_u8 (epoch_reason_code reason), rw_u64 now] (e, e', reason, now)"
  "recorded (rd_pair rd_id (rd_pair rd_id (rd_pair (rd_enum readiness_signals) rd_u64)))
     [rw_id i, rw_id g, rw_u8 (signal_code signal), rw_u64 now] (i, g, signal, now)"
  "recorded (rd_pair rd_id (rd_pair rd_id (rd_pair (rd_enum ambiguity_resolutions) rd_u64)))
     [rw_id i, rw_id g, rw_u8 (resolution_code resolution), rw_u64 now] (i, g, resolution, now)"
  by (rule recordedI, (rule writes_intros)+; simp add: kDefaultLimit_def rd_pair_def)+

lemma recorded_closed:
  "recorded (rd_pair rd_id (rd_pair (rd_enum attempt_states) (rd_pair rd_u64 rd_text)))
     [rw_id a, rw_u8 (attempt_state_code st), rw_u64 now, rw_text (bounded_detail d)]
     (a, st, now, bounded_detail d)"
proof -
  have "length (bounded_detail d) \<le> 2048" using bounded_detail_length [of d] by (simp add: kMaxExplanationBytes_def)
  then have "length (bounded_detail d) \<le> 4194279" "length (bounded_detail d) < 2 ^ 64" by simp_all
  then show ?thesis
    by - (rule recordedI, (rule writes_intros)+, simp_all add: kDefaultLimit_def rd_pair_def)
qed

text \<open>A detail that was bounded once is journalled and replayed without further change.\<close>

lemma bounded_detail_loop_closed:
  "length out + 3 \<le> kMaxExplanationBytes \<Longrightarrow> bounded_detail_loop out input =
     out @ map printable (take (kMaxExplanationBytes - 3 - length out) input)
       @ (if length out + length input + 3 \<le> kMaxExplanationBytes then [] else lit ''...'')"
  by (induction out input rule: bounded_detail_loop.induct)
    (auto simp: take_Cons' kMaxExplanationBytes_def)

lemma bounded_detail_closed:
  "bounded_detail input = map printable (take (kMaxExplanationBytes - 3) input)
     @ (if length input + 3 \<le> kMaxExplanationBytes then [] else lit ''...'')"
  using bounded_detail_loop_closed [of "[]" input]
  by (simp add: bounded_detail_def kMaxExplanationBytes_def lit_def)

lemma bounded_detail_idem [simp]: "bounded_detail (bounded_detail d) = bounded_detail d"
proof -
  have "printable (printable b) = printable b" for b by (simp add: printable_def)
  moreover have "length (lit ''...'') = 3" by (simp add: lit_def)
  ultimately show ?thesis
    by (auto simp: bounded_detail_closed kMaxExplanationBytes_def)
qed

section \<open>Calls and the records they append\<close>

text \<open>
  The calls whose record repeats them exactly.  The others append records that leave something out
  (\<^verbatim>\<open>begin_dispatch\<close>, \<^verbatim>\<open>complete\<close>, \<^verbatim>\<open>arbitrate\<close>, \<^verbatim>\<open>update_flow\<close>, \<^verbatim>\<open>release_schedule\<close>, \<^verbatim>\<open>preempt_attempt\<close>) or that
  replay refuses (\<^verbatim>\<open>cancel_flow\<close>).
\<close>

fun configure :: "call \<Rightarrow> impl action option" where
  "configure (RegisterResource d) = Some (register_resource d)"
| "configure (RegisterReservation d) = Some (register_reservation d)"
| "configure (RetireReservation i g) = Some (retire_reservation i g)"
| "configure (RegisterPriorityClass d) = Some (register_priority_class d)"
| "configure (RegisterQoSClass d) = Some (register_qos_class d)"
| "configure (AdmitFlow d) = Some (admit_flow d)"
| "configure (NotifyReadiness i g signal now) = Some (notify_readiness i g signal now)"
| "configure (ResolveAmbiguous i g resolution now) = Some (resolve_ambiguous i g resolution now)"
| "configure (RetireFlow i g) = Some (retire_flow i g)"
| "configure (InstallPolicy p) = Some (install_policy p)"
| "configure (AdvanceEpoch reason) = Some (\<lambda>s. case advance_epoch reason (im_last_tick s) s of
     (Inl e, t) \<Rightarrow> (e, t) | (Inr _, t) \<Rightarrow> (Ok, t))"
| "configure (MarkStarted ticket now) = Some (mark_started ticket now)"
| "configure (AbandonAttempt a reason now) = Some (abandon_attempt a reason now)"
| "configure _ = None"

lemma configure_performs: "configure c = Some f \<Longrightarrow> perform c s = snd (f s)"
  by (cases c rule: configure.cases) (auto split: prod.splits sum.splits)

text \<open>A step of the journal: nothing was appended, or one record that repeats the step.\<close>

definition appended :: "journal_record_type \<Rightarrow> bytes \<Rightarrow> impl \<Rightarrow> impl \<Rightarrow> bool" where
  "appended ty payload s t \<longleftrightarrow> ty \<in> set record_types \<and> (case im_store s of
     None \<Rightarrow> im_store t = None
   | Some st \<Rightarrow> (\<exists>st'. im_store t = Some st' \<and> store_append ty payload st = (Ok, st')))"

definition logs :: "impl \<Rightarrow> impl \<Rightarrow> bool" where
  "logs s t \<longleftrightarrow> im_store t = im_store s \<and> alike s t
     \<or> (\<exists>ty payload. appended ty payload s t \<and> repeats ty payload s t)"

lemma logs_step: "appended ty payload s t \<Longrightarrow> repeats ty payload s t \<Longrightarrow> logs s t"
  by (auto simp: logs_def)

lemma appended_cong:
  "appended ty payload s u \<Longrightarrow> im_store t = im_store u \<Longrightarrow> appended ty payload s t"
  "appended ty payload s u \<Longrightarrow> im_store s' = im_store s \<Longrightarrow> appended ty payload s' u"
  by (auto simp: appended_def split: option.splits)

lemma checkedE:
  assumes "and_then (check c) g s = (Ok, t)"
  obtains "c = Ok" "g s = (Ok, t)"
  using assms by (auto simp: and_then_def check_def split: if_splits)

lemma journalled:
  assumes "journal ty payload s = (Ok, t)" "ty \<in> set record_types"
  shows "appended ty payload s t \<and> alike s t"
  using assms by (auto simp: journal_def appended_def split: option.splits prod.splits)

lemma alike_repeats: "alike s s' \<Longrightarrow> repeats ty payload s' t \<Longrightarrow> repeats ty payload s t"
  unfolding repeats_def using alike_sym alike_trans by blast

text \<open>The common shape of the calls: append the record, then apply the transition it stands for.\<close>

lemma logsI:
  assumes "and_then (journal ty payload) (succeed f) s = (Ok, t)" "ty \<in> set record_types"
    and "\<And>m v. f (moved m v) = moved m (f v)" "\<And>v. apply_record ty payload v = (Ok, f v)"
  shows "logs s t"
proof -
  obtain u where u: "journal ty payload s = (Ok, u)" "t = f u"
    using assms(1) by (auto simp: and_then_eq succeed_def)
  have s: "appended ty payload s u" "alike s u" using journalled [OF u(1) assms(2)] by simp_all
  have "im_store (f u) = im_store u" using moved_frame [of f, OF assms(3)] by simp
  moreover have "repeats ty payload s t"
    using s(2) unfolding alike_def u(2) by (intro repeatsI [OF assms(3,4)]) (metis assms(3) alike_def)
  ultimately show ?thesis using appended_cong(1) [OF s(1)] u(2) by (auto intro: logs_step)
qed

lemma logs_from:
  assumes "alike s s'" "im_store s' = im_store s" "logs s' t"
  shows "logs s t"
proof -
  from assms(3) consider "im_store t = im_store s'" "alike s' t"
    | ty payload where "appended ty payload s' t" "repeats ty payload s' t"
    unfolding logs_def by blast
  then show ?thesis
  proof cases
    case 1
    then show ?thesis using assms(1,2) alike_trans by (auto simp: logs_def)
  next
    case 2
    then show ?thesis using appended_cong(2) alike_repeats [OF assms(1)] assms(2) by (metis logs_step)
  qed
qed

lemma logs_to:
  assumes "logs s t" "alike t t'" "im_store t' = im_store t"
  shows "logs s t'"
proof -
  have "repeats ty payload s t \<Longrightarrow> repeats ty payload s t'" for ty payload
    using assms(2) alike_sym alike_trans unfolding repeats_def by meson
  then show ?thesis
    using assms appended_cong(1) alike_trans unfolding logs_def by metis
qed

lemma observe_tick_alike [simp]:
  "alike s (observe_tick now t) = alike s t" "im_store (observe_tick now s) = im_store s"
  "alike (observe_tick now s) t = alike s t"
  by (simp_all add: observe_tick_def)

lemma logs_observed: "logs (observe_tick now s) t \<Longrightarrow> logs s t"
  by (rule logs_from) simp_all

lemma logs_same: "alike s t \<Longrightarrow> im_store t = im_store s \<Longrightarrow> logs s t"
  by (simp add: logs_def)

lemma record_types_known [simp]:
  "RecPolicyInstalled \<in> set record_types" "RecResourceRegistered \<in> set record_types"
  "RecReservationRegistered \<in> set record_types" "RecReservationRetired \<in> set record_types"
  "RecPriorityClassRegistered \<in> set record_types" "RecQoSClassRegistered \<in> set record_types"
  "RecEpochAdvanced \<in> set record_types" "RecFlowAdmitted \<in> set record_types"
  "RecFlowReadinessChanged \<in> set record_types" "RecFlowRetired \<in> set record_types"
  "RecAttemptStarted \<in> set record_types" "RecAttemptClosed \<in> set record_types"
  "RecAmbiguityResolved \<in> set record_types"
  by (simp_all add: record_types_def)

lemmas run_simps = and_then_eq and_then_def check_def succeed_def
lemmas replayed = replay_recorded [OF recorded_descriptors(1)] replay_recorded [OF recorded_descriptors(2)]
  replay_recorded [OF recorded_descriptors(3)] replay_recorded [OF recorded_descriptors(4)]
  replay_recorded [OF recorded_descriptors(5)] replay_recorded [OF recorded_descriptors(6)]
  replay_recorded [OF recorded_fields(1)] replay_recorded [OF recorded_fields(2)]
  replay_recorded [OF recorded_fields(3)] replay_recorded [OF recorded_fields(4)]
  replay_recorded [OF recorded_fields(5)] replay_recorded [OF recorded_closed]

lemma registration_logs:
  "register_resource rd s = (Ok, t) \<Longrightarrow> logs s t" "register_reservation rv s = (Ok, t) \<Longrightarrow> logs s t"
  "register_priority_class pc s = (Ok, t) \<Longrightarrow> logs s t" "register_qos_class q s = (Ok, t) \<Longrightarrow> logs s t"
  "retire_reservation i g s = (Ok, t) \<Longrightarrow> logs s t" "install_policy p s = (Ok, t) \<Longrightarrow> logs s t"
  subgoal unfolding register_resource_def
    by (elim checkedE) (rule logsI, assumption, simp_all add: replayed run_simps moving)
  subgoal unfolding register_reservation_def
    by (elim checkedE) (rule logsI, assumption, simp_all add: replayed run_simps moving)
  subgoal unfolding register_priority_class_def
    by (elim checkedE) (rule logsI, assumption, simp_all add: replayed run_simps moving)
  subgoal unfolding register_qos_class_def
    by (elim checkedE) (rule logsI, assumption, simp_all add: replayed run_simps moving)
  subgoal unfolding retire_reservation_def
    by (auto simp: replayed succeed_def moving intro: logs_same elim!: logsI split: option.splits if_splits)
  subgoal unfolding install_policy_def
    by (elim checkedE) (rule logsI, assumption, simp_all add: replayed run_simps moving)
  done

lemma flow_call_logs:
  "notify_readiness k g signal now s = (Ok, t) \<Longrightarrow> logs s t"
  "resolve_ambiguous k g resolution now s = (Ok, t) \<Longrightarrow> logs s t"
  "retire_flow k g s = (Ok, t) \<Longrightarrow> logs s t"
  subgoal unfolding notify_readiness_def with_flow_def
    by (rule logs_observed [of now])
      (auto simp: replayed succeed_def moving intro: logs_same elim!: logsI split: option.splits if_splits)
  subgoal unfolding resolve_ambiguous_def with_flow_def
    by (rule logs_observed [of now])
      (auto simp: replayed replay_resolution_def succeed_def moving intro: logs_same elim!: logsI
        split: option.splits if_splits)
  subgoal unfolding retire_flow_def with_flow_def
    by (auto simp: replayed succeed_def moving intro: logs_same elim!: logsI split: option.splits if_splits)
  done

lemma attempt_call_logs:
  "mark_started ticket now s = (Ok, t) \<Longrightarrow> logs s t"
  "abandon_attempt a reason now s = (Ok, t) \<Longrightarrow> logs s t"
  subgoal unfolding mark_started_def Let_def
    by (rule logs_observed [of now])
      (auto simp: replayed succeed_def moving intro: logs_same elim!: logsI split: option.splits if_splits)
  subgoal
  proof (rule logs_observed [of now])
    assume run: "abandon_attempt a reason now s = (Ok, t)"
    let ?close = "\<lambda>s. normalize_transient_states now (apply_attempt_closed a AttemptAbandoned reason now s)"
    have same: "apply_attempt_closed a AttemptAbandoned (bounded_detail reason) now v
        = apply_attempt_closed a AttemptAbandoned reason now v" for v
      by (simp only: apply_attempt_closed_def bounded_detail_idem)
    have "t = observe_tick now s \<or> and_then (journal RecAttemptClosed (take_record [rw_id a,
        rw_u8 (attempt_state_code AttemptAbandoned), rw_u64 now, rw_text (bounded_detail reason)]))
        (succeed ?close) (observe_tick now s) = (Ok, t)"
      using run by (auto simp: abandon_attempt_def Let_def close_attempt_def and_then_eq succeed_def
          split: option.splits if_splits)
    moreover have "apply_record RecAttemptClosed (take_record [rw_id a,
        rw_u8 (attempt_state_code AttemptAbandoned), rw_u64 now, rw_text (bounded_detail reason)]) v = (Ok, ?close v)" for v
      unfolding apply_record.simps replay_closed_def replay_recorded [OF recorded_closed] by (simp add: same succeed_def)
    ultimately show "logs (observe_tick now s) t"
      using logsI [where f = ?close and ty = RecAttemptClosed] by (auto simp: moving intro: logs_same)
  qed
  done

lemma admission_encodable: "validate_flow d = Ok \<Longrightarrow> flow_encodable d"
  by (simp add: flow_encodable_def validate_flow_Ok)

lemma admit_flow_logs:
  assumes "admit_flow d s = (Ok, t)"
  shows "logs s t"
proof -
  obtain u where valid: "validate_flow d = Ok"
    and j: "journal RecFlowAdmitted (take_record [write_flow_descriptor d]) s = (Ok, u)" and t: "apply_admit d u = (Ok, t)"
    using assms unfolding admit_flow_def by (elim checkedE) (auto simp: and_then_eq)
  have u: "appended RecFlowAdmitted (take_record [write_flow_descriptor d]) s u" "alike s u"
    using journalled [OF j] by simp_all
  have frame: "im_last_tick w = im_last_tick v \<and> im_store w = im_store v" if "apply_admit d v = (Ok, w)" for v w
    using that by (auto simp: apply_admit_def Let_def split: if_splits)
  have "repeats RecFlowAdmitted (take_record [write_flow_descriptor d]) u t"
    unfolding repeats_def
  proof (intro allI impI)
    fix v assume "alike u v"
    then obtain m where v: "v = moved m u" by (auto simp: alike_def)
    then have step: "apply_admit d v = (Ok, moved m t)" using t by (simp add: moving)
    then have "apply_record RecFlowAdmitted (take_record [write_flow_descriptor d]) v = (Ok, moved m t)"
      using valid by (simp add: replayed admission_encodable run_simps)
    then show "\<exists>w. apply_record RecFlowAdmitted (take_record [write_flow_descriptor d]) v = (Ok, w) \<and>
        alike t w \<and> im_last_tick w = im_last_tick v"
      using frame [OF step] by auto
  qed
  then show ?thesis
    using logs_step [OF appended_cong(1) [OF u(1)] alike_repeats [OF u(2)]] frame [OF t] by blast
qed

lemma tick_epoch_advance: "im_last_tick (apply_epoch_advance previous nxt reason now s) = im_last_tick s"
  "im_store (apply_epoch_advance previous nxt reason now s) = im_store s"
proof -
  have close: "im_last_tick (fold (\<lambda>a s. let s' = apply_attempt_closed a AttemptAbandoned d now s in
      s'\<lparr>im_recovery := (im_recovery s')\<lparr>rp_attempts_abandoned := rp_attempts_abandoned (im_recovery s') + 1\<rparr>\<rparr>) as v)
      = im_last_tick v \<and> im_store (fold (\<lambda>a s. let s' = apply_attempt_closed a AttemptAbandoned d now s in
      s'\<lparr>im_recovery := (im_recovery s')\<lparr>rp_attempts_abandoned := rp_attempts_abandoned (im_recovery s') + 1\<rparr>\<rparr>) as v)
      = im_store v" for as d v
    using moved_frame [of "apply_attempt_closed _ AttemptAbandoned d now", OF apply_attempt_moved(2)]
    by (induction as arbitrary: v) (simp_all add: Let_def)
  have release: "fold (\<lambda>i. apply_release_schedule i now) xs (moved m v)
      = moved m (fold (\<lambda>i. apply_release_schedule i now) xs v)" for xs m v
    by (rule fold_moved) (rule apply_release_moved)
  have "im_last_tick (abandon_open_attempts now d s) = im_last_tick s
      \<and> im_store (abandon_open_attempts now d s) = im_store s" for d
    using close [of d "open_attempts s" s] moved_frame [of "normalize_transient_states now", OF normalize_moved]
      moved_frame [of "fold (\<lambda>i. apply_release_schedule i now) _", OF release]
    unfolding abandon_open_attempts_def Let_def by simp
  then show "im_last_tick (apply_epoch_advance previous nxt reason now s) = im_last_tick s"
    "im_store (apply_epoch_advance previous nxt reason now s) = im_store s"
    using moved_frame [of reindex_all, OF reindex_moved] by (simp_all add: apply_epoch_advance_def Let_def)
qed

lemma epoch_repeats:
  assumes "alike s u"
  shows "repeats RecEpochAdvanced (take_record [rw_id previous, rw_id nxt, rw_u8 (epoch_reason_code reason),
      rw_u64 now]) s (apply_epoch_advance previous nxt reason now u)"
  unfolding repeats_def apply_record.simps replay_recorded [OF recorded_fields(3)]
  by (auto simp: succeed_def tick_epoch_advance intro!: alike_epoch_advance intro: alike_trans [OF alike_sym [OF assms]])

lemma epoch_logs:
  assumes "journal RecEpochAdvanced (take_record [rw_id previous, rw_id nxt, rw_u8 (epoch_reason_code reason),
      rw_u64 now]) s = (Ok, u)"
  shows "logs s (apply_epoch_advance previous nxt reason now u)"
  using journalled [OF assms] epoch_repeats appended_cong(1) tick_epoch_advance(2)
  by (metis logs_step record_types_known(7))

lemma advance_epoch_logs: "advance_epoch reason now s = (Inr e, t) \<Longrightarrow> logs s t"
  by (rule logs_observed [of now])
    (auto simp: advance_epoch_def Let_def intro: epoch_logs split: sum.splits prod.splits if_splits)

text \<open>A call that is refused leaves everything but the clock and the store as it was.\<close>

lemma journal_alike: "journal ty payload s = (code, t) \<Longrightarrow> alike s t"
  using journal_store by fastforce

lemma refused_step: "and_then (journal ty payload) (succeed f) s = (code, t) \<Longrightarrow> code \<noteq> Ok \<Longrightarrow> alike s t"
  by (auto simp: and_then_eq succeed_def dest: journal_alike)

lemma refused_check:
  "and_then (check c) g s = (code, t) \<Longrightarrow> code \<noteq> Ok \<Longrightarrow> (g s = (code, t) \<Longrightarrow> alike s t) \<Longrightarrow> alike s t"
  by (auto simp: and_then_def check_def split: if_splits)

lemma configuration_refused:
  "register_resource rd s = (code, t) \<Longrightarrow> code \<noteq> Ok \<Longrightarrow> alike s t"
  "register_reservation rv s = (code, t) \<Longrightarrow> code \<noteq> Ok \<Longrightarrow> alike s t"
  "register_priority_class pc s = (code, t) \<Longrightarrow> code \<noteq> Ok \<Longrightarrow> alike s t"
  "register_qos_class q s = (code, t) \<Longrightarrow> code \<noteq> Ok \<Longrightarrow> alike s t"
  "install_policy p s = (code, t) \<Longrightarrow> code \<noteq> Ok \<Longrightarrow> alike s t"
  "retire_reservation i g s = (code, t) \<Longrightarrow> code \<noteq> Ok \<Longrightarrow> alike s t"
  unfolding register_resource_def register_reservation_def register_priority_class_def register_qos_class_def
    install_policy_def retire_reservation_def
  by (erule refused_check | erule (1) refused_step | assumption
      | force split: option.splits if_splits elim: refused_step)+

lemma flow_refused:
  "admit_flow d s = (code, t) \<Longrightarrow> code \<noteq> Ok \<Longrightarrow> alike s t"
  "notify_readiness k g signal now s = (code, t) \<Longrightarrow> code \<noteq> Ok \<Longrightarrow> alike s t"
  "resolve_ambiguous k g resolution now s = (code, t) \<Longrightarrow> code \<noteq> Ok \<Longrightarrow> alike s t"
  "retire_flow k g s = (code, t) \<Longrightarrow> code \<noteq> Ok \<Longrightarrow> alike s t"
  "mark_started ticket now s = (code, t) \<Longrightarrow> code \<noteq> Ok \<Longrightarrow> alike s t"
  "abandon_attempt a reason now s = (code, t) \<Longrightarrow> code \<noteq> Ok \<Longrightarrow> alike s t"
  "advance_epoch r now s = (Inl e, t) \<Longrightarrow> alike s t"
  subgoal unfolding admit_flow_def
    by (erule refused_check | assumption)+
      (auto simp: and_then_eq apply_admit_def Let_def split: if_splits dest: journal_alike)
  subgoal unfolding notify_readiness_def with_flow_def
    by (auto split: option.splits if_splits dest!: refused_step)
  subgoal unfolding resolve_ambiguous_def with_flow_def
    by (auto split: option.splits if_splits dest!: refused_step)
  subgoal unfolding retire_flow_def with_flow_def
    by (auto split: option.splits if_splits dest!: refused_step)
  subgoal unfolding mark_started_def Let_def
    by (auto split: option.splits if_splits dest!: refused_step)
  subgoal unfolding abandon_attempt_def close_attempt_def Let_def
    by (auto simp: and_then_eq succeed_def split: option.splits if_splits dest!: journal_alike)
  subgoal unfolding advance_epoch_def Let_def
    by (auto split: sum.splits prod.splits if_splits dest!: journal_alike)
  done

lemmas calls_refused = configuration_refused flow_refused(1-6)
lemmas calls_logged = registration_logs flow_call_logs attempt_call_logs admit_flow_logs

lemma advance_epoch_reported: "advance_epoch reason now s \<noteq> (Inl Ok, t)"
  by (auto simp: advance_epoch_def Let_def errors_reported split: sum.splits prod.splits if_splits)

lemma call_logs: "configure c = Some f \<Longrightarrow> f s = (Ok, t) \<Longrightarrow> logs s t"
  by (cases c rule: configure.cases)
    (auto dest: calls_logged advance_epoch_logs simp: advance_epoch_reported split: prod.splits sum.splits)

lemma call_refused: "configure c = Some f \<Longrightarrow> f s = (code, t) \<Longrightarrow> code \<noteq> Ok \<Longrightarrow> alike s t"
  by (cases c rule: configure.cases)
    (auto dest: calls_refused flow_refused(7) split: prod.splits sum.splits)

end
