(* ===== verification/Rebuild.thy ===== *)
theory Rebuild
  imports Replay
begin

text \<open>
  Restart from the journal: a scheduler that was only configured is rebuilt by its successor, which
  starts whenever the disk answers; and the one record that no successor can replay.
\<close>

section \<open>Replay of the records a store holds\<close>

lemma store_append_snapshot:
  assumes "store_append ty payload st = (Ok, st')"
  shows "dk_snapshot st' = dk_snapshot st"
proof -
  have flush: "(if ds_flush_to_storage a then flush_to_stable_storage a else io_call a) = (c, b) \<Longrightarrow>
      dk_snapshot b = dk_snapshot a" for a b :: durable_store and c
    by (auto split: if_splits dest!: io_call_frame flush_frame)
  have "and_then discard_torn_tail (append_record ty payload) st = (Ok, st')"
    using assms by (auto simp: store_append_def split: if_split_asm)
  then obtain s1 s2 s3 where 1: "discard_torn_tail st = (Ok, s1)" and 2: "io_call s1 = (Ok, s2)"
    and 3: "write_journal (build_journal_record ty (ds_last_sequence s1 + 1) payload) s2 = (Ok, s3)"
    and 4: "dk_snapshot st' = dk_snapshot s3"
    by (auto simp: append_record_def Let_def and_then_eq succeed_def dest!: flush split del: if_split)
  have "dk_snapshot s1 = dk_snapshot st"
    using 1 by (auto simp: discard_torn_tail_def and_then_eq succeed_def split: if_splits
        dest!: truncate_file_Ok flush_frame)
  with 4 show ?thesis using io_call_frame [OF 2] write_journal_Ok [OF 3] by auto
qed

lemma visit_all_snoc:
  "visit_all visit seq (rs @ [(ty, payload)]) v = and_then (visit_all visit seq rs)
     (visit \<lparr>jv_type = ty, jv_sequence = seq + of_nat (length rs), jv_payload = payload\<rparr>) v"
proof (induction rs arbitrary: seq v)
  case Nil
  then show ?case by (simp add: and_then_def split: prod.split)
next
  case (Cons r rs)
  then show ?case by (cases r) (auto simp: and_then_def ac_simps split: prod.split)
qed

lemma scan_rejected:
  assumes "list_all entry_ok rs" "visit_all visit seq rs v = (code, v')" "code \<noteq> Ok"
  shows "so_status (fst (scan_loop u visit (journal_bytes seq rs @ tail) seq outcome v)) = code"
  using assms
proof (induction rs arbitrary: seq outcome v)
  case (Cons r rs)
  obtain ty payload where r: "r = (ty, payload)" by (cases r)
  have ok: "entry_ok (ty, payload)" using Cons.prems(1) r by simp
  obtain c w where step: "visit \<lparr>jv_type = ty, jv_sequence = seq, jv_payload = payload\<rparr> v = (c, w)" by force
  show ?case
  proof (cases "c = Ok")
    case True
    then have "visit_all visit (seq + 1) rs w = (code, v')" using Cons.prems(2) step by (simp add: r and_then_def)
    with Cons True show ?thesis by (subst scan_loop.simps) (simp add: r scan_step_good [OF ok] step)
  next
    case False
    then have "code = c" using Cons.prems(2) step by (simp add: r and_then_def)
    with False show ?thesis by (subst scan_loop.simps) (simp add: r scan_step_good [OF ok] step)
  qed
qed simp

text \<open>Whatever the disk answers, a replay that succeeds has visited the records the store holds.\<close>

lemma store_replay_ok:
  assumes holds: "store_holds rs st" and run: "store_replay repair visit v st = (Ok, Some report, v1, st')"
  shows "visit_all visit 1 rs v = (Ok, v1) \<and> store_holds rs st' \<and> dk_snapshot st' = dk_snapshot st"
proof -
  obtain tail where disk: "dk_journal st = journal_bytes 1 rs @ tail"
    and tail: "if ds_torn_tail_pending st then torn_tail (1 + of_nat (length rs)) tail else tail = []"
    and rs: "list_all entry_ok rs"
    using holds by (auto simp: store_holds_def)
  have torn: "torn_tail (1 + of_nat (length rs)) tail"
    using tail torn_tail_nil by (simp split: if_splits)
  obtain s1 where s1: "io_call st = (Ok, s1)" using run by (auto simp: store_replay_def split: prod.splits if_splits)
  have frame: "dk_journal s1 = dk_journal st" "store_holds rs s1" "dk_snapshot s1 = dk_snapshot st"
    using io_call_frame [OF s1] holds by (auto simp: store_holds_def)
  obtain v' code where visit: "visit_all visit 1 rs v = (code, v')" by force
  have code: "code = Ok"
  proof (rule ccontr)
    assume "code \<noteq> Ok"
    then show False
      using run scan_rejected [OF rs visit, of True tail scan_start]
      by (auto simp: store_replay_def s1 frame disk scan_journal_def Let_def split: prod.splits if_splits)
  qed
  define out where "out = \<lparr>so_status = Ok, so_stop = (if tail = [] then ScanComplete else ScanTornTail),
      so_records = of_nat (length rs), so_valid_bytes = of_nat (length (journal_bytes 1 rs)),
      so_last_sequence = of_nat (length rs), so_skipped = 0\<rparr>"
  note scan = scan_journal_records [OF rs torn visit [unfolded code], folded out_def]
  have status: "so_status out = Ok" by (simp add: out_def)
  have "v1 = v'" and repair: "and_then (store_repair repair out) io_call s1 = (Ok, st')"
    using run by (auto simp: store_replay_def s1 frame disk scan status Let_def split: prod.splits)
  moreover have "unat (of_nat (length (journal_bytes 1 rs)) :: u64) = length (journal_bytes 1 rs)"
    "unat (of_nat (length rs) :: u64) = length rs"
    using holds by (auto simp: store_holds_def intro: unat_of_nat_of_unat)
  then have "store_holds rs st' \<and> dk_snapshot st' = dk_snapshot s1"
    using repair frame disk
    by (auto simp: out_def store_repair_def and_then_eq succeed_def store_holds_def split: if_splits
        dest!: io_call_frame truncate_file_Ok flush_frame)
  ultimately show ?thesis using visit code frame by simp
qed

lemma store_replay_rejected:
  assumes holds: "store_holds rs st" and visit: "visit_all visit 1 rs v = (code, v')" "code \<noteq> Ok"
    and quiet: "dk_io st = []"
  shows "\<exists>v1 st'. store_replay repair visit v st = (code, None, v1, st')"
proof -
  obtain tail where disk: "dk_journal st = journal_bytes 1 rs @ tail" and rs: "list_all entry_ok rs"
    using holds by (auto simp: store_holds_def)
  show ?thesis
    using scan_rejected [OF rs visit, of True tail scan_start] visit(2)
    by (auto simp: store_replay_def quiet_io quiet disk scan_journal_def split: prod.split)
qed

section \<open>The journal mirrors the state\<close>

definition rebuilds :: "journal_entry list \<Rightarrow> impl \<Rightarrow> impl \<Rightarrow> bool" where
  "rebuilds rs s0 s \<longleftrightarrow> (\<forall>v. alike s0 v \<longrightarrow>
     (\<exists>u. visit_all replay_visitor 1 rs v = (Ok, u) \<and> alike s u \<and> im_last_tick u = im_last_tick v))"

definition mirrored :: "scheduler_options \<Rightarrow> impl \<Rightarrow> bool" where
  "mirrored options s \<longleftrightarrow> (\<exists>st rs. im_store s = Some st \<and> store_holds rs st \<and> dk_snapshot st = None
     \<and> rebuilds rs (impl_new options) s)"

lemma mirroredI:
  "im_store s = Some st \<Longrightarrow> store_holds rs st \<Longrightarrow> dk_snapshot st = None \<Longrightarrow>
   rebuilds rs (impl_new options) s \<Longrightarrow> mirrored options s"
  unfolding mirrored_def by blast

lemma rebuilds_alike: "rebuilds rs s0 s \<Longrightarrow> alike s t \<Longrightarrow> rebuilds rs s0 t"
  unfolding rebuilds_def using alike_sym alike_trans by meson

lemma rebuilds_snoc:
  assumes "rebuilds rs s0 s" "repeats ty payload s t"
  shows "rebuilds (rs @ [(ty, payload)]) s0 t"
  unfolding rebuilds_def
proof (intro allI impI)
  fix v assume "alike s0 v"
  then obtain u where u: "visit_all replay_visitor 1 rs v = (Ok, u)" "alike s u" "im_last_tick u = im_last_tick v"
    using assms(1) unfolding rebuilds_def by blast
  then obtain w where "apply_record ty payload u = (Ok, w)" "alike t w" "im_last_tick w = im_last_tick u"
    using assms(2) unfolding repeats_def by blast
  with u show "\<exists>w. visit_all replay_visitor 1 (rs @ [(ty, payload)]) v = (Ok, w) \<and> alike t w
      \<and> im_last_tick w = im_last_tick v"
    unfolding visit_all_snoc and_then_def by (auto simp: replay_visitor_def)
qed

lemma mirrored_logs:
  assumes "mirrored options s" "logs s t"
  shows "mirrored options t"
proof -
  obtain st rs where s: "im_store s = Some st" "store_holds rs st" "dk_snapshot st = None"
    "rebuilds rs (impl_new options) s"
    using assms(1) unfolding mirrored_def by blast
  from assms(2) consider "im_store t = im_store s" "alike s t"
    | ty payload where "appended ty payload s t" "repeats ty payload s t"
    unfolding logs_def by blast
  then show ?thesis
  proof cases
    case 1
    then show ?thesis using s rebuilds_alike by (auto intro: mirroredI)
  next
    case 2
    obtain st' where st': "im_store t = Some st'" "store_append ty payload st = (Ok, st')" "ty \<in> set record_types"
      using 2(1) s(1) by (auto simp: appended_def)
    have "store_holds (rs @ [(ty, payload)]) st'" "dk_snapshot st' = None"
      using store_append_holds [OF s(2) st'(3,2)] store_append_snapshot [OF st'(2)] s(3) by simp_all
    then show ?thesis using mirroredI [OF st'(1) _ _ rebuilds_snoc [OF s(4) 2(2)]] by blast
  qed
qed

lemma begin_incarnation_logs:
  assumes "begin_incarnation s = (Ok, t)"
  shows "logs s t"
proof -
  define previous where "previous = (if id_valid (im_epoch s) then im_epoch s else Ident 0)"
  obtain nxt u report where j: "journal RecEpochAdvanced (take_record
      [rw_id previous, rw_id nxt, rw_u8 (epoch_reason_code EpochRecovery), rw_u64 (im_last_tick s)]) s = (Ok, u)"
    and t: "t = (apply_epoch_advance previous nxt EpochRecovery (im_last_tick u) u)\<lparr>im_recovery := report\<rparr>"
    using assms unfolding begin_incarnation_def previous_def [symmetric] Let_def
    by (auto simp: and_then_eq errors_reported succeed_def split: sum.splits)
  have "im_last_tick u = im_last_tick s" using journal_store [OF j] by auto
  then have "logs s (apply_epoch_advance previous nxt EpochRecovery (im_last_tick u) u)"
    using epoch_logs j by simp
  then show ?thesis unfolding t by (rule logs_to) simp_all
qed

section \<open>The disk a process leaves\<close>

text \<open>
  The files after the process died: the journal up to the last acknowledged record, then what a
  further append had written, which is any strict prefix of a record.
\<close>

definition left_by :: "durable_store \<Rightarrow> disk \<Rightarrow> bool" where
  "left_by st d \<longleftrightarrow> dk_snapshot d = dk_snapshot st \<and> (\<exists>tail. torn_tail (ds_last_sequence st + 1) tail
     \<and> dk_journal d = take (unat (ds_valid_bytes st)) (dk_journal st) @ tail)"

lemma left_by_holds:
  assumes "left_by st d" "store_holds rs st"
  obtains tail where "list_all entry_ok rs" "torn_tail (1 + of_nat (length rs)) tail"
    "dk_journal d = journal_bytes 1 rs @ tail" "dk_snapshot d = dk_snapshot st"
    "length (journal_bytes 1 rs) < 2 ^ 64" "length rs < 2 ^ 64"
proof -
  have st: "unat (ds_last_sequence st) = length rs" "unat (ds_valid_bytes st) = length (journal_bytes 1 rs)"
    "take (unat (ds_valid_bytes st)) (dk_journal st) = journal_bytes 1 rs" "list_all entry_ok rs"
    using assms(2) by (auto simp: store_holds_def)
  have "ds_last_sequence st = of_nat (length rs)" unfolding st(1) [symmetric] by simp
  moreover have small: "unat (x :: u64) < 2 ^ 64" for x by (rule order_less_le_trans [OF unsigned_less]) simp
  have "length (journal_bytes 1 rs) < 2 ^ 64" "length rs < 2 ^ 64"
    using small [of "ds_valid_bytes st"] small [of "ds_last_sequence st"] unfolding st(1,2) by simp_all
  ultimately show ?thesis
    using assms(1) that st by (auto simp: left_by_def add.commute)
qed

lemma recover_replays:
  assumes mirror: "rebuilds rs (impl_new options) s" and store: "store_holds rs st" "dk_snapshot st = None"
    and run: "recover st (impl_new options) = (Ok, t)"
  shows "\<exists>w. alike s w \<and> im_last_tick w = 0 \<and> begin_incarnation w = (Ok, t) \<and> mirrored options w"
proof -
  let ?s0 = "(impl_new options)\<lparr>im_store := Some st\<rparr>"
  have replay: "replay_journal False st ?s0 = (Ok, t)"
    using run by (simp add: recover_def store_read_snapshot_def store(2))
  then obtain report s1 st1 where r: "store_replay True replay_visitor ?s0 st = (Ok, Some report, s1, st1)"
    and t: "begin_incarnation (note_replay False report st1 (s1\<lparr>im_store := Some st1\<rparr>)) = (Ok, t)"
    by (auto simp: replay_journal_def Let_def errors_reported split: prod.splits option.splits if_splits)
  have visited: "visit_all replay_visitor 1 rs ?s0 = (Ok, s1)" "store_holds rs st1" "dk_snapshot st1 = None"
    using store_replay_ok [OF store(1) r] store(2) by simp_all
  moreover obtain u where "visit_all replay_visitor 1 rs ?s0 = (Ok, u)" "alike s u" "im_last_tick u = im_last_tick ?s0"
    using mirror unfolding rebuilds_def by (metis alike_refl alike_updates(1))
  moreover have "im_last_tick ?s0 = 0" by (simp add: impl_new_def)
  moreover define w where "w = note_replay False report st1 (s1\<lparr>im_store := Some st1\<rparr>)"
  ultimately have "alike s w" "im_last_tick w = 0" "im_store w = Some st1" by (simp_all add: note_replay_def)
  moreover from this have "mirrored options w"
    using visited rebuilds_alike [OF mirror] by (auto intro: mirroredI)
  ultimately show ?thesis using t unfolding w_def by blast
qed

lemma create_recovers:
  "create options d = Inr t \<Longrightarrow> opt_state_directory options \<noteq> [] \<Longrightarrow>
   \<exists>st. store_open (opt_state_directory options) (opt_flush_to_storage options) d = Inr st
     \<and> recover st (impl_new options) = (Ok, t)"
  by (auto simp: create_def initialize_def impl_new_def errors_reported split: if_splits prod.splits sum.splits)

lemma restart_mirrored:
  assumes "rebuilds rs (impl_new options) s" "list_all entry_ok rs" "torn_tail (1 + of_nat (length rs)) tail"
    and "dk_journal d = journal_bytes 1 rs @ tail" "dk_snapshot d = None"
    and "length (journal_bytes 1 rs) < 2 ^ 64" "length rs < 2 ^ 64"
    and "create options d = Inr t" "opt_state_directory options \<noteq> []"
  shows "\<exists>w. alike s w \<and> im_last_tick w = 0 \<and> begin_incarnation w = (Ok, t) \<and> mirrored options t"
proof -
  obtain st where st: "store_open (opt_state_directory options) (opt_flush_to_storage options) d = Inr st"
    "recover st (impl_new options) = (Ok, t)"
    using create_recovers [OF assms(8,9)] by blast
  have "store_holds rs st" "dk_snapshot st = None"
    using store_open_holds [OF assms(2-4,6,7) st(1)] store_open_disk [OF st(1)] assms(5) by simp_all
  from recover_replays [OF assms(1) this st(2)] show ?thesis
    using begin_incarnation_logs mirrored_logs by blast
qed

section \<open>A configured scheduler\<close>

text \<open>
  The states of a durable scheduler on a new directory that was configured by calls that answered
  Ok, or that were refused before their record, and restarted any number of times.
\<close>

inductive configured :: "scheduler_options \<Rightarrow> impl \<Rightarrow> bool" where
  fresh: "create options d = Inr s \<Longrightarrow> opt_state_directory options \<noteq> [] \<Longrightarrow>
     dk_journal d = [] \<Longrightarrow> dk_snapshot d = None \<Longrightarrow> configured options s"
| call: "configured options s \<Longrightarrow> configure c = Some f \<Longrightarrow> f s = (code, t) \<Longrightarrow>
     code = Ok \<or> im_store t = im_store s \<Longrightarrow> configured options t"
| crash: "configured options s \<Longrightarrow> im_store s = Some st \<Longrightarrow> left_by st d \<Longrightarrow>
     create options d = Inr t \<Longrightarrow> configured options t"

lemma configured_started:
  "configured options s \<Longrightarrow> opt_state_directory options \<noteq> [] \<and> validate_policy (opt_policy options) = Ok"
  by (induction rule: configured.induct) (auto simp: create_def split: if_splits)

lemma configured_mirrored: "configured options s \<Longrightarrow> mirrored options s"
proof (induction rule: configured.induct)
  case (fresh options d s)
  have "rebuilds [] (impl_new options) (impl_new options)" by (simp add: rebuilds_def)
  from restart_mirrored [OF this _ torn_tail_nil, of d s] fresh show ?case by auto
next
  case (call options s c f code t)
  have "logs s t"
  proof (cases "code = Ok")
    case True
    with call show ?thesis using call_logs by blast
  next
    case False
    with call show ?thesis using call_refused [of c f s code t] by (auto intro: logs_same)
  qed
  with call.IH show ?case by (rule mirrored_logs)
next
  case (crash options s st d t)
  obtain rs where rs: "store_holds rs st" "dk_snapshot st = None" "rebuilds rs (impl_new options) s"
    using crash.IH crash.hyps(2) by (auto simp: mirrored_def)
  obtain tail where "list_all entry_ok rs" "torn_tail (1 + of_nat (length rs)) tail"
    "dk_journal d = journal_bytes 1 rs @ tail" "dk_snapshot d = dk_snapshot st"
    "length (journal_bytes 1 rs) < 2 ^ 64" "length rs < 2 ^ 64"
    using left_by_holds [OF crash.hyps(3) rs(1)] .
  with restart_mirrored [OF rs(3), of tail d t] rs(2) crash.hyps(4) configured_started [OF crash.hyps(1)]
  show ?case by auto
qed

section \<open>A restart on a quiet disk\<close>

lemma epoch_payload: "length (take_record [rw_id a, rw_id b, rw_u8 c, rw_u64 d]) = 25"
proof -
  have "writes (rw_block [rw_id a, rw_id b, rw_u8 c, rw_u64 d])
      (encode_u64_le (id_value a) @ encode_u64_le (id_value b) @ [c] @ encode_u64_le d @ [])"
    by (rule writes_intros)+
  from writes_buffer(1) [OF this writes_fits [OF this]] show ?thesis
    by (simp add: take_record_def kDefaultLimit_def)
qed

definition incarnation_room :: "durable_store \<Rightarrow> bool" where
  "incarnation_room st \<longleftrightarrow> ds_last_sequence st \<noteq> u64_max
     \<and> unat (ds_valid_bytes st) + journal_record_bytes 25 \<le> kMaxJournalBytes"

lemma incarnation_room_cong:
  assumes "store_holds rs st" "store_holds rs st'" "incarnation_room st"
  shows "incarnation_room st'"
proof -
  have "ds_last_sequence st' = ds_last_sequence st"
    using assms(1,2) unfolding store_holds_def by (metis word_unat_eq_iff)
  then show ?thesis using assms by (simp add: incarnation_room_def store_holds_def)
qed

lemma begin_incarnation_quiet:
  assumes store: "im_store w = Some st" "dk_io st = []" "incarnation_room st"
    and epoch: "id_value (im_epoch w) \<noteq> u64_max"
  shows "\<exists>t p st'. begin_incarnation w = (Ok, t) \<and> alike (apply_epoch_advance (im_epoch w)
    (Ident (id_value (im_epoch w) + 1)) EpochRecovery (im_last_tick w) w) t \<and> im_store t = Some st'
    \<and> dk_io st' = [] \<and> length p = 25 \<and> store_append RecEpochAdvanced p st = (Ok, st')"
proof -
  let ?nxt = "Ident (id_value (im_epoch w) + 1) :: fabric_epoch"
  have previous: "(if id_valid (im_epoch w) then im_epoch w else Ident 0) = im_epoch w"
    by (cases "im_epoch w") (simp add: id_valid_def)
  have nxt: "advance (im_epoch w) = Inr ?nxt"
    using epoch by (simp add: advance_def checked_next_def try_assign_def)
  let ?payload = "take_record [rw_id (im_epoch w), rw_id ?nxt, rw_u8 (epoch_reason_code EpochRecovery), rw_u64 (im_last_tick w)]"
  have "length ?payload \<le> kMaxJournalRecordPayload"
    unfolding epoch_payload by (simp add: kMaxJournalRecordPayload_def)
  then obtain st' where st': "store_append RecEpochAdvanced ?payload st = (Ok, st')" "dk_io st' = []"
    using store_append_quiet [OF store(2), of RecEpochAdvanced ?payload] store(3)
    by (auto simp: incarnation_room_def epoch_payload simp del: epoch_reason_code.simps)
  then have "journal RecEpochAdvanced ?payload w = (Ok, w\<lparr>im_store := Some st'\<rparr>)"
    by (simp add: journal_def store(1))
  then show ?thesis
    unfolding begin_incarnation_def Let_def previous nxt
    by (auto simp: and_then_def succeed_def tick_epoch_advance st' epoch_payload
        intro!: alike_epoch_advance exI [of _ ?payload] simp del: epoch_reason_code.simps)
qed

lemma impl_options: "im_options (impl_new options) = options"
  by (simp add: impl_new_def)

lemma restart_quiet:
  assumes mirror: "rebuilds rs (impl_new options) s" and holds: "store_holds rs st0" "incarnation_room st0"
    and disk: "left_by st0 d" "dk_snapshot d = None" "dk_io d = []"
    and options: "opt_state_directory options \<noteq> []" "validate_policy (opt_policy options) = Ok"
    and epoch: "id_value (im_epoch s) \<noteq> u64_max"
  shows "\<exists>t p st'. create options d = Inr t \<and> alike (apply_epoch_advance (im_epoch s)
    (Ident (id_value (im_epoch s) + 1)) EpochRecovery 0 s) t \<and> im_store t = Some st' \<and> dk_io st' = []
    \<and> length p = 25 \<and> store_holds (rs @ [(RecEpochAdvanced, p)]) st'"
proof -
  obtain tail where rs: "list_all entry_ok rs" "torn_tail (1 + of_nat (length rs)) tail"
    "dk_journal d = journal_bytes 1 rs @ tail" "length (journal_bytes 1 rs) < 2 ^ 64" "length rs < 2 ^ 64"
    using left_by_holds [OF disk(1) holds(1)] by blast
  obtain st where open_: "store_open (opt_state_directory options) (opt_flush_to_storage options) d = Inr st"
    using store_open_quiet [OF rs(1-3) disk(3) options(1)] by blast
  have st: "store_holds rs st" "dk_snapshot st = None" "dk_io st = []"
    using store_open_holds [OF rs open_] store_open_disk [OF open_] disk(2) open_ disk(3)
    by (auto simp: store_open_def Let_def quiet_io and_then_def split: if_splits prod.splits)
  let ?s0 = "(impl_new options)\<lparr>im_store := Some st\<rparr>"
  obtain u where u: "visit_all replay_visitor 1 rs ?s0 = (Ok, u)" "alike s u" "im_last_tick u = im_last_tick ?s0"
    using mirror unfolding rebuilds_def by (metis alike_refl alike_updates(1))
  obtain report st' where r: "store_replay True replay_visitor ?s0 st = (Ok, Some report, u, st')"
    "store_holds rs st'" "dk_io st' = []"
    using store_replay_visits [OF st(1) u(1) st(3)] by blast
  define w where "w = note_replay False report st' (u\<lparr>im_store := Some st'\<rparr>)"
  have "im_last_tick ?s0 = 0" by (simp add: impl_new_def)
  then have w: "alike s w" "im_last_tick w = 0" "im_store w = Some st'"
    using u(2,3) by (simp_all add: w_def note_replay_def)
  moreover have "im_epoch w = im_epoch s" using w(1) by (auto simp: alike_def moving)
  ultimately obtain t p st'' where t: "begin_incarnation w = (Ok, t)" "alike (apply_epoch_advance (im_epoch s)
      (Ident (id_value (im_epoch s) + 1)) EpochRecovery 0 w) t" "im_store t = Some st''" "dk_io st'' = []"
    "length p = 25" "store_append RecEpochAdvanced p st' = (Ok, st'')"
    using begin_incarnation_quiet [OF w(3) r(3) incarnation_room_cong [OF holds(1) r(2) holds(2)]] epoch by auto
  have "create options d = Inr t"
    using t(1) options open_ r(1)
    by (simp add: create_def initialize_def impl_options recover_def store_read_snapshot_def st(2) replay_journal_def w_def)
  moreover have "alike (apply_epoch_advance (im_epoch s) (Ident (id_value (im_epoch s) + 1)) EpochRecovery 0 s) t"
    using alike_trans [OF alike_epoch_advance [OF w(1)] t(2)] .
  moreover have "store_holds (rs @ [(RecEpochAdvanced, p)]) st''"
    using store_append_holds [OF r(2) _ t(6)] by simp
  ultimately show ?thesis using t(3-5) by blast
qed

lemma configured_restarts:
  assumes "configured options s" "im_store s = Some st" "left_by st d" "dk_io d = []" "incarnation_room st"
    and "id_value (im_epoch s) \<noteq> u64_max"
  shows "\<exists>t. create options d = Inr t \<and> alike (apply_epoch_advance (im_epoch s)
    (Ident (id_value (im_epoch s) + 1)) EpochRecovery 0 s) t"
proof -
  obtain rs where rs: "store_holds rs st" "dk_snapshot st = None" "rebuilds rs (impl_new options) s"
    using configured_mirrored [OF assms(1)] assms(2) by (auto simp: mirrored_def)
  have "dk_snapshot d = None" using rs(2) assms(3) by (simp add: left_by_def)
  with configured_started [OF assms(1)] show ?thesis
    using restart_quiet [OF rs(3,1) assms(5,3) _ assms(4)] assms(6) by blast
qed

section \<open>The record of a cancellation\<close>

text \<open>
  \<^verbatim>\<open>cancel_flow\<close> writes the reason behind the three fields that \<^verbatim>\<open>apply_record\<close> reads, so the record
  carries trailing bytes and every replay stops at it.
\<close>

lemma cancel_record_refused:
  "fst (apply_record RecFlowCancelled (take_record
     [rw_id (k :: flow_id), rw_id (g :: generation), rw_u64 now, rw_text (bounded_detail reason)]) u) = CorruptData"
proof -
  let ?d = "bounded_detail reason"
  have w: "writes (rw_block [rw_id k, rw_id g, rw_u64 now, rw_text ?d])
      (encode_u64_le (id_value k) @ encode_u64_le (id_value g) @ encode_u64_le now
        @ (encode_u64_le (of_nat (length ?d)) @ ?d) @ [])"
    by (rule writes_intros)+
  have "length ?d \<le> 2048" using bounded_detail_length [of reason] by (simp add: kMaxExplanationBytes_def)
  moreover have "encode_u64_le x \<noteq> []" for x by (metis length_encode(3) list.size(3) zero_neq_numeral)
  ultimately show ?thesis
    by (intro decode_take_record [OF w, where decode = "\<lambda>bs. fst (apply_record RecFlowCancelled bs u)"])
      (simp_all add: kDefaultLimit_def replay_fields_def rd_pair_def and_then_def succeed_def check_def)
qed

lemma cancellation_appends:
  assumes "cancel_flow k g reason now s = (Ok, t)" "im_store t \<noteq> im_store s" "im_store s = Some st"
  shows "\<exists>st'. im_store t = Some st' \<and> store_append RecFlowCancelled (take_record
     [rw_id k, rw_id g, rw_u64 now, rw_text (bounded_detail reason)]) st = (Ok, st')"
proof -
  let ?payload = "take_record [rw_id k, rw_id g, rw_u64 now, rw_text (bounded_detail reason)]"
  obtain u where u: "journal RecFlowCancelled ?payload (observe_tick now s) = (Ok, u)"
    "t = normalize_transient_states now (apply_cancel k g now u)"
    using assms(1,2) by (auto simp: cancel_flow_def with_flow_def and_then_eq succeed_def split: option.splits if_splits)
  have "im_store t = im_store u"
    unfolding u(2) using moved_frame [of "normalize_transient_states now", OF normalize_moved]
      moved_frame [of "apply_cancel k g now", OF apply_cancel_moved] by simp
  then show ?thesis using u(1) assms(3) by (auto simp: journal_def split: prod.splits)
qed

lemma cancelled_journal_refused:
  assumes "configured options s" "im_store s = Some st" "cancel_flow k g reason now s = (Ok, t)"
    and "im_store t = Some st'" "st' \<noteq> st" "left_by st' d" "dk_io d = []"
  shows "create options d = Inl CorruptData"
proof -
  let ?payload = "take_record [rw_id k, rw_id g, rw_u64 now, rw_text (bounded_detail reason)]"
  let ?entry = "(RecFlowCancelled, ?payload)"
  obtain rs where rs: "store_holds rs st" "dk_snapshot st = None" "rebuilds rs (impl_new options) s"
    using configured_mirrored [OF assms(1)] assms(2) by (auto simp: mirrored_def)
  have app: "store_append RecFlowCancelled ?payload st = (Ok, st')"
    using cancellation_appends [OF assms(3) _ assms(2)] assms(2,4,5) by auto
  have holds: "store_holds (rs @ [?entry]) st'" "dk_snapshot st' = None"
    using store_append_holds [OF rs(1) _ app] store_append_snapshot [OF app] rs(2) by (simp_all add: record_types_def)
  obtain tail where d: "list_all entry_ok (rs @ [?entry])" "torn_tail (1 + of_nat (length (rs @ [?entry]))) tail"
    "dk_journal d = journal_bytes 1 (rs @ [?entry]) @ tail"
    "length (journal_bytes 1 (rs @ [?entry])) < 2 ^ 64" "length (rs @ [?entry]) < 2 ^ 64"
    using left_by_holds [OF assms(6) holds(1)] by blast
  have options: "opt_state_directory options \<noteq> []" "validate_policy (opt_policy options) = Ok"
    using configured_started [OF assms(1)] by simp_all
  obtain st0 where open_: "store_open (opt_state_directory options) (opt_flush_to_storage options) d = Inr st0"
    using store_open_quiet [OF d(1-3) assms(7) options(1)] by blast
  have "dk_snapshot d = None" using assms(6) holds(2) by (simp add: left_by_def)
  then have st0: "store_holds (rs @ [?entry]) st0" "dk_snapshot st0 = None" "dk_io st0 = []"
    using store_open_holds [OF d open_] store_open_disk [OF open_] open_ assms(7)
    by (auto simp: store_open_def Let_def quiet_io and_then_def split: if_splits prod.splits)
  let ?s0 = "(impl_new options)\<lparr>im_store := Some st0\<rparr>"
  obtain u where "visit_all replay_visitor 1 rs ?s0 = (Ok, u)"
    using rs(3) unfolding rebuilds_def by (metis alike_refl alike_updates(1))
  then have "fst (visit_all replay_visitor 1 (rs @ [?entry]) ?s0) = CorruptData"
    unfolding visit_all_snoc and_then_def by (simp add: replay_visitor_def cancel_record_refused del: apply_record.simps)
  then obtain v where "visit_all replay_visitor 1 (rs @ [?entry]) ?s0 = (CorruptData, v)" by (metis prod.collapse)
  from store_replay_rejected [OF st0(1) this _ st0(3), of True] obtain v1 st1 where
    "store_replay True replay_visitor ?s0 st0 = (CorruptData, None, v1, st1)" by auto
  then show ?thesis
    using options open_
    by (simp add: create_def initialize_def impl_options recover_def store_read_snapshot_def st0(2) replay_journal_def)
qed

end
