(* ===== verification/Durability.thy ===== *)
theory Durability
  imports Standing Rebuild
begin

text \<open>
  What survives a restart.  Retiring the old incarnation's authority leaves the configuration and the
  terms and credited work of every flow alone; a restart from a checkpoint therefore brings them all
  back.
\<close>

section \<open>What retiring authority leaves alone\<close>

lemma same_setup_normalize: "same_setup now s (normalize_transient_states tick s)"
  unfolding normalize_transient_states_def normalize_flow_def
  by (intro setting.fold_steps) (auto simp: same_setup_set_lifecycle split: option.split)

lemma same_setup_abandon: "same_setup now s (abandon_open_attempts tick d s)"
proof -
  have close: "same_setup now s (let s' = apply_attempt_closed a AttemptAbandoned d tick s in
      s'\<lparr>im_recovery := (im_recovery s')\<lparr>rp_attempts_abandoned := rp_attempts_abandoned (im_recovery s') + 1\<rparr>\<rparr>)"
    for a s
    unfolding Let_def by (rule same_setup_trans [OF same_setup_attempt_closed], rule same_setupI) simp_all
  show ?thesis
    unfolding abandon_open_attempts_def Let_def [of "fold _ _ _"]
    by (intro same_setup_trans [OF same_setup_trans [OF setting.fold_steps setting.fold_steps]
          same_setup_normalize] close same_setup_release_schedule)
qed

definition same_terms :: "ticks \<Rightarrow> impl \<Rightarrow> impl \<Rightarrow> bool" where
  "same_terms now s t \<longleftrightarrow> im_policy t = im_policy s \<and> im_qos_classes t = im_qos_classes s
     \<and> im_priority_classes t = im_priority_classes s \<and> im_reservations t = im_reservations s
     \<and> flow_terms t = flow_terms s \<and> resource_terms now t = resource_terms now s"

interpretation terms: state_relation "same_terms now" for now
  by unfold_locales (simp_all add: same_terms_def)

lemma same_terms_setup: "same_setup now s t \<Longrightarrow> same_terms now s t"
  by (simp add: same_setup_def same_terms_def)

lemma next_ids_abandon: "next_ids (abandon_open_attempts tick d s) = next_ids s"
proof -
  have close: "next_ids (let s' = apply_attempt_closed a AttemptAbandoned d tick s in
      s'\<lparr>im_recovery := (im_recovery s')\<lparr>rp_attempts_abandoned := rp_attempts_abandoned (im_recovery s') + 1\<rparr>\<rparr>)
      = next_ids s" for a s
    by (simp add: next_ids_def apply_attempt_closed_def settle_flow_def Let_def split: option.split)
  have entry: "next_ids (release_run_entry i n tick s) = next_ids s" for i n s
    by (simp add: next_ids_def release_run_entry_def reclaim_entry_def Let_def split: option.split)
  have folded: "(\<And>x s. next_ids (f x s) = next_ids s) \<Longrightarrow> next_ids (fold f xs s) = next_ids s" for f :: "'x \<Rightarrow> _" and xs s
    by (induction xs arbitrary: s) simp_all
  have release: "next_ids (apply_release_schedule i tick s) = next_ids s" for i s
    unfolding apply_release_schedule_def by (auto intro: folded entry split: option.split)
  show ?thesis
    unfolding abandon_open_attempts_def Let_def [of "fold _ _ _"] next_ids_normalize
    by (simp only: folded [OF release] folded [OF close])
qed

lemma next_ids_epoch: "next_ids (apply_epoch_advance previous nxt reason tick s) = next_ids s"
proof -
  have "next_ids (apply_epoch_advance previous nxt reason tick s)
      = next_ids (abandon_open_attempts tick (lit ''epoch advanced: prior dispatch authority retired'') s)"
    using reindex_frame by (simp add: next_ids_def apply_epoch_advance_def Let_def)
  then show ?thesis by (simp add: next_ids_abandon)
qed

lemma capacity_in_flight [simp]:
  "capacity_remaining (rr\<lparr>rr_in_flight := n\<rparr>) now = capacity_remaining rr now"
  by (simp add: capacity_remaining_def)

lemma same_terms_epoch: "same_terms now s (apply_epoch_advance previous nxt reason tick s)"
proof (rule terms.transitive [OF same_terms_setup [OF same_setup_abandon]])
  show "same_terms now (abandon_open_attempts tick (lit ''epoch advanced: prior dispatch authority retired'') s)
      (apply_epoch_advance previous nxt reason tick s)"
    by (auto simp: same_terms_def apply_epoch_advance_def Let_def flow_terms_def resource_terms_def fun_eq_iff
        om_find_map_values option.map_comp o_def retire_flow_authority_def clear_scheduled_def)
qed

lemma incarnation_terms:
  assumes "begin_incarnation s = (Ok, t)"
  shows "same_terms now s t \<and> fenced t \<and> unat (id_value (im_epoch t)) = unat (id_value (im_epoch s)) + 1
    \<and> next_ids t = next_ids s"
proof -
  obtain store report previous nxt where prev: "id_value previous = id_value (im_epoch s)" "advance previous = Inr nxt"
    and t: "t = (apply_epoch_advance previous nxt EpochRecovery (im_last_tick s)
      (s\<lparr>im_store := store\<rparr>))\<lparr>im_recovery := report\<rparr>"
    using begin_incarnation_effect [OF assms] by blast
  let ?u = "apply_epoch_advance previous nxt EpochRecovery (im_last_tick s) (s\<lparr>im_store := store\<rparr>)"
  have 1: "same_terms now s (s\<lparr>im_store := store\<rparr>)" and 2: "same_terms now ?u t"
    by (simp_all add: t same_terms_def flow_terms_def resource_terms_def fun_eq_iff)
  have "same_terms now s t" by (rule terms.transitive [OF terms.transitive [OF 1 same_terms_epoch] 2])
  moreover have "fenced t" using epoch_advance_fenced [of previous nxt] by (simp add: t fenced_def)
  moreover have "next_ids t = next_ids s"
    using next_ids_epoch [of previous nxt EpochRecovery "im_last_tick s" "s\<lparr>im_store := store\<rparr>"]
    by (simp add: t next_ids_def)
  moreover have "im_epoch t = nxt" by (simp add: t apply_epoch_advance_def Let_def)
  ultimately show ?thesis using prev
    by (cases nxt) (auto simp: advance_def try_assign_eq_Inr checked_next_nat)
qed

lemma restored_terms: "same_terms now s (count_restored (reindex_all (restored s s0)))"
  by (auto simp: same_terms_def count_restored_def restored_def flow_terms_def resource_terms_def fun_eq_iff
      find_durable option.map_comp o_def)

section \<open>Restart from a checkpoint\<close>

lemma restart_terms:
  assumes "checkpoint_disk s d" "restorable s" "create options d = Inr t" "opt_state_directory options \<noteq> []"
  shows "same_terms now s t \<and> fenced t \<and> unat (id_value (im_epoch t)) = unat (id_value (im_epoch s)) + 1
    \<and> next_ids t = next_ids s"
proof -
  obtain s0 u where u: "noted (reindex_all (restored s s0)) u" "begin_incarnation u = (Ok, t)"
    using restart_from_checkpoint [OF assms] by blast
  have "same_terms now s u" "im_epoch u = im_epoch s" "next_ids u = next_ids s"
    using u(1) restored_terms [of now s s0]
    unfolding noted_def same_terms_def count_restored_def flow_terms_def resource_terms_def
    by (auto simp: restored_def next_ids_def)
  then show ?thesis using incarnation_terms [OF u(2), of now] terms.transitive by auto
qed

text \<open>On a disk that answers every call the restart from a checkpoint succeeds.\<close>

lemma checkpoint_restart_quiet:
  assumes disk: "checkpoint_disk s d" "dk_io d = []" and s: "restorable s"
    and options: "opt_state_directory options \<noteq> []" "validate_policy (opt_policy options) = Ok"
    and epoch: "id_value (im_epoch s) \<noteq> u64_max"
  shows "\<exists>t. create options d = Inr t"
proof -
  let ?payload = "encode_state_snapshot s"
  obtain st where open_: "store_open (opt_state_directory options) (opt_flush_to_storage options) d = Inr st"
    using store_open_quiet [of "[]" "[]" d, OF _ torn_tail_nil] disk options(1) by (auto simp: checkpoint_disk_def)
  have st: "store_holds [] st" "dk_snapshot st = Some (build_snapshot_blob ?payload)" "dk_io st = []"
    using open_ disk store_open_holds [of "[]" "[]" d, OF _ torn_tail_nil _ _ _ open_] store_open_disk [OF open_]
    by (auto simp: checkpoint_disk_def store_open_def Let_def quiet_io and_then_def split: if_splits prod.splits)
  have small: "length ?payload \<le> kMaxSnapshotPayload" using disk by (simp add: checkpoint_disk_def)
  then have snap: "store_read_snapshot st = (Inr ?payload, st)"
    using snapshot_roundtrip [OF small]
    by (simp add: store_read_snapshot_def st(2) quiet_io st(3))
      (simp add: build_snapshot_blob_def kSnapshotHeaderBytes_def)
  let ?s0 = "(impl_new options)\<lparr>im_store := Some st\<rparr>"
  let ?s1 = "count_restored (reindex_all (restored s ?s0))"
  let ?s2 = "?s1\<lparr>im_recovery := (im_recovery ?s1)\<lparr>rp_snapshot_records := 1\<rparr>\<rparr>"
  have load: "apply_state_snapshot ?payload ?s0 = (Ok, ?s1)"
    using disk by (intro snapshot_loads [OF s]) (simp add: checkpoint_disk_def)
  obtain report st' where r: "store_replay True replay_visitor ?s2 st = (Ok, Some report, ?s2, st')"
    "store_holds [] st'" "dk_io st' = []"
    using store_replay_visits [OF st(1) _ st(3), of replay_visitor ?s2 ?s2 True] by auto
  define w where "w = note_replay True report st' (?s2\<lparr>im_store := Some st'\<rparr>)"
  have "incarnation_room st'"
    using r(2) by (auto simp: store_holds_def incarnation_room_def unat_u64_max journal_record_bytes_def
        journal_consts kMaxJournalBytes_def)
  moreover have "im_store w = Some st'" "im_epoch w = im_epoch s"
    by (simp_all add: w_def note_replay_def count_restored_def restored_def)
  ultimately obtain t where "begin_incarnation w = (Ok, t)"
    using begin_incarnation_quiet [of w st'] r(3) epoch by auto
  then have "create options d = Inr t"
    using options open_ r(1) load
    by (simp add: create_def initialize_def impl_options recover_def snap replay_journal_def w_def)
  then show ?thesis by blast
qed

end
