(* ===== verification/Reboot.thy ===== *)
theory Reboot
  imports Rebuild Scenario
begin

text \<open>
  A concrete durable run: a scheduler on an empty directory is configured on a disk that answers
  every call.  Its states are followed up to what the journal does not carry.
\<close>

definition ex_durable :: scheduler_options where
  "ex_durable = ex_options\<lparr>opt_state_directory := [100]\<rparr>"

definition empty_disk :: disk where
  "empty_disk = \<lparr>dk_journal = [], dk_snapshot = None, dk_io = []\<rparr>"

section \<open>Appends on a quiet disk\<close>

definition settled :: "nat \<Rightarrow> impl \<Rightarrow> bool" where
  "settled n s \<longleftrightarrow> (\<exists>st rs. im_store s = Some st \<and> dk_io st = [] \<and> store_holds rs st
     \<and> length rs \<le> n \<and> length (journal_bytes 1 rs) \<le> n * 5000)"

lemma settled_room:
  assumes "settled n s" "n \<le> 100"
  shows "\<exists>st. im_store s = Some st \<and> dk_io st = [] \<and> incarnation_room st"
proof -
  obtain st rs where st: "im_store s = Some st" "dk_io st = []" "store_holds rs st"
    "length rs \<le> n" "length (journal_bytes 1 rs) \<le> n * 5000"
    using assms(1) unfolding settled_def by blast
  then have "unat (ds_last_sequence st) \<le> 100" "unat (ds_valid_bytes st) \<le> 500000"
    using assms(2) by (auto simp: store_holds_def)
  then show ?thesis
    using st by (auto simp: incarnation_room_def journal_record_bytes_def journal_consts kMaxJournalBytes_def unat_u64_max)
qed

lemma settled_journal:
  assumes "settled n s" "n \<le> 100" "length payload \<le> 4096" "ty \<in> set record_types" "ty \<noteq> RecUnknown"
  shows "\<exists>t. journal ty payload s = (Ok, t) \<and> settled (n + 1) t \<and> alike s t"
proof -
  obtain st rs where st: "im_store s = Some st" "dk_io st = []" "store_holds rs st"
    "length rs \<le> n" "length (journal_bytes 1 rs) \<le> n * 5000"
    using assms(1) unfolding settled_def by blast
  then have "unat (ds_last_sequence st) \<le> 100" "unat (ds_valid_bytes st) \<le> 500000"
    using assms(2) by (auto simp: store_holds_def)
  then have "ds_last_sequence st \<noteq> u64_max"
    "unat (ds_valid_bytes st) + journal_record_bytes (length payload) \<le> kMaxJournalBytes"
    using assms(3) by (auto simp: journal_record_bytes_def journal_consts kMaxJournalBytes_def unat_u64_max)
  then obtain st' where st': "store_append ty payload st = (Ok, st')" "dk_io st' = []"
    using store_append_quiet [OF st(2) assms(5), of payload] assms(3) by (auto simp: kMaxJournalRecordPayload_def)
  have "store_holds (rs @ [(ty, payload)]) st'" using store_append_holds [OF st(3) assms(4) st'(1)] by simp
  moreover have "length (journal_bytes 1 (rs @ [(ty, payload)])) \<le> (n + 1) * 5000"
    using st(5) assms(3) by (simp add: journal_bytes_append journal_record_bytes_def journal_consts)
  ultimately have "settled (n + 1) (s\<lparr>im_store := Some st'\<rparr>)"
    using st(4) st'(2) unfolding settled_def by (intro exI [of _ st'] exI [of _ "rs @ [(ty, payload)]"]) simp
  then show ?thesis using st(1) st'(1) by (auto simp: journal_def)
qed

lemma settled_step:
  assumes "settled n s" "n \<le> 100" "length payload \<le> 4096" "ty \<in> set record_types" "ty \<noteq> RecUnknown"
    and "\<And>m v. f (moved m v) = moved m (f v)"
  shows "\<exists>t. and_then (journal ty payload) (succeed f) s = (Ok, t) \<and> settled (n + 1) t \<and> alike (f s) t"
proof -
  obtain u where u: "journal ty payload s = (Ok, u)" "settled (n + 1) u" "alike s u"
    using settled_journal [OF assms(1-5)] by blast
  moreover have "im_store (f u) = im_store u" using moved_frame [of f, OF assms(6)] by simp
  moreover have "alike (f s) (f u)" using u(3) assms(6) unfolding alike_def by metis
  ultimately show ?thesis by (auto simp: and_then_def succeed_def settled_def)
qed

lemma record_length:
  "writes (rw_block parts) bs \<Longrightarrow> length bs \<le> 4096 \<Longrightarrow> length (take_record parts) \<le> 4096"
  using writes_fits [of "rw_block parts" bs kDefaultLimit] writes_buffer(1) [of "rw_block parts" bs kDefaultLimit]
  by (simp add: take_record_def kDefaultLimit_def)

lemma record_lengths:
  "length (take_record [write_resource rd]) \<le> 4096" "length (take_record [write_priority_class pc]) \<le> 4096"
  "length (take_record [write_qos_class q]) \<le> 4096"
  "fd_dependencies d = [] \<Longrightarrow> length (take_record [write_flow_descriptor d]) \<le> 4096"
  unfolding write_resource_def write_priority_class_def write_qos_class_def write_flow_descriptor_def
  by (rule record_length, (rule writes_intros)+, simp)+

section \<open>The run\<close>

definition ex_fresh :: impl where
  "ex_fresh = apply_epoch_advance (Ident 0) (Ident 1) EpochRecovery 0 (impl_new ex_durable)"

lemma ex_fresh_fields:
  "im_resources ex_fresh = []" "im_priority_classes ex_fresh = []" "im_qos_classes ex_fresh = []"
  "im_flows ex_fresh = []" "im_policy ex_fresh = ex_policy" "im_epoch ex_fresh = Ident 1"
  "im_reservations ex_fresh = []" "im_attempts ex_fresh = []" "im_schedules ex_fresh = []" "im_virtual_time ex_fresh = []"
  by (simp_all add: ex_fresh_def apply_epoch_advance_def abandon_open_attempts_def open_attempts_def
      normalize_transient_states_def impl_new_def Let_def reindex_all_def ex_durable_def ex_options_def om_keys_def)

lemma ex_started: "\<exists>t. create ex_durable empty_disk = Inr t \<and> configured ex_durable t \<and> settled 1 t \<and> alike ex_fresh t"
proof -
  have valid: "opt_state_directory ex_durable \<noteq> []" "validate_policy (opt_policy ex_durable) = Ok"
    by (simp_all add: ex_durable_def ex_options_def) (code_simp)
  have mirror: "rebuilds [] (impl_new ex_durable) (impl_new ex_durable)" by (simp add: rebuilds_def)
  have store: "store_holds [] empty_store" "incarnation_room empty_store" "left_by empty_store empty_disk"
    "dk_snapshot empty_disk = None" "dk_io empty_disk = []"
    using torn_tail_nil [of 1]
    by (simp_all add: store_holds_def empty_store_def incarnation_room_def left_by_def empty_disk_def
        journal_record_bytes_def journal_consts kMaxJournalBytes_def unat_u64_max)
  have "im_epoch (impl_new ex_durable) = Ident 0" by (simp add: impl_new_def)
  then obtain t p st where t: "create ex_durable empty_disk = Inr t" "alike ex_fresh t" "im_store t = Some st"
    "dk_io st = []" "length p = 25" "store_holds [(RecEpochAdvanced, p)] st"
    using restart_quiet [OF mirror store valid] by (auto simp: ex_fresh_def)
  have "configured ex_durable t"
    by (rule configured.fresh [OF t(1) valid(1)]) (simp_all add: empty_disk_def)
  moreover have "settled 1 t"
    unfolding settled_def using t(3-6)
    by (intro exI [of _ st] exI [of _ "[(RecEpochAdvanced, p)]"]) (simp add: journal_record_bytes_def journal_consts)
  ultimately show ?thesis using t(1,2) by blast
qed

lemma ex_booted: "\<exists>s. configured ex_durable s \<and> settled 1 s \<and> alike ex_fresh s"
  using ex_started by blast

lemma alike_lookup:
  assumes "alike m s"
  shows "im_resources s = im_resources m" "im_priority_classes s = im_priority_classes m"
    "im_qos_classes s = im_qos_classes m" "im_flows s = im_flows m" "im_policy s = im_policy m"
    "im_reservations s = im_reservations m" "im_epoch s = im_epoch m"
  using assms by (auto simp: alike_def moving)

lemma configured_ok:
  "configured options s \<Longrightarrow> configure c = Some f \<Longrightarrow> f s = (Ok, t) \<Longrightarrow> configured options t"
  using configured.call by blast

definition ex_classes :: impl where
  "ex_classes = apply_qos_class ex_qos (apply_priority_class ex_priority (apply_resource ex_resource ex_fresh))"

lemma ex_descriptors_valid:
  "validate_resource ex_resource = Ok" "validate_priority ex_priority = Ok" "validate_qos ex_qos = Ok"
  "validate_flow (ex_flow 1) = Ok"
  by code_simp+

lemma check_passed: "c = Ok \<Longrightarrow> and_then (check c) g s = g s"
  by (simp add: and_then_def check_def)

lemma settled_resource:
  assumes "settled n s" "n \<le> 100" "validate_resource d = Ok" "om_find (res_resource d) (im_resources s) = None"
    and "length (im_resources s) < unat (sp_max_resources (im_policy s))" "id_value (res_generation d) = 1" "m = n + 1"
  shows "\<exists>t. register_resource d s = (Ok, t) \<and> settled m t \<and> alike (apply_resource d s) t"
  unfolding register_resource_def using assms(3-7)
  by (simp add: check_passed generation_step_def)
    (rule settled_step [OF assms(1,2) record_lengths(1), simplified]; simp add: moving)

lemma settled_priority:
  assumes "settled n s" "n \<le> 100" "validate_priority d = Ok" "im_priority_classes s = []" "id_value (prio_generation d) = 1" "m = n + 1"
  shows "\<exists>t. register_priority_class d s = (Ok, t) \<and> settled m t \<and> alike (apply_priority_class d s) t"
  unfolding register_priority_class_def using assms(3-6)
  by (simp add: check_passed generation_step_def kMaxPriorityClasses_def)
    (rule settled_step [OF assms(1,2) record_lengths(2), simplified]; simp add: moving)

lemma settled_qos:
  assumes "settled n s" "n \<le> 100" "validate_qos d = Ok" "im_qos_classes s = []" "id_value (qos_generation d) = 1" "m = n + 1"
  shows "\<exists>t. register_qos_class d s = (Ok, t) \<and> settled m t \<and> alike (apply_qos_class d s) t"
  unfolding register_qos_class_def using assms(3-6)
  by (simp add: check_passed generation_step_def kMaxQoSClasses_def)
    (rule settled_step [OF assms(1,2) record_lengths(3), simplified]; simp add: moving)

lemma alike_cong:
  "alike (f s) t \<Longrightarrow> alike m s \<Longrightarrow> (\<And>m v. f (moved m v) = moved m (f v)) \<Longrightarrow> alike (f m) t"
  by (metis alike_def moved_moved)

lemma ex_registered:
  "\<exists>s t. configured ex_durable s \<and> settled 1 s \<and> register_resource ex_resource s = (Ok, t) \<and> settled 2 t
     \<and> alike (apply_resource ex_resource ex_fresh) t"
proof -
  obtain s where s: "configured ex_durable s" "settled 1 s" "alike ex_fresh s" using ex_booted by blast
  have room: "0 < unat (sp_max_resources ex_policy)" by code_simp
  obtain t where t: "register_resource ex_resource s = (Ok, t)" "settled 2 t" "alike (apply_resource ex_resource s) t"
    using settled_resource [OF s(2) _ ex_descriptors_valid(1), where m = 2]
    by (auto simp: room alike_lookup [OF s(3)] ex_fresh_fields ex_resource_def [THEN arg_cong, of res_generation])
  with s alike_cong [OF t(3) s(3) apply_configuration_moved(2)] show ?thesis by blast
qed

lemma ex_classed: "\<exists>s. configured ex_durable s \<and> settled 4 s \<and> alike ex_classes s"
proof -
  obtain s0 s1 where s0: "configured ex_durable s0" "register_resource ex_resource s0 = (Ok, s1)"
    and s1: "settled 2 s1" and a1: "alike (apply_resource ex_resource ex_fresh) s1"
    using ex_registered by blast
  obtain s2 where s2: "register_priority_class ex_priority s1 = (Ok, s2)" "settled 3 s2"
      "alike (apply_priority_class ex_priority s1) s2"
    using settled_priority [OF s1 _ ex_descriptors_valid(2), where m = 3] 
    by (auto simp: alike_lookup [OF a1] apply_resource_def Let_def ex_fresh_fields ex_priority_def [THEN arg_cong, of prio_generation])
  note a2 = alike_cong [OF s2(3) a1 apply_configuration_moved(5)]
  obtain s3 where s3: "register_qos_class ex_qos s2 = (Ok, s3)" "settled 4 s3" "alike (apply_qos_class ex_qos s2) s3"
    using settled_qos [OF s2(2) _ ex_descriptors_valid(3), where m = 4]
    by (auto simp: alike_lookup [OF a2] apply_resource_def apply_priority_class_def Let_def ex_fresh_fields
        ex_qos_def [THEN arg_cong, of qos_generation])
  have "configured ex_durable s3"
    by (rule configured_ok [OF configured_ok [OF configured_ok [OF s0(1) configure.simps(1) s0(2)]
        configure.simps(4) s2(1)] configure.simps(5) s3(1)])
  moreover have "alike ex_classes s3"
    unfolding ex_classes_def by (rule alike_cong [OF s3(3) a2 apply_configuration_moved(6)])
  ultimately show ?thesis using s3(2) by blast
qed

definition ex_ready :: impl where
  "ex_ready = snd (apply_admit (ex_flow 1) ex_classes)"

lemma ex_configured: "\<exists>s. configured ex_durable s \<and> settled 5 s \<and> alike ex_ready s"
proof -
  obtain s where s: "configured ex_durable s" "settled 4 s" "alike ex_classes s" using ex_classed by blast
  let ?d = "ex_flow 1"
  have classes: "im_flows ex_classes = []" "im_policy ex_classes = ex_policy"
    "check_resource_binding ?d ex_classes = Ok" "check_class_bindings ?d ex_classes = Ok"
    "check_reservation_binding ?d ex_classes = Ok"
    by (simp_all add: ex_classes_def apply_qos_class_def apply_priority_class_def apply_resource_def Let_def
        ex_fresh_fields check_resource_binding_def check_class_bindings_def check_reservation_binding_def
        ex_flow_def ex_resource_def ex_priority_def ex_qos_def bound_def id_valid_def)
  have same: "check_resource_binding ?d s = check_resource_binding ?d ex_classes"
    "check_class_bindings ?d s = check_class_bindings ?d ex_classes"
    "check_reservation_binding ?d s = check_reservation_binding ?d ex_classes"
    unfolding check_resource_binding_def check_class_bindings_def check_reservation_binding_def alike_lookup [OF s(3)]
    by simp_all
  obtain u where u: "journal RecFlowAdmitted (take_record [write_flow_descriptor ?d]) s = (Ok, u)"
    "settled (4 + 1) u" "alike s u"
    using settled_journal [OF s(2) _ record_lengths(4), of ?d RecFlowAdmitted] by (auto simp: ex_flow_def)
  have room: "0 < unat (sp_max_flows ex_policy)" by code_simp
  obtain m where m: "u = moved m ex_classes" using alike_trans [OF s(3) u(3)] by (auto simp: alike_def)
  have "apply_admit ?d ex_classes = (Ok, ex_ready)"
    by (simp add: ex_ready_def apply_admit_def classes room)
  then have t: "apply_admit ?d u = (Ok, moved m ex_ready)" unfolding m by (simp add: moving)
  have run: "admit_flow ?d s = (Ok, moved m ex_ready)"
    using u(1) t ex_descriptors_valid(4)
    by (simp add: admit_flow_def check_passed same classes alike_lookup [OF s(3)] and_then_def)
  moreover have "im_store (moved m ex_ready) = im_store u" by (simp add: m im_store_moved)
  then have "settled 5 (moved m ex_ready)" using u(2) by (simp add: settled_def)
  ultimately show ?thesis using configured_ok [OF s(1) configure.simps(6) run] by (metis alike_moved alike_refl)
qed

lemma ex_ready_tables:
  "im_resources ex_ready = [(Ident 1, \<lparr>rr_descriptor = ex_resource, rr_interval_index = 0,
     rr_interval_initialized = False, rr_reserved_this_interval = 0, rr_in_flight = 0\<rparr>)]"
  "im_reservations ex_ready = []" "im_priority_classes ex_ready = [(Ident 1, ex_priority)]"
  "im_qos_classes ex_ready = [(Ident 1, ex_qos)]" "im_flows ex_ready = [(Ident 1, admitted_flow (ex_flow 1) 0)]"
  "im_attempts ex_ready = []" "im_schedules ex_ready = []" "im_virtual_time ex_ready = []"
  "im_policy ex_ready = ex_policy" "im_epoch ex_ready = Ident 1"
  by (simp_all add: ex_ready_def apply_admit_def ex_classes_def apply_qos_class_def apply_priority_class_def
      apply_resource_def Let_def ex_fresh_fields ex_qos_def ex_priority_def ex_resource_def ex_flow_def ex_policy_def)

lemma writes_table:
  "writes (write_table f []) (encode_u64_le 0)"
  "writes (f x) bs \<Longrightarrow> writes (write_table f [x]) (encode_u64_le 1 @ bs)"
  using writes_seq [OF writes_u64 [of 0] writes_skip] writes_seq [OF writes_u64 [of 1] writes_seq [OF _ writes_skip]]
  by (simp_all add: write_table_def)

lemma ex_ready_image:
  "encode_state_snapshot ex_ready \<noteq> [] \<and> length (encode_state_snapshot ex_ready) \<le> kMaxSnapshotPayload"
proof -
  have "\<exists>bs. writes (write_state ex_ready) bs \<and> bs \<noteq> [] \<and> length bs \<le> 4096"
    unfolding write_state_def ex_ready_tables om_values_def list.map snd_conv write_resource_runtime_def
      write_flow_runtime_def write_resource_def write_priority_class_def write_qos_class_def write_policy_def
      write_flow_descriptor_def write_accounting_def
    by (rule exI, rule conjI, (rule writes_table writes_intros)+) (simp add: ex_flow_def admitted_flow_def)
  then obtain bs where bs: "writes (write_state ex_ready) bs" "bs \<noteq> []" "length bs \<le> 4096" by blast
  then have "length bs \<le> kMaxSnapshotPayload" by (simp add: kMaxSnapshotPayload_def)
  note fits = writes_fits [OF bs(1) this]
  show ?thesis
    using writes_buffer [OF bs(1) fits] fits bs(2) by (simp add: encode_state_snapshot_def Let_def)
qed

lemma ex_ready_restorable: "restorable ex_ready"
proof -
  have "validate_policy ex_policy = Ok" "Suc 0 \<le> unat (sp_max_resources ex_policy)" "Suc 0 \<le> unat (sp_max_flows ex_policy)"
    "Suc 0 \<le> unat kMaxPriorityClasses" "Suc 0 \<le> unat kMaxQoSClasses"
    by code_simp+
  then show ?thesis
    by (simp add: restorable_def ex_ready_tables keyed_def om_wf_def om_keys_def om_values_def admitted_flow_def
        ex_resource_def ex_priority_def ex_qos_def ex_flow_def flow_encodable_def)
qed

section \<open>The files after a crash\<close>

lemma left_by_self:
  "left_by st \<lparr>dk_journal = take (unat (ds_valid_bytes st)) (dk_journal st),
     dk_snapshot = dk_snapshot st, dk_io = []\<rparr>"
  using torn_tail_nil by (auto simp: left_by_def)

lemma ex_crashed:
  "\<exists>s st d. configured ex_durable s \<and> im_store s = Some st \<and> left_by st d \<and> dk_io d = []
     \<and> incarnation_room st \<and> alike ex_ready s"
proof -
  obtain s where s: "configured ex_durable s" "settled 5 s" "alike ex_ready s" using ex_configured by blast
  then obtain st where st: "im_store s = Some st" "incarnation_room st" using settled_room by force
  have "left_by st \<lparr>dk_journal = take (unat (ds_valid_bytes st)) (dk_journal st),
     dk_snapshot = dk_snapshot st, dk_io = []\<rparr>" by (rule left_by_self)
  then show ?thesis using s st by (metis disk.select_convs(3))
qed

lemma ex_cancelled:
  "\<exists>s st t st' d. configured ex_durable s \<and> im_store s = Some st \<and>
     cancel_flow (Ident 1) (Ident 1) [] 0 s = (Ok, t) \<and> im_store t = Some st' \<and> st' \<noteq> st \<and> left_by st' d \<and> dk_io d = []"
proof -
  obtain s where s: "configured ex_durable s" "settled 5 s" "alike ex_ready s" using ex_configured by blast
  then obtain st rs where st: "im_store s = Some st" "dk_io st = []" "store_holds rs st"
    "length rs \<le> 5" "length (journal_bytes 1 rs) \<le> 5 * 5000" by (auto simp: settled_def)
  let ?payload = "take_record [rw_id (Ident 1 :: flow_id), rw_id (Ident 1 :: generation), rw_u64 0, rw_text (bounded_detail [])]"
  let ?f = "\<lambda>s. normalize_transient_states 0 (apply_cancel (Ident 1) (Ident 1) 0 s)"
  have "length ?payload \<le> 4096"
    by (rule record_length, (rule writes_intros)+) (simp add: bounded_detail_def)
  moreover have "settled 5 (observe_tick 0 s)" using s(2) by (simp add: settled_def)
  ultimately obtain t where t: "and_then (journal RecFlowCancelled ?payload) (succeed ?f) (observe_tick 0 s) = (Ok, t)"
    "settled 6 t"
    using settled_step [of 5 "observe_tick 0 s" ?payload RecFlowCancelled ?f] by (auto simp: moving record_types_def)
  have flow: "om_find (Ident 1) (im_flows (observe_tick 0 s)) = Some (admitted_flow (ex_flow 1) 0)"
    using alike_lookup(4) [OF s(3)] by (simp add: observe_tick_def ex_ready_tables)
  have run: "cancel_flow (Ident 1) (Ident 1) [] 0 s = (Ok, t)"
    using t(1) by (simp add: cancel_flow_def with_flow_def flow) (simp add: admitted_flow_def ex_flow_def is_terminal_def)
  obtain u where u: "journal RecFlowCancelled ?payload (observe_tick 0 s) = (Ok, u)" "t = ?f u"
    using t(1) by (auto simp: and_then_eq succeed_def)
  then obtain st' where st': "store_append RecFlowCancelled ?payload st = (Ok, st')" "im_store u = Some st'"
    using st(1) by (auto simp: journal_def split: prod.splits)
  have "im_store t = Some st'"
    using moved_frame [of ?f u] st'(2) u(2) by (simp add: moving)
  moreover have "unat (ds_last_sequence st') = length rs + 1" "unat (ds_last_sequence st) = length rs"
    using store_append_holds [OF st(3) _ st'(1)] st(3) by (auto simp: store_holds_def record_types_def)
  then have "st' \<noteq> st" by auto
  ultimately show ?thesis using s(1) st(1) run left_by_self [of st'] by (metis disk.select_convs(3))
qed

end
