(* ===== verification/Transport.thy ===== *)
theory Transport
  imports Framing
begin

text \<open>
  Sockets, the listener, the readiness test and the frame channel (\<^verbatim>\<open>src/transport.cpp\<close>,
  \<^verbatim>\<open>include/flow_scheduler/transport.hpp\<close>).  The system calls are the platform: what each call answers
  is an argument of the model.  A socket carries the answers its \<^verbatim>\<open>recv\<close> and \<^verbatim>\<open>send\<close> calls will get and
  the bytes the kernel has accepted from it.
\<close>

section \<open>Process-wide initialisation\<close>

text \<open>The number of users of the transport; \<^verbatim>\<open>WSAStartup\<close> is a no-op off Windows.\<close>

definition transport_init :: "nat \<Rightarrow> status \<times> nat" where
  "transport_init users = (Ok, users + 1)"

definition transport_shutdown :: "nat \<Rightarrow> nat" where
  "transport_shutdown users = (if users \<le> 0 then users else users - 1)"

section \<open>\<^verbatim>\<open>Socket\<close>\<close>

datatype recv_answer = Received bytes | RecvBlocked | RecvFailed
datatype send_answer = Wrote nat | SendBlocked | SendFailed

definition kInvalidHandle :: u64 where "kInvalidHandle = u64_max"

record socket =
  sk_handle :: u64
  sk_inbound :: "recv_answer list"
  sk_outbound :: bytes
  sk_sends :: "send_answer list"
  sk_send_shut :: bool

definition socket_valid :: "socket \<Rightarrow> bool" where
  "socket_valid s \<longleftrightarrow> sk_handle s \<noteq> kInvalidHandle"

definition socket_close :: "socket \<Rightarrow> socket" where
  "socket_close s = (if sk_handle s \<noteq> kInvalidHandle then s\<lparr>sk_handle := kInvalidHandle\<rparr> else s)"

definition shutdown_send :: "socket \<Rightarrow> socket" where
  "shutdown_send s = (if sk_handle s = kInvalidHandle then s else s\<lparr>sk_send_shut := True\<rparr>)"

text \<open>A fresh socket on a native handle, with what the platform will answer on it.\<close>

definition fresh_socket :: "u64 \<Rightarrow> recv_answer list \<Rightarrow> send_answer list \<Rightarrow> socket" where
  "fresh_socket native inbound sends = \<lparr>sk_handle = native, sk_inbound = inbound, sk_outbound = [],
     sk_sends = sends, sk_send_shut = False\<rparr>"

definition adopt :: "u64 \<Rightarrow> recv_answer list \<Rightarrow> send_answer list \<Rightarrow> socket result" where
  "adopt raw_handle inbound sends =
     (if raw_handle = kInvalidHandle then Inl InvalidArgument
      else Inr (fresh_socket raw_handle inbound sends))"

definition kMaxRequest :: nat where "kMaxRequest = 2 ^ 30"

text \<open>
  \<^verbatim>\<open>send\<close> on a request of the given bytes: the kernel takes at most what was asked.  Once the answers
  are used up it takes all of it.
\<close>

definition native_send :: "bytes \<Rightarrow> socket \<Rightarrow> nat option \<times> bool \<times> socket" where
  "native_send request s = (case sk_sends s of
     [] \<Rightarrow> (Some (length request), False, s\<lparr>sk_outbound := sk_outbound s @ request\<rparr>)
   | Wrote n # rest \<Rightarrow>
       (Some (min n (length request)), False, s\<lparr>sk_sends := rest, sk_outbound := sk_outbound s @ take n request\<rparr>)
   | SendBlocked # rest \<Rightarrow> (None, True, s\<lparr>sk_sends := rest\<rparr>)
   | SendFailed # rest \<Rightarrow> (None, False, s\<lparr>sk_sends := rest\<rparr>))"

text \<open>The loop of \<^verbatim>\<open>send_all\<close>; the argument is what is left to send.\<close>

function send_loop :: "bytes \<Rightarrow> socket action" where
  "send_loop left s =
     (if left = [] then (Ok, s)
      else case native_send (take kMaxRequest left) s of
        (None, would_block, s') \<Rightarrow> if would_block then send_loop left s' else (PeerClosed, s')
      | (Some written, _, s') \<Rightarrow>
          if written = 0 then (PeerClosed, s') else send_loop (drop written left) s')"
  by auto
termination
  by (relation "measures [\<lambda>(left, s). length (sk_sends s), \<lambda>(left, s). length left]")
    (auto simp: native_send_def kMaxRequest_def split: list.splits send_answer.splits)

declare send_loop.simps [simp del]

definition send_all :: "bytes \<Rightarrow> socket action" where
  "send_all data s = (if sk_handle s = kInvalidHandle then (InvalidArgument, s) else send_loop data s)"

text \<open>
  \<^verbatim>\<open>recv\<close> takes at most the capacity out of the next segment; a stream that is used up has been closed
  by the peer.
\<close>

definition recv_some :: "nat \<Rightarrow> socket \<Rightarrow> bytes result \<times> socket" where
  "recv_some capacity s =
     (if sk_handle s = kInvalidHandle then (Inl InvalidArgument, s)
      else if capacity = 0 then (Inl InvalidArgument, s)
      else
        let request = (if capacity > kMaxRequest then kMaxRequest else capacity) in
        case sk_inbound s of
          [] \<Rightarrow> (Inr [], s)
        | Received data # rest \<Rightarrow>
            if length data \<le> request then (Inr data, s\<lparr>sk_inbound := rest\<rparr>)
            else (Inr (take request data), s\<lparr>sk_inbound := Received (drop request data) # rest\<rparr>)
        | RecvBlocked # rest \<Rightarrow> (Inr [], s\<lparr>sk_inbound := rest\<rparr>)
        | RecvFailed # rest \<Rightarrow> (Inl TransportFailure, s\<lparr>sk_inbound := rest\<rparr>))"

section \<open>\<^verbatim>\<open>Socket::connect\<close>\<close>

text \<open>
  What the platform answers for one address: the native socket, whether it could be made
  non-blocking, \<^verbatim>\<open>connect\<close> with \<^verbatim>\<open>would_block\<close>, \<^verbatim>\<open>select\<close> with the error state of the socket, and whether it
  could be made blocking again.
\<close>

record connect_answers =
  ca_socket :: "u64 option"
  ca_nonblocking :: bool
  ca_connect :: int
  ca_would_block :: bool
  ca_ready :: int
  ca_error_clear :: bool
  ca_blocking :: bool

definition candidate_connected :: "connect_answers \<Rightarrow> bool" where
  "candidate_connected c \<longleftrightarrow> ca_connect c = 0 \<or> ca_would_block c \<and> ca_ready c > 0 \<and> ca_error_clear c"

text \<open>The loop over the addresses, with the native sockets it closed.\<close>

fun connect_loop :: "connect_answers list \<Rightarrow> u64 list \<Rightarrow> u64 result \<times> u64 list" where
  "connect_loop [] closed = (Inl TransportFailure, closed)"
| "connect_loop (c # cs) closed = (case ca_socket c of
     None \<Rightarrow> connect_loop cs closed
   | Some native \<Rightarrow>
       if \<not> ca_nonblocking c then connect_loop cs (closed @ [native])
       else if \<not> candidate_connected c then connect_loop cs (closed @ [native])
       else if \<not> ca_blocking c then connect_loop cs (closed @ [native])
       else (Inr native, closed))"

text \<open>
  \<^verbatim>\<open>connect\<close>; the first argument is the list of addresses, \<open>None\<close> when the name did not resolve, the
  next two are what the platform will answer on the connected socket.
\<close>

definition connect ::
  "connect_answers list option \<Rightarrow> recv_answer list \<Rightarrow> send_answer list \<Rightarrow> nat \<Rightarrow> socket result \<times> u64 list \<times> nat" where
  "connect resolved inbound sends users = (case transport_init users of (code, users') \<Rightarrow>
     if code \<noteq> Ok then (Inl code, [], users')
     else case resolved of
       None \<Rightarrow> (Inl TransportFailure, [], users')
     | Some [] \<Rightarrow> (Inl TransportFailure, [], users')
     | Some candidates \<Rightarrow> (case connect_loop candidates [] of
         (Inl e, closed) \<Rightarrow> (Inl e, closed, users')
       | (Inr native, closed) \<Rightarrow> (Inr (fresh_socket native inbound sends), closed, users')))"

section \<open>\<^verbatim>\<open>Listener\<close>\<close>

record listener =
  ln_handle :: u64
  ln_port :: u16

record bind_answers =
  ba_socket :: "u64 option"
  ba_bind :: bool
  ba_listen :: bool
  ba_port :: "u16 option"

definition listener_valid :: "listener \<Rightarrow> bool" where
  "listener_valid l \<longleftrightarrow> ln_handle l \<noteq> kInvalidHandle"

definition listener_close :: "listener \<Rightarrow> listener" where
  "listener_close l = (if ln_handle l \<noteq> kInvalidHandle then l\<lparr>ln_handle := kInvalidHandle\<rparr> else l)"

fun bind_loop :: "bind_answers list \<Rightarrow> u64 list \<Rightarrow> listener result \<times> u64 list" where
  "bind_loop [] closed = (Inl TransportFailure, closed)"
| "bind_loop (c # cs) closed = (case ba_socket c of
     None \<Rightarrow> bind_loop cs closed
   | Some native \<Rightarrow>
       if \<not> ba_bind c then bind_loop cs (closed @ [native])
       else if \<not> ba_listen c then bind_loop cs (closed @ [native])
       else case ba_port c of
         None \<Rightarrow> bind_loop cs (closed @ [native])
       | Some port \<Rightarrow> (Inr \<lparr>ln_handle = native, ln_port = port\<rparr>, closed))"

definition bind :: "bind_answers list option \<Rightarrow> nat \<Rightarrow> listener result \<times> u64 list \<times> nat" where
  "bind resolved users = (case transport_init users of (code, users') \<Rightarrow>
     if code \<noteq> Ok then (Inl code, [], users')
     else case resolved of
       None \<Rightarrow> (Inl TransportFailure, [], users')
     | Some [] \<Rightarrow> (Inl TransportFailure, [], users')
     | Some candidates \<Rightarrow> (case bind_loop candidates [] of (r, closed) \<Rightarrow> (r, closed, users')))"

definition accept :: "u64 \<Rightarrow> recv_answer list \<Rightarrow> send_answer list \<Rightarrow> listener \<Rightarrow> socket result" where
  "accept accepted inbound sends l =
     (if ln_handle l = kInvalidHandle then Inl InvalidArgument
      else if accepted = kInvalidHandle then Inl TransportFailure
      else adopt accepted inbound sends)"

section \<open>\<^verbatim>\<open>wait_readable\<close>\<close>

datatype select_answer = SelectFailed | SelectTimeout | SelectReady "u64 list"

definition wait_readable :: "nat \<Rightarrow> socket option list \<Rightarrow> select_answer \<Rightarrow> nat list result" where
  "wait_readable fd_setsize sockets selected =
     (if sockets = [] then Inr []
      else if length sockets > fd_setsize then Inl Bounded
      else if list_ex (\<lambda>s. s = None \<or> \<not> socket_valid (the s)) sockets then Inl InvalidArgument
      else case selected of
        SelectFailed \<Rightarrow> Inl TransportFailure
      | SelectTimeout \<Rightarrow> Inr []
      | SelectReady handles \<Rightarrow>
          Inr (filter (\<lambda>index. sk_handle (the (sockets ! index)) \<in> set handles) [0..<length sockets]))"

section \<open>\<^verbatim>\<open>FrameChannel\<close>\<close>

record frame_channel =
  fc_socket :: socket
  fc_accumulator :: frame_accumulator

definition send_frame :: "u16 \<Rightarrow> bytes \<Rightarrow> frame_channel action" where
  "send_frame type payload ch = (case encode_frame type payload 0 of
     Inl e \<Rightarrow> (e, ch)
   | Inr encoded \<Rightarrow> (case send_all encoded (fc_socket ch) of (code, s) \<Rightarrow> (code, ch\<lparr>fc_socket := s\<rparr>)))"

fun unreceived :: "recv_answer list \<Rightarrow> nat" where
  "unreceived [] = 0"
| "unreceived (Received data # rest) = Suc (length data) + unreceived rest"
| "unreceived (_ # rest) = Suc (unreceived rest)"

lemma recv_some_consumes:
  "recv_some capacity s = (Inr data, s') \<Longrightarrow> data \<noteq> [] \<Longrightarrow> unreceived (sk_inbound s') < unreceived (sk_inbound s)"
  by (auto simp: recv_some_def Let_def kMaxRequest_def split: if_splits list.splits recv_answer.splits)

text \<open>
  \<^verbatim>\<open>FrameChannel::read_frame\<close> on the socket itself; \<open>read_frame\<close> of theory \<open>Framing\<close> is the same loop over
  the results its receives will have.
\<close>

function channel_read :: "frame_channel \<Rightarrow> (u16 \<times> bytes) option result \<times> frame_channel" where
  "channel_read ch = (case next_frame (fc_accumulator ch) of
     (Inl e, a) \<Rightarrow> (Inl e, ch\<lparr>fc_accumulator := a\<rparr>)
   | (Inr (Some (header, body)), a) \<Rightarrow> (Inr (Some (fh_type header, body)), ch\<lparr>fc_accumulator := a\<rparr>)
   | (Inr None, a) \<Rightarrow> (case recv_some 8192 (fc_socket ch) of
       (Inl e, s) \<Rightarrow> (Inl e, ch\<lparr>fc_accumulator := a, fc_socket := s\<rparr>)
     | (Inr data, s) \<Rightarrow>
         if data = [] then (if ac_buffer a = [] then Inr None else Inl Truncated,
           ch\<lparr>fc_accumulator := a, fc_socket := s\<rparr>)
         else case push data a of (code, a') \<Rightarrow>
           if code \<noteq> Ok then (Inl code, ch\<lparr>fc_accumulator := a', fc_socket := s\<rparr>)
           else channel_read (ch\<lparr>fc_accumulator := a', fc_socket := s\<rparr>)))"
  by auto
termination
  by (relation "measure (\<lambda>ch. unreceived (sk_inbound (fc_socket ch)))") (auto dest: recv_some_consumes [OF sym])

declare channel_read.simps [simp del]

section \<open>Sending\<close>

text \<open>Whatever the kernel accepted is a prefix of what was to be sent, and all of it on success.\<close>

lemma send_loop_prefix:
  assumes "send_loop left s = (code, s')"
  shows "\<exists>sent rest. left = sent @ rest \<and> sk_outbound s' = sk_outbound s @ sent \<and> (code = Ok \<longrightarrow> rest = [])
    \<and> sk_handle s' = sk_handle s \<and> sk_inbound s' = sk_inbound s"
  using assms
proof (induction left s rule: send_loop.induct)
  case (1 left s)
  obtain w b u where step: "native_send (take kMaxRequest left) s = (w, b, u)" by (cases "native_send (take kMaxRequest left) s")
  have keep: "sk_handle u = sk_handle s" "sk_inbound u = sk_inbound s"
    and moved: "sk_outbound u = sk_outbound s @ (case w of None \<Rightarrow> [] | Some n \<Rightarrow> take n left)"
    using step by (auto simp: native_send_def min_def split: list.splits send_answer.splits)
  show ?case
  proof (cases "left = []")
    case True
    then show ?thesis using 1(3) by (subst (asm) send_loop.simps) auto
  next
    case False
    show ?thesis
    proof (cases w)
      case None
      then show ?thesis
        using 1(3) False step keep moved 1(1) [OF False step [symmetric]]
        by (subst (asm) send_loop.simps) (fastforce split: if_splits)
    next
      case (Some n)
      then show ?thesis
      proof (cases "n = 0")
        case True
        then show ?thesis using 1(3) False step keep moved Some by (subst (asm) send_loop.simps) auto
      next
        case nz: False
        have "send_loop (drop n left) u = (code, s')"
          using 1(3) False step Some nz by (subst (asm) send_loop.simps) simp
        with 1(2) [OF False step [symmetric] _ _ nz] Some obtain sent rest where
          "drop n left = sent @ rest" "sk_outbound s' = sk_outbound u @ sent" "code = Ok \<longrightarrow> rest = []"
          "sk_handle s' = sk_handle u" "sk_inbound s' = sk_inbound u" by blast
        moreover from this(1) have "left = (take n left @ sent) @ rest" by (metis append.assoc append_take_drop_id)
        ultimately show ?thesis using keep moved Some by (intro exI [of _ "take n left @ sent"] exI [of _ rest]) simp
      qed
    qed
  qed
qed

text \<open>A send whose answers contain no failure goes through.\<close>

fun harmless :: "send_answer \<Rightarrow> bool" where
  "harmless (Wrote n) = (n > 0)"
| "harmless SendBlocked = True"
| "harmless SendFailed = False"

lemma send_loop_succeeds:
  "list_all harmless (sk_sends s) \<Longrightarrow> fst (send_loop left s) = Ok \<and> list_all harmless (sk_sends (snd (send_loop left s)))"
proof (induction left s rule: send_loop.induct)
  case (1 left s)
  obtain w b u where step: "native_send (take kMaxRequest left) s = (w, b, u)" by (cases "native_send (take kMaxRequest left) s")
  show ?case
  proof (cases "left = []")
    case True
    then show ?thesis using 1(3) by (subst (1 2) send_loop.simps) simp
  next
    case False
    have u: "list_all harmless (sk_sends u)" "w = None \<longrightarrow> b" "w \<noteq> Some 0"
      using step 1(3) False by (auto simp: native_send_def kMaxRequest_def min_def split: list.splits send_answer.splits if_splits)
    show ?thesis
    proof (cases w)
      case None
      then show ?thesis using 1(1) [OF False step [symmetric]] u False step
        by (subst (1 2) send_loop.simps) simp
    next
      case (Some n)
      then show ?thesis using 1(2) [OF False step [symmetric]] u False step
        by (subst (1 2) send_loop.simps) simp
    qed
  qed
qed

lemma send_frame_delivers:
  assumes "sendable type payload" "socket_valid (fc_socket ch)" "list_all harmless (sk_sends (fc_socket ch))"
  shows "\<exists>ch'. send_frame type payload ch = (Ok, ch') \<and> fc_accumulator ch' = fc_accumulator ch
    \<and> sk_outbound (fc_socket ch') = sk_outbound (fc_socket ch) @ frame_bytes type payload
    \<and> socket_valid (fc_socket ch') \<and> list_all harmless (sk_sends (fc_socket ch'))"
proof -
  let ?data = "frame_bytes type payload"
  obtain s where run: "send_loop ?data (fc_socket ch) = (Ok, s)" "list_all harmless (sk_sends s)"
    using send_loop_succeeds [OF assms(3), of ?data] by (metis prod.collapse snd_conv)
  then show ?thesis
    using send_loop_prefix [OF run(1)] assms(1,2) encode_frame_sendable [of type payload ?data]
    by (auto simp: send_frame_def send_all_def socket_valid_def)
qed

section \<open>Receiving\<close>

text \<open>The results of the receives of a channel: every segment in pieces of at most 8192 bytes.\<close>

function receipts :: "recv_answer list \<Rightarrow> bytes result list" where
  "receipts [] = []"
| "receipts (Received data # rest) =
     (if length data \<le> 8192 then Inr data # receipts rest
      else Inr (take 8192 data) # receipts (Received (drop 8192 data) # rest))"
| "receipts (RecvBlocked # rest) = Inr [] # receipts rest"
| "receipts (RecvFailed # rest) = Inl TransportFailure # receipts rest"
  by pat_completeness auto
termination
  by (relation "measure unreceived") auto

declare receipts.simps(2) [simp del]

lemma receipts_segment:
  "length data \<le> 8192 \<Longrightarrow> receipts (Received data # rest) = Inr data # receipts rest"
  "\<not> length data \<le> 8192 \<Longrightarrow>
     receipts (Received data # rest) = Inr (take 8192 data) # receipts (Received (drop 8192 data) # rest)"
  by (simp_all add: receipts.simps(2) [of data])

lemma recv_receipts:
  assumes "socket_valid s" "recv_some 8192 s = (r, s')"
  shows "socket_valid s' \<and> receipts (sk_inbound s) =
    (if sk_inbound s = [] then [] else r # receipts (sk_inbound s')) \<and> (sk_inbound s = [] \<longrightarrow> r = Inr [] \<and> s' = s)"
  using assms
  by (auto simp: recv_some_def Let_def socket_valid_def kMaxRequest_def receipts_segment
      split: if_splits list.splits recv_answer.splits)

lemma channel_read_receipts:
  assumes "socket_valid (fc_socket ch)" "channel_read ch = (r, ch')"
  shows "read_frame (receipts (sk_inbound (fc_socket ch))) (fc_accumulator ch)
      = (r, fc_accumulator ch', receipts (sk_inbound (fc_socket ch'))) \<and> socket_valid (fc_socket ch')"
  using assms
proof (induction ch rule: channel_read.induct)
  case (1 ch)
  obtain n a where step: "next_frame (fc_accumulator ch) = (n, a)" by force
  obtain q s where recv: "recv_some 8192 (fc_socket ch) = (q, s)" by force
  note got = recv_receipts [OF 1(2) recv]
  note run = 1(3) [unfolded channel_read.simps [of ch] step prod.case]
  consider (failed) e where "n = Inl e" | (frame) h body where "n = Inr (Some (h, body))"
    | (closed) e where "n = Inr None" "q = Inl e" | (idle) "n = Inr None" "q = Inr []"
    | (more) data where "n = Inr None" "q = Inr data" "data \<noteq> []"
    by (cases n; cases q; cases "projr n"; fastforce)
  then show ?case
  proof cases
    case failed
    then show ?thesis using 1(2) run step by (subst read_frame.simps) auto
  next
    case frame
    then show ?thesis using 1(2) run step by (subst read_frame.simps) auto
  next
    case closed
    then show ?thesis using run step recv got by (subst read_frame.simps) (auto split: if_splits)
  next
    case idle
    then show ?thesis using run step recv got by (subst read_frame.simps) (auto split: if_splits)
  next
    case more
    obtain code a' where push: "push data a = (code, a')" by force
    have "sk_inbound (fc_socket ch) \<noteq> []" using got more by auto
    then have receipts: "receipts (sk_inbound (fc_socket ch)) = Inr data # receipts (sk_inbound s)" "socket_valid s"
      using got more by simp_all
    show ?thesis
    proof (cases "code = Ok")
      case False
      then show ?thesis using run step recv receipts more push by (subst read_frame.simps) auto
    next
      case True
      let ?ch = "ch\<lparr>fc_accumulator := a', fc_socket := s\<rparr>"
      have "channel_read ?ch = (r, ch')" using run recv more push True by simp
      with 1(1) [OF step [symmetric] _ _ recv [symmetric]] more push True receipts(2)
      have "read_frame (receipts (sk_inbound s)) a' = (r, fc_accumulator ch', receipts (sk_inbound (fc_socket ch')))
          \<and> socket_valid (fc_socket ch')" by auto
      then show ?thesis using step receipts more push True by (subst read_frame.simps) auto
    qed
  qed
qed

text \<open>Reading as many frames as were sent, from segments of any size.\<close>

fun channel_reads :: "nat \<Rightarrow> frame_channel \<Rightarrow> (u16 \<times> bytes) list \<times> frame_channel" where
  "channel_reads 0 ch = ([], ch)"
| "channel_reads (Suc n) ch = (case channel_read ch of
     (Inr (Some message), ch') \<Rightarrow>
       (case channel_reads n ch' of (messages, final) \<Rightarrow> (message # messages, final))
   | (_, ch') \<Rightarrow> ([], ch'))"

lemma channel_reads_receipts:
  assumes "socket_valid (fc_socket ch)" "channel_reads n ch = (messages, ch')"
  shows "read_frames n (receipts (sk_inbound (fc_socket ch))) (fc_accumulator ch)
      = (messages, fc_accumulator ch', receipts (sk_inbound (fc_socket ch')))"
  using assms
proof (induction n arbitrary: ch messages)
  case (Suc n)
  obtain r u where read: "channel_read ch = (r, u)" by force
  note step = channel_read_receipts [OF Suc.prems(1) read]
  show ?case
  proof (cases "\<exists>m. r = Inr (Some m)")
    case True
    then obtain m ms final where "r = Inr (Some m)" "channel_reads n u = (ms, final)" by (cases "channel_reads n u") auto
    with Suc.IH [of u ms] Suc.prems step read show ?thesis by auto
  next
    case False
    then show ?thesis using Suc.prems step read by (auto split: sum.splits option.splits)
  qed
qed simp

lemma receipts_segments:
  assumes "list_all (\<lambda>d. d \<noteq> []) ds"
  shows "\<exists>cs. receipts (map Received ds) = map Inr cs \<and> list_all chunk cs \<and> concat cs = concat ds"
proof -
  have "list_all (\<lambda>a. \<exists>d. a = Received d \<and> d \<noteq> []) as \<Longrightarrow> \<exists>cs. receipts as = map Inr cs \<and> list_all chunk cs
      \<and> concat cs = concat (map (\<lambda>a. case a of Received d \<Rightarrow> d | _ \<Rightarrow> []) as)" for as
  proof (induction as rule: receipts.induct)
    case (2 data rest)
    show ?case
    proof (cases "length data \<le> 8192")
      case True
      with 2 obtain cs where "receipts rest = map Inr cs" "list_all chunk cs"
        "concat cs = concat (map (\<lambda>a. case a of Received d \<Rightarrow> d | _ \<Rightarrow> []) rest)" by auto
      moreover have "chunk data" using True 2(3) by (simp add: chunk_def)
      ultimately show ?thesis using True by (intro exI [of _ "data # cs"]) (simp add: receipts_segment)
    next
      case False
      with 2 obtain cs where "receipts (Received (drop 8192 data) # rest) = map Inr cs" "list_all chunk cs"
        "concat cs = drop 8192 data @ concat (map (\<lambda>a. case a of Received d \<Rightarrow> d | _ \<Rightarrow> []) rest)" by auto
      moreover have "chunk (take 8192 data)" using False by (auto simp: chunk_def)
      ultimately show ?thesis
        using False by (intro exI [of _ "take 8192 data # cs"]) (simp add: receipts_segment)
    qed
  qed auto
  from this [of "map Received ds"] assms show ?thesis by (simp add: list_all_iff o_def)
qed

section \<open>Descriptors\<close>

text \<open>
  Of the native sockets opened on the way, exactly those before the address that connected are closed,
  and all of them when none did.
\<close>

lemma connect_loop_closes:
  assumes "connect_loop cs closed = (r, closed')"
  shows "\<exists>n \<le> length cs. closed' = closed @ List.map_filter ca_socket (take n cs) \<and> (case r of
      Inl e \<Rightarrow> e = TransportFailure \<and> n = length cs
    | Inr native \<Rightarrow> n < length cs \<and> ca_socket (cs ! n) = Some native \<and> candidate_connected (cs ! n))"
  using assms
proof (induction cs arbitrary: closed)
  case (Cons c cs)
  show ?case
  proof (cases "\<exists>native. ca_socket c = Some native \<and> ca_nonblocking c \<and> candidate_connected c \<and> ca_blocking c")
    case True
    then show ?thesis using Cons.prems by (intro exI [of _ 0]) (auto simp: List.map_filter_simps)
  next
    case False
    then have "connect_loop cs (closed @ List.map_filter ca_socket [c]) = (r, closed')"
      using Cons.prems by (auto simp: List.map_filter_simps split: option.splits if_splits)
    from Cons.IH [OF this] obtain n where "n \<le> length cs"
      "closed' = (closed @ List.map_filter ca_socket [c]) @ List.map_filter ca_socket (take n cs)" "case r of
        Inl e \<Rightarrow> e = TransportFailure \<and> n = length cs
      | Inr native \<Rightarrow> n < length cs \<and> ca_socket (cs ! n) = Some native \<and> candidate_connected (cs ! n)" by blast
    then show ?thesis
      by (intro exI [of _ "Suc n"]) (auto simp: List.map_filter_simps split: sum.splits option.splits)
  qed
qed (auto simp: List.map_filter_simps)

lemma bind_loop_closes:
  assumes "bind_loop cs closed = (r, closed')"
  shows "\<exists>n \<le> length cs. closed' = closed @ List.map_filter ba_socket (take n cs) \<and> (case r of
      Inl e \<Rightarrow> e = TransportFailure \<and> n = length cs
    | Inr l \<Rightarrow> n < length cs \<and> ba_socket (cs ! n) = Some (ln_handle l) \<and> ba_port (cs ! n) = Some (ln_port l))"
  using assms
proof (induction cs arbitrary: closed)
  case (Cons c cs)
  show ?case
  proof (cases "\<exists>native port. ba_socket c = Some native \<and> ba_bind c \<and> ba_listen c \<and> ba_port c = Some port")
    case True
    then show ?thesis using Cons.prems by (intro exI [of _ 0]) (auto simp: List.map_filter_simps)
  next
    case False
    then have "bind_loop cs (closed @ List.map_filter ba_socket [c]) = (r, closed')"
      using Cons.prems by (auto simp: List.map_filter_simps split: option.splits if_splits)
    from Cons.IH [OF this] obtain n where "n \<le> length cs"
      "closed' = (closed @ List.map_filter ba_socket [c]) @ List.map_filter ba_socket (take n cs)" "case r of
        Inl e \<Rightarrow> e = TransportFailure \<and> n = length cs
      | Inr l \<Rightarrow> n < length cs \<and> ba_socket (cs ! n) = Some (ln_handle l) \<and> ba_port (cs ! n) = Some (ln_port l)" by blast
    then show ?thesis
      by (intro exI [of _ "Suc n"]) (auto simp: List.map_filter_simps split: sum.splits option.splits)
  qed
qed (auto simp: List.map_filter_simps)

text \<open>The readiness test reports exactly the positions whose descriptor the platform reported.\<close>

lemma wait_readable_exact:
  assumes "sockets \<noteq> []" "length sockets \<le> fd_setsize" "list_all (\<lambda>s. \<exists>t. s = Some t \<and> socket_valid t) sockets"
  shows "\<exists>ready. wait_readable fd_setsize sockets (SelectReady handles) = Inr ready \<and> sorted_wrt (<) ready
    \<and> set ready = {i. i < length sockets \<and> sk_handle (the (sockets ! i)) \<in> set handles}"
proof -
  have "\<not> list_ex (\<lambda>s. s = None \<or> \<not> socket_valid (the s)) sockets"
    using assms(3) by (auto simp: list_all_iff list_ex_iff)
  then show ?thesis using assms(1,2) by (auto simp: wait_readable_def sorted_wrt_filter)
qed

section \<open>A channel end to end\<close>

definition send_frames :: "(u16 \<times> bytes) list \<Rightarrow> frame_channel action" where
  "send_frames messages = for_each (\<lambda>(type, payload). send_frame type payload) messages"

lemma send_frames_deliver:
  assumes "list_all (\<lambda>(type, payload). sendable type payload) messages" "socket_valid (fc_socket ch)"
    and "list_all harmless (sk_sends (fc_socket ch))"
  shows "\<exists>ch'. send_frames messages ch = (Ok, ch')
    \<and> sk_outbound (fc_socket ch') = sk_outbound (fc_socket ch) @ wire_stream messages"
  using assms
proof (induction messages arbitrary: ch)
  case (Cons m messages)
  obtain type payload where m: "m = (type, payload)" by (cases m)
  obtain ch1 where one: "send_frame type payload ch = (Ok, ch1)"
    "sk_outbound (fc_socket ch1) = sk_outbound (fc_socket ch) @ frame_bytes type payload"
    "socket_valid (fc_socket ch1)" "list_all harmless (sk_sends (fc_socket ch1))"
    using send_frame_delivers [of type payload ch] Cons.prems by (auto simp: m)
  with Cons.IH [OF _ one(3,4)] Cons.prems(1) show ?case
    by (auto simp: m and_then_def wire_stream_def send_frames_def)
qed (simp add: wire_stream_def send_frames_def)

text \<open>A channel that will deliver exactly the given bytes before the peer closes.\<close>

definition streaming :: "frame_channel \<Rightarrow> bytes \<Rightarrow> bool" where
  "streaming ch data \<longleftrightarrow> socket_valid (fc_socket ch) \<and> (\<exists>cs. receipts (sk_inbound (fc_socket ch)) = map Inr cs
     \<and> list_all chunk cs \<and> ac_buffer (fc_accumulator ch) @ concat cs = data)"

lemma streaming_segments:
  assumes "socket_valid (fc_socket ch)" "sk_inbound (fc_socket ch) = map Received segments"
    and "list_all (\<lambda>d. d \<noteq> []) segments" "ac_buffer (fc_accumulator ch) = []"
  shows "streaming ch (concat segments)"
  using receipts_segments [OF assms(3)] assms unfolding streaming_def by auto

lemma recv_some_frame:
  "recv_some capacity s = (r, s') \<Longrightarrow> sk_outbound s' = sk_outbound s \<and> sk_sends s' = sk_sends s"
  by (auto simp: recv_some_def Let_def split: if_splits list.splits recv_answer.splits)

lemma channel_read_frame:
  "channel_read ch = (r, ch') \<Longrightarrow>
     sk_outbound (fc_socket ch') = sk_outbound (fc_socket ch) \<and> sk_sends (fc_socket ch') = sk_sends (fc_socket ch)"
proof (induction ch rule: channel_read.induct)
  case (1 ch)
  obtain n a where step: "next_frame (fc_accumulator ch) = (n, a)" by force
  obtain q s where recv: "recv_some 8192 (fc_socket ch) = (q, s)" by force
  note run = 1(2) [unfolded channel_read.simps [of ch] step prod.case]
  show ?case
  proof (cases "\<exists>data a'. n = Inr None \<and> q = Inr data \<and> data \<noteq> [] \<and> push data a = (Ok, a')")
    case True
    then obtain data a' where more: "n = Inr None" "q = Inr data" "data \<noteq> []" "push data a = (Ok, a')" by blast
    have "channel_read (ch\<lparr>fc_accumulator := a', fc_socket := s\<rparr>) = (r, ch')" using run recv more by simp
    with 1(1) [OF step [symmetric] _ _ recv [symmetric]] more recv_some_frame [OF recv] show ?thesis by auto
  next
    case False
    then show ?thesis using run recv recv_some_frame [OF recv]
      by (auto split: sum.splits option.splits if_splits prod.splits)
  qed
qed

lemma streaming_read:
  assumes "sendable type payload" "streaming ch (frame_bytes type payload @ rest)"
  shows "\<exists>ch'. channel_read ch = (Inr (Some (type, payload)), ch') \<and> streaming ch' rest
    \<and> sk_outbound (fc_socket ch') = sk_outbound (fc_socket ch) \<and> sk_sends (fc_socket ch') = sk_sends (fc_socket ch)"
proof -
  obtain cs where cs: "socket_valid (fc_socket ch)" "receipts (sk_inbound (fc_socket ch)) = map Inr cs"
    "list_all chunk cs" "ac_buffer (fc_accumulator ch) @ concat cs = frame_bytes type payload @ rest"
    using assms(2) unfolding streaming_def by blast
  obtain r ch' where read: "channel_read ch = (r, ch')" by force
  obtain a' cs' where "read_frame (map Inr cs) (fc_accumulator ch) = (Inr (Some (type, payload)), a', map Inr cs')"
    "list_all chunk cs'" "ac_buffer a' @ concat cs' = rest"
    using read_frame_stream [OF assms(1) cs(3,4)] by blast
  with channel_read_receipts [OF cs(1) read] cs(2) read channel_read_frame [OF read] show ?thesis
    unfolding streaming_def by (intro exI [of _ ch'] conjI exI [of _ cs']) auto
qed

lemma streaming_send:
  assumes "streaming ch data" "sendable type payload" "list_all harmless (sk_sends (fc_socket ch))"
  shows "\<exists>ch'. send_frame type payload ch = (Ok, ch') \<and> streaming ch' data
    \<and> sk_outbound (fc_socket ch') = sk_outbound (fc_socket ch) @ frame_bytes type payload
    \<and> list_all harmless (sk_sends (fc_socket ch')) \<and> sk_handle (fc_socket ch') = sk_handle (fc_socket ch)"
proof -
  have valid: "socket_valid (fc_socket ch)" using assms(1) by (simp add: streaming_def)
  obtain ch' where run: "send_frame type payload ch = (Ok, ch')" "fc_accumulator ch' = fc_accumulator ch"
    "sk_outbound (fc_socket ch') = sk_outbound (fc_socket ch) @ frame_bytes type payload"
    "socket_valid (fc_socket ch')" "list_all harmless (sk_sends (fc_socket ch'))"
    using send_frame_delivers [OF assms(2) valid assms(3)] by blast
  have "sk_inbound (fc_socket ch') = sk_inbound (fc_socket ch) \<and> sk_handle (fc_socket ch') = sk_handle (fc_socket ch)"
    using run(1) by (auto simp: send_frame_def send_all_def split: sum.splits prod.splits if_splits dest!: send_loop_prefix)
  then show ?thesis using run assms(1) by (auto simp: streaming_def)
qed

lemma streaming_reads:
  assumes "list_all (\<lambda>(type, payload). sendable type payload) messages" "streaming ch (wire_stream messages @ rest)"
  shows "\<exists>ch'. channel_reads (length messages) ch = (messages, ch') \<and> streaming ch' rest"
  using assms
proof (induction messages arbitrary: ch)
  case (Cons m messages)
  obtain type payload where m: "m = (type, payload)" by (cases m)
  have "sendable type payload" "streaming ch (frame_bytes type payload @ wire_stream messages @ rest)"
    using Cons.prems by (simp_all add: m wire_stream_def)
  from streaming_read [OF this] Cons.IH Cons.prems(1) show ?case by (fastforce simp: m)
qed (simp add: wire_stream_def)

lemma receipts_Nil: "receipts as = [] \<longleftrightarrow> as = []"
  by (cases as rule: receipts.cases) (simp_all add: receipts.simps(2))

lemma streaming_end:
  assumes "streaming ch []"
  shows "\<exists>ch'. channel_read ch = (Inr None, ch')"
proof -
  obtain cs where cs: "socket_valid (fc_socket ch)" "receipts (sk_inbound (fc_socket ch)) = map Inr cs"
    "list_all chunk cs" "ac_buffer (fc_accumulator ch) = []" "concat cs = []"
    using assms unfolding streaming_def by auto
  then have "cs = []" by (cases cs) (auto simp: chunk_def)
  then have "receipts (sk_inbound (fc_socket ch)) = []" using cs(2) by simp
  then have "sk_inbound (fc_socket ch) = []" by (simp add: receipts_Nil)
  then show ?thesis
    using cs(1,4) by (subst channel_read.simps)
      (simp add: next_frame_def recv_some_def socket_valid_def frame_consts Let_def)
qed

end
