(* ===== verification/Worker.thy ===== *)
theory Worker
  imports Transport Protocol Scenario
begin

text \<open>
  The worker process (\<^verbatim>\<open>tools/fs_worker.cpp\<close>): its command line, the bounded connect and handshake,
  and the loop that answers every dispatch with a start and with evidence.  A process that ends is the
  exit code it returns; what it wrote to its socket stays in the channel.  The clock, \<^verbatim>\<open>select\<close> and the
  attempts to connect are answers of the platform.
\<close>

section \<open>Command line\<close>

text \<open>The loop of \<^verbatim>\<open>parse_u64\<close>.\<close>

fun parse_digits :: "bytes \<Rightarrow> u64 \<Rightarrow> u64 option" where
  "parse_digits [] v = Some v"
| "parse_digits (c # text) v =
     (if c < 48 \<or> c > 57 then None
      else
        let digit = ucast (c - 48) in
        if v > (u64_max - digit) div 10 then None else parse_digits text (v * 10 + digit))"

definition parse_u64 :: "bytes \<Rightarrow> u64 option" where
  "parse_u64 text = (if text = [] then None else parse_digits text 0)"

definition parse_i64 :: "bytes \<Rightarrow> int option" where
  "parse_i64 text =
     (let signed = text \<noteq> [] \<and> (hd text = 45 \<or> hd text = 43);
          negative = signed \<and> hd text = 45
      in case parse_u64 (if signed then tl text else text) of
           None \<Rightarrow> None
         | Some magnitude \<Rightarrow>
             if uint magnitude > 2 ^ 63 - 1 then None
             else Some (if negative then - uint magnitude else uint magnitude))"

record worker_options =
  wo_host :: bytes
  wo_port :: u64
  wo_port_set :: bool
  wo_worker :: u64
  wo_worker_set :: bool
  wo_boot :: u64
  wo_label :: bytes
  wo_served :: int
  wo_exit_after :: u64
  wo_stale_evidence :: bool
  wo_quiet :: bool

definition worker_defaults :: worker_options where
  "worker_defaults = \<lparr>wo_host = lit ''127.0.0.1'', wo_port = 0, wo_port_set = False, wo_worker = 0,
     wo_worker_set = False, wo_boot = 1, wo_label = [], wo_served = -1, wo_exit_after = 0,
     wo_stale_evidence = False, wo_quiet = False\<rparr>"

text \<open>A flag that takes a value; \<open>None\<close> is \<^verbatim>\<open>fail_usage\<close>, which exits with code 2.\<close>

definition worker_flag :: "bytes \<Rightarrow> bytes \<Rightarrow> worker_options \<Rightarrow> worker_options option" where
  "worker_flag flag text opts =
     (if flag = lit ''--host'' then Some (opts\<lparr>wo_host := text\<rparr>)
      else if flag = lit ''--port'' then (case parse_u64 text of
          None \<Rightarrow> None
        | Some v \<Rightarrow> if v = 0 \<or> v > 65535 then None else Some (opts\<lparr>wo_port := v, wo_port_set := True\<rparr>))
      else if flag = lit ''--worker'' then (case parse_u64 text of
          None \<Rightarrow> None
        | Some v \<Rightarrow> if v = 0 then None else Some (opts\<lparr>wo_worker := v, wo_worker_set := True\<rparr>))
      else if flag = lit ''--boot'' then (case parse_u64 text of
          None \<Rightarrow> None
        | Some v \<Rightarrow> if v = 0 then None else Some (opts\<lparr>wo_boot := v\<rparr>))
      else if flag = lit ''--label'' then
        (if length text > kMaxLabelBytes then None else Some (opts\<lparr>wo_label := text\<rparr>))
      else if flag = lit ''--served'' then
        map_option (\<lambda>v. opts\<lparr>wo_served := v\<rparr>) (parse_i64 text)
      else if flag = lit ''--exit-after'' then
        map_option (\<lambda>v. opts\<lparr>wo_exit_after := v\<rparr>) (parse_u64 text)
      else None)"

fun parse_worker_args :: "bytes list \<Rightarrow> worker_options \<Rightarrow> worker_options option" where
  "parse_worker_args [] opts = (if wo_port_set opts \<and> wo_worker_set opts then Some opts else None)"
| "parse_worker_args (flag # rest) opts =
     (if flag = lit ''--stale-evidence'' then parse_worker_args rest (opts\<lparr>wo_stale_evidence := True\<rparr>)
      else if flag = lit ''--quiet'' then parse_worker_args rest (opts\<lparr>wo_quiet := True\<rparr>)
      else case rest of
        [] \<Rightarrow> None
      | text # rest' \<Rightarrow> (case worker_flag flag text opts of
          None \<Rightarrow> None
        | Some opts' \<Rightarrow> parse_worker_args rest' opts'))"

definition parse_worker_options :: "bytes list \<Rightarrow> worker_options option" where
  "parse_worker_options args = parse_worker_args args worker_defaults"

section \<open>Connecting\<close>

definition kConnectWindowMs :: int where "kConnectWindowMs = 10000"
definition kHandshakeBudgetMs :: int where "kHandshakeBudgetMs = 10000"

text \<open>
  What the platform answers in one turn of the loop: the resolver with the system calls of each
  address, the stream the connection would carry, and the milliseconds since the start.  A list of
  turns that ends stands for a window that has passed.
\<close>

record connect_turn =
  ct_resolved :: "connect_answers list option"
  ct_inbound :: "recv_answer list"
  ct_sends :: "send_answer list"
  ct_elapsed :: int

fun connect_with_retry :: "connect_turn list \<Rightarrow> nat \<Rightarrow> socket result \<times> nat" where
  "connect_with_retry [] users = (Inl TransportFailure, users)"
| "connect_with_retry (t # turns) users =
     (case connect (ct_resolved t) (ct_inbound t) (ct_sends t) users of
        (Inr s, _, users') \<Rightarrow> (Inr s, users')
      | (Inl _, _, users') \<Rightarrow>
          if ct_elapsed t \<ge> kConnectWindowMs then (Inl TransportFailure, users')
          else connect_with_retry turns users')"

fun read_frame_bounded ::
  "nat \<Rightarrow> int \<Rightarrow> (select_answer \<times> int) list \<Rightarrow> frame_channel \<Rightarrow> (u16 \<times> bytes) option result \<times> frame_channel" where
  "read_frame_bounded fd_setsize budget [] ch = (Inl TransportFailure, ch)"
| "read_frame_bounded fd_setsize budget ((selected, elapsed) # slices) ch =
     (case wait_readable fd_setsize [Some (fc_socket ch)] selected of
        Inl e \<Rightarrow> (Inl e, ch)
      | Inr ready \<Rightarrow>
          if ready \<noteq> [] then channel_read ch
          else if elapsed \<ge> budget then (Inl TransportFailure, ch)
          else read_frame_bounded fd_setsize budget slices ch)"

section \<open>Evidence\<close>

fun message_code :: "message_type \<Rightarrow> u16" where
  "message_code MsgInvalid = 0"
| "message_code MsgHello = 1"
| "message_code MsgHelloAck = 2"
| "message_code MsgDispatch = 3"
| "message_code MsgDispatchRejected = 4"
| "message_code MsgStarted = 5"
| "message_code MsgCompletion = 6"
| "message_code MsgShutdown = 7"
| "message_code MsgError = 8"
| "message_code MsgHeartbeat = 9"

definition make_evidence :: "dispatch_ticket \<Rightarrow> worker_options \<Rightarrow> u64 \<Rightarrow> completion_evidence" where
  "make_evidence t opts observed_tick =
     (let digest = mix64 (dt_digest t XOR id_value (dt_attempt t)) in
      \<lparr>ce_schedule = dt_schedule t, ce_schedule_generation = dt_schedule_generation t,
       ce_attempt = dt_attempt t,
       ce_epoch = (if wo_stale_evidence opts then Ident (id_value (dt_epoch t) + 1) else dt_epoch t),
       ce_flow = dt_flow t, ce_flow_generation = dt_flow_generation t,
       ce_worker = dt_worker t, ce_boot = dt_boot t, ce_outcome = OutcomeServed,
       ce_served = (if wo_served opts < 0 then dt_quantum t
         else if of_int (wo_served opts) < dt_quantum t then of_int (wo_served opts) else dt_quantum t),
       ce_effect_code = 1, ce_effect_digest = digest, ce_observed_tick = observed_tick,
       ce_provenance = \<lparr>pv_origin = OriginExternal, pv_sequence = id_value (dt_attempt t),
         pv_digest = mix64 digest\<rparr>\<rparr>)"

section \<open>The process\<close>

record worker_state =
  ws_channel :: frame_channel
  ws_observed_tick :: u64
  ws_completions :: u64

definition worker_send :: "message_type \<Rightarrow> bytes \<Rightarrow> worker_state action" where
  "worker_send type payload w = (case send_frame (message_code type) payload (ws_channel w) of
     (code, ch) \<Rightarrow> (code, w\<lparr>ws_channel := ch\<rparr>))"

text \<open>A frame of the main loop: \<open>Inl\<close> is the exit code with which the process ends.\<close>

definition serve_dispatch :: "worker_options \<Rightarrow> bytes \<Rightarrow> worker_state \<Rightarrow> nat option \<times> worker_state" where
  "serve_dispatch opts payload w0 = (case decode_dispatch payload of
     Inl _ \<Rightarrow> (Some 4, w0)
   | Inr dispatch \<Rightarrow>
       let w = w0\<lparr>ws_observed_tick := ws_observed_tick w0 + 1\<rparr>; t = dm_ticket dispatch in
       case worker_send MsgStarted (encode_started
              \<lparr>sm_attempt = dt_attempt t, sm_epoch = dt_epoch t, sm_at_tick = ws_observed_tick w\<rparr>) w of
         (acknowledged, w1) \<Rightarrow>
           if acknowledged \<noteq> Ok then (Some 4, w1)
           else case worker_send MsgCompletion
                  (encode_completion (make_evidence t opts (ws_observed_tick w))) w1 of
             (reported, w2) \<Rightarrow>
               if reported \<noteq> Ok then (Some 4, w2)
               else
                 let w3 = w2\<lparr>ws_completions := ws_completions w2 + 1\<rparr> in
                 (if wo_exit_after opts \<noteq> 0 \<and> ws_completions w3 \<ge> wo_exit_after opts then Some 0 else None, w3))"

definition serve_frame :: "worker_options \<Rightarrow> u16 \<times> bytes \<Rightarrow> worker_state \<Rightarrow> nat option \<times> worker_state" where
  "serve_frame opts frame w = (case frame of (type, payload) \<Rightarrow>
     if type = message_code MsgDispatch then serve_dispatch opts payload w
     else if type = message_code MsgShutdown then
       (case decode_shutdown payload of Inl _ \<Rightarrow> (Some 4, w) | Inr _ \<Rightarrow> (Some 0, w))
     else (Some 4, w))"

text \<open>
  The main loop.  A frame shortens what is pending on the socket and in the accumulator, so the loop
  ends on every finite stream.
\<close>

definition unread :: "frame_channel \<Rightarrow> nat" where
  "unread ch = unreceived (sk_inbound (fc_socket ch)) + length (ac_buffer (fc_accumulator ch))"

lemma next_frame_shrinks:
  "next_frame a = (Inr (Some m), a') \<Longrightarrow> length (ac_buffer a') < length (ac_buffer a)"
  "next_frame a = (Inr None, a') \<Longrightarrow> a' = a"
  by (auto simp: next_frame_def Let_def frame_consts split: if_splits sum.splits prod.splits)

lemma recv_some_moves:
  "recv_some capacity s = (Inr data, s') \<Longrightarrow>
     unreceived (sk_inbound s') + length data \<le> unreceived (sk_inbound s)"
  by (auto simp: recv_some_def Let_def split: if_splits list.splits recv_answer.splits)

lemma push_appends: "push data a = (Ok, a') \<Longrightarrow> length (ac_buffer a') = length (ac_buffer a) + length data"
  by (auto simp: push_def split: if_splits)

lemma channel_read_shrinks: "channel_read ch = (Inr (Some m), ch') \<Longrightarrow> unread ch' < unread ch"
proof (induction ch rule: channel_read.induct)
  case (1 ch)
  obtain n a where step: "next_frame (fc_accumulator ch) = (n, a)" by force
  obtain q s where recv: "recv_some 8192 (fc_socket ch) = (q, s)" by force
  note run = 1(2) [unfolded channel_read.simps [of ch] step prod.case]
  consider (frame) h body where "n = Inr (Some (h, body))" | (more) data a' where "n = Inr None" "q = Inr data"
      "data \<noteq> []" "push data a = (Ok, a')"
    using run recv by (auto split: sum.splits option.splits if_splits prod.splits)
  then show ?case
  proof cases
    case frame
    then show ?thesis using run step next_frame_shrinks(1) [of "fc_accumulator ch" "(h, body)" a] by (auto simp: unread_def)
  next
    case more
    let ?ch = "ch\<lparr>fc_accumulator := a', fc_socket := s\<rparr>"
    have "channel_read ?ch = (Inr (Some m), ch')" using run recv more by simp
    with 1(1) [OF step [symmetric] _ _ recv [symmetric]] more have "unread ch' < unread ?ch" by auto
    also have "unread ?ch \<le> unread ch"
      using recv_some_moves [of 8192 "fc_socket ch" data s] push_appends [OF more(4)] next_frame_shrinks(2) [of "fc_accumulator ch" a] step recv more
      by (auto simp: unread_def)
    finally show ?thesis .
  qed
qed

lemma send_frame_unread: "send_frame type payload ch = (code, ch') \<Longrightarrow> unread ch' = unread ch"
  by (auto simp: send_frame_def send_all_def unread_def split: sum.splits prod.splits if_splits
      dest!: send_loop_prefix)

lemma worker_send_unread: "worker_send type payload w = (code, w') \<Longrightarrow> unread (ws_channel w') = unread (ws_channel w)"
  by (auto simp: worker_send_def split: prod.splits dest: send_frame_unread)

lemma serve_frame_unread: "serve_frame opts frame w = (r, w') \<Longrightarrow> unread (ws_channel w') = unread (ws_channel w)"
  by (auto simp: serve_frame_def serve_dispatch_def Let_def split: prod.splits sum.splits if_splits
      dest!: worker_send_unread)

function worker_loop :: "worker_options \<Rightarrow> worker_state \<Rightarrow> nat \<times> worker_state" where
  "worker_loop opts w = (case channel_read (ws_channel w) of
     (Inl _, ch) \<Rightarrow> (4, w\<lparr>ws_channel := ch\<rparr>)
   | (Inr None, ch) \<Rightarrow> (5, w\<lparr>ws_channel := ch\<rparr>)
   | (Inr (Some frame), ch) \<Rightarrow> (case serve_frame opts frame (w\<lparr>ws_channel := ch\<rparr>) of
       (Some code, w') \<Rightarrow> (code, w')
     | (None, w') \<Rightarrow> worker_loop opts w'))"
  by auto
termination
  by (relation "measure (\<lambda>(_, w). unread (ws_channel w))")
    (auto dest!: serve_frame_unread [OF sym] channel_read_shrinks [OF sym])

declare worker_loop.simps [simp del]

definition offer :: "worker_options \<Rightarrow> hello_message" where
  "offer opts = \<lparr>hm_worker = Ident (wo_worker opts), hm_boot = Ident (wo_boot opts), hm_label = wo_label opts,
     hm_supported_protocol = ucast kProtocolVersion\<rparr>"

definition worker_run ::
  "worker_options \<Rightarrow> connect_turn list \<Rightarrow> nat \<Rightarrow> (select_answer \<times> int) list \<Rightarrow> nat \<times> worker_state option" where
  "worker_run opts turns fd_setsize slices = (case transport_init 0 of (initialized, users) \<Rightarrow>
     if initialized \<noteq> Ok then (4, None)
     else case connect_with_retry turns users of
       (Inl _, _) \<Rightarrow> (2, None)
     | (Inr s, _) \<Rightarrow>
       let w0 = \<lparr>ws_channel = \<lparr>fc_socket = s, fc_accumulator = frame_accumulator_new\<rparr>,
             ws_observed_tick = 0, ws_completions = 0\<rparr>
       in case worker_send MsgHello (encode_hello (offer opts)) w0 of
         (sent, w1) \<Rightarrow>
           if sent \<noteq> Ok then (4, Some w1)
           else case read_frame_bounded fd_setsize kHandshakeBudgetMs slices (ws_channel w1) of
             (received, ch) \<Rightarrow>
               let w2 = w1\<lparr>ws_channel := ch\<rparr> in
               case received of
                 Inl _ \<Rightarrow> (4, Some w2)
               | Inr None \<Rightarrow> (4, Some w2)
               | Inr (Some (type, payload)) \<Rightarrow>
                   if type \<noteq> message_code MsgHelloAck then (4, Some w2)
                   else case decode_hello_ack payload of
                     Inl _ \<Rightarrow> (4, Some w2)
                   | Inr ack \<Rightarrow>
                       if \<not> ha_accepted ack then (3, Some w2)
                       else (case worker_loop opts w2 of (code, w3) \<Rightarrow> (code, Some w3)))"

section \<open>Decimal arguments\<close>

lemma parse_digits_append:
  "parse_digits (xs @ ys) v = (case parse_digits xs v of None \<Rightarrow> None | Some u \<Rightarrow> parse_digits ys u)"
  by (induction xs arbitrary: v) (simp_all add: Let_def)

lemma parse_digit:
  assumes "d < 10" "unat v * 10 + d < 2 ^ 64"
  shows "parse_digits [48 + of_nat d] v = Some (v * 10 + of_nat d)"
proof -
  have code: "unat (48 + of_nat d :: u8) = 48 + d" using assms(1) by (simp add: unat_word_ariths unat_of_nat take_bit_nat_eq_self)
  have digit: "ucast (48 + of_nat d - 48 :: u8) = (of_nat d :: u64)"
    using assms(1) by (intro word_unat_eq_iff [THEN iffD2]) (simp add: unsigned_ucast_eq unsigned_of_nat take_bit_nat_eq_self)
  have "unat (of_nat d :: u64) = d" using assms(1) by (simp add: unat_of_nat take_bit_nat_eq_self)
  then have "unat ((u64_max - of_nat d) div 10) = (2 ^ 64 - 1 - d) div 10"
    using assms(1) by (simp add: unat_div unat_sub word_le_nat_alt unat_u64_max)
  then have "\<not> v > (u64_max - of_nat d) div 10"
    using assms(2) by (simp add: word_less_nat_alt)
  moreover have "\<not> (48 + of_nat d :: u8) < 48" "\<not> (48 + of_nat d :: u8) > 57"
    using code assms(1) by (simp_all add: word_less_nat_alt)
  ultimately show ?thesis using digit by (simp add: Let_def)
qed

lemma parse_dec_nat: "n < 2 ^ 64 \<Longrightarrow> parse_digits (dec_nat n) 0 = Some (of_nat n)"
proof (induction n rule: dec_nat.induct)
  case (1 n)
  show ?case
  proof (cases "n < 10")
    case True
    then show ?thesis using parse_digit [of n 0] by (subst dec_nat.simps) simp
  next
    case False
    have small: "n div 10 < 2 ^ 64" using 1(2) by simp
    have "unat (of_nat (n div 10) :: u64) = n div 10" using small by (simp add: unat_of_nat take_bit_nat_eq_self)
    moreover have "n div 10 * 10 + n mod 10 = n" by simp
    ultimately have "parse_digits [48 + of_nat (n mod 10)] (of_nat (n div 10)) = Some (of_nat (n div 10) * 10 + of_nat (n mod 10))"
      using 1(2) by (intro parse_digit) simp_all
    moreover have "(of_nat (n div 10) * 10 + of_nat (n mod 10) :: u64) = of_nat n"
      by (metis of_nat_add of_nat_mult of_nat_numeral div_mult_mod_eq)
    ultimately show ?thesis
      using False 1(1) [OF False small] by (subst dec_nat.simps) (simp add: parse_digits_append)
  qed
qed

lemma parse_dec: "parse_u64 (dec (v :: u64)) = Some v"
  using parse_dec_nat [of "unat v"] unat_le_u64_max [of v] dec_nat_nonempty by (simp add: parse_u64_def dec_def)

section \<open>What the worker answers\<close>

lemma take_record_length: "writes (rw_block parts) bs \<Longrightarrow> length bs \<le> kDefaultLimit \<Longrightarrow> length (take_record parts) = length bs"
  using writes_fits [of "rw_block parts" bs kDefaultLimit] writes_buffer(1) [of "rw_block parts" bs kDefaultLimit]
  by (simp add: take_record_def)

lemma answers_sendable:
  "sendable (message_code MsgStarted) (encode_started m)"
  "sendable (message_code MsgCompletion) (encode_completion e)"
proof -
  have "length (encode_started m) = 24"
    unfolding encode_started_def by (subst take_record_length, (rule writes_intros)+) (simp_all add: kDefaultLimit_def)
  then show "sendable (message_code MsgStarted) (encode_started m)" by (simp add: sendable_def kMaxMessageType_def)
  obtain bs where bs: "writes (write_evidence e) bs" "length bs = 110" using evidence_bytes by blast
  have "length (encode_completion e) = 110"
    unfolding encode_completion_def by (subst take_record_length, (rule bs(1) writes_intros)+) (simp_all add: bs(2) kDefaultLimit_def)
  then show "sendable (message_code MsgCompletion) (encode_completion e)" by (simp add: sendable_def kMaxMessageType_def)
qed

lemma worker_send_streaming:
  assumes "streaming (ws_channel w) data" "sendable (message_code type) payload"
    "list_all harmless (sk_sends (fc_socket (ws_channel w)))"
  shows "\<exists>ch'. worker_send type payload w = (Ok, w\<lparr>ws_channel := ch'\<rparr>) \<and> streaming ch' data
    \<and> sk_outbound (fc_socket ch') = sk_outbound (fc_socket (ws_channel w)) @ frame_bytes (message_code type) payload
    \<and> list_all harmless (sk_sends (fc_socket ch')) \<and> sk_handle (fc_socket ch') = sk_handle (fc_socket (ws_channel w))"
  using streaming_send [OF assms] by (auto simp: worker_send_def)

definition answer_frames :: "worker_options \<Rightarrow> u64 \<Rightarrow> dispatch_ticket \<Rightarrow> (u16 \<times> bytes) list" where
  "answer_frames opts tick t = [
     (message_code MsgStarted, encode_started \<lparr>sm_attempt = dt_attempt t, sm_epoch = dt_epoch t, sm_at_tick = tick\<rparr>),
     (message_code MsgCompletion, encode_completion (make_evidence t opts tick))]"

lemma serve_dispatch_answers:
  assumes "ticket_encodable (dm_ticket d)" "wo_exit_after opts = 0" "streaming (ws_channel w) data"
    and "list_all harmless (sk_sends (fc_socket (ws_channel w)))"
  shows "\<exists>w'. serve_dispatch opts (encode_dispatch d) w = (None, w') \<and> streaming (ws_channel w') data
    \<and> ws_observed_tick w' = ws_observed_tick w + 1
    \<and> sk_outbound (fc_socket (ws_channel w')) = sk_outbound (fc_socket (ws_channel w))
        @ wire_stream (answer_frames opts (ws_observed_tick w + 1) (dm_ticket d))
    \<and> list_all harmless (sk_sends (fc_socket (ws_channel w')))"
proof -
  let ?t = "dm_ticket d"
  let ?w = "w\<lparr>ws_observed_tick := ws_observed_tick w + 1\<rparr>"
  let ?started = "encode_started \<lparr>sm_attempt = dt_attempt ?t, sm_epoch = dt_epoch ?t, sm_at_tick = ws_observed_tick ?w\<rparr>"
  obtain c1 where c1: "worker_send MsgStarted ?started ?w = (Ok, ?w\<lparr>ws_channel := c1\<rparr>)" "streaming c1 data"
    "sk_outbound (fc_socket c1) = sk_outbound (fc_socket (ws_channel w)) @ frame_bytes (message_code MsgStarted) ?started"
    "list_all harmless (sk_sends (fc_socket c1))"
    using worker_send_streaming [of ?w data MsgStarted ?started] answers_sendable(1) assms(3,4)
    by (auto simp del: message_code.simps)
  let ?w1 = "?w\<lparr>ws_channel := c1\<rparr>"
  let ?done = "encode_completion (make_evidence ?t opts (ws_observed_tick ?w))"
  obtain c2 where c2: "worker_send MsgCompletion ?done ?w1 = (Ok, ?w1\<lparr>ws_channel := c2\<rparr>)" "streaming c2 data"
    "sk_outbound (fc_socket c2) = sk_outbound (fc_socket c1) @ frame_bytes (message_code MsgCompletion) ?done"
    "list_all harmless (sk_sends (fc_socket c2))"
    using worker_send_streaming [of ?w1 data MsgCompletion ?done] answers_sendable(2) c1(2,4)
    by (auto simp del: message_code.simps)
  show ?thesis
    unfolding serve_dispatch_def dispatch_roundtrip [OF assms(1)]
    using c1 c2 assms(2) by (simp add: Let_def answer_frames_def wire_stream_def del: message_code.simps)
qed

fun answers :: "worker_options \<Rightarrow> u64 \<Rightarrow> dispatch_message list \<Rightarrow> (u16 \<times> bytes) list" where
  "answers opts tick [] = []"
| "answers opts tick (d # ds) = answer_frames opts (tick + 1) (dm_ticket d) @ answers opts (tick + 1) ds"

lemma wire_stream_append: "wire_stream (xs @ ys) = wire_stream xs @ wire_stream ys"
  by (simp add: wire_stream_def)

lemma dispatch_sendable: "sendable (message_code MsgDispatch) (encode_dispatch d)"
proof -
  obtain bs where bs: "writes (write_ticket (dm_ticket d)) bs" "length bs = 201" using ticket_bytes by blast
  have "length (encode_dispatch d) = 209"
    unfolding encode_dispatch_def by (subst take_record_length, (rule bs(1) writes_intros)+) (simp_all add: bs(2) kDefaultLimit_def)
  then show ?thesis by (simp add: sendable_def kMaxMessageType_def)
qed

lemma shutdown_sendable: "sendable (message_code MsgShutdown) (encode_shutdown reason)"
proof -
  have "length (encode_shutdown reason) \<le> 1024"
    unfolding encode_shutdown_def by (subst take_record_length, (rule writes_intros)+) (simp_all add: kDefaultLimit_def kMaxDetailBytes_def)
  then show ?thesis by (simp add: sendable_def kMaxMessageType_def)
qed

lemma worker_loop_answers:
  assumes "list_all (\<lambda>d. ticket_encodable (dm_ticket d)) ds" "wo_exit_after opts = 0"
    and "streaming (ws_channel w) (wire_stream (map (\<lambda>d. (message_code MsgDispatch, encode_dispatch d)) ds
        @ [(message_code MsgShutdown, encode_shutdown reason)]))"
    and "list_all harmless (sk_sends (fc_socket (ws_channel w)))"
  shows "\<exists>w'. worker_loop opts w = (0, w') \<and> sk_outbound (fc_socket (ws_channel w')) =
    sk_outbound (fc_socket (ws_channel w)) @ wire_stream (answers opts (ws_observed_tick w) ds)"
  using assms(1,3,4)
proof (induction ds arbitrary: w)
  case Nil
  have "streaming (ws_channel w) (frame_bytes (message_code MsgShutdown) (encode_shutdown reason) @ [])"
    using Nil.prems(2) by (simp add: wire_stream_def del: message_code.simps)
  from streaming_read [OF shutdown_sendable this] show ?case
    by (subst worker_loop.simps) (auto simp: serve_frame_def shutdown_roundtrip wire_stream_def)
next
  case (Cons d ds)
  let ?rest = "wire_stream (map (\<lambda>d. (message_code MsgDispatch, encode_dispatch d)) ds
      @ [(message_code MsgShutdown, encode_shutdown reason)])"
  have "streaming (ws_channel w) (frame_bytes (message_code MsgDispatch) (encode_dispatch d) @ ?rest)"
    using Cons.prems(2) by (simp add: wire_stream_def del: message_code.simps)
  from streaming_read [OF dispatch_sendable this] obtain ch where ch:
    "channel_read (ws_channel w) = (Inr (Some (message_code MsgDispatch, encode_dispatch d)), ch)" "streaming ch ?rest"
    "sk_outbound (fc_socket ch) = sk_outbound (fc_socket (ws_channel w))" "sk_sends (fc_socket ch) = sk_sends (fc_socket (ws_channel w))"
    by blast
  let ?w = "w\<lparr>ws_channel := ch\<rparr>"
  have enc: "ticket_encodable (dm_ticket d)" using Cons.prems(1) by simp
  obtain w1 where w1: "serve_dispatch opts (encode_dispatch d) ?w = (None, w1)" "streaming (ws_channel w1) ?rest"
    "ws_observed_tick w1 = ws_observed_tick w + 1"
    "sk_outbound (fc_socket (ws_channel w1)) = sk_outbound (fc_socket (ws_channel w))
        @ wire_stream (answer_frames opts (ws_observed_tick w + 1) (dm_ticket d))"
    "list_all harmless (sk_sends (fc_socket (ws_channel w1)))"
    using serve_dispatch_answers [OF enc assms(2), of ?w ?rest] ch Cons.prems(3) by auto
  with Cons.IH [of w1] Cons.prems(1) ch(1) show ?case
    by (subst worker_loop.simps) (auto simp: serve_frame_def wire_stream_append)
qed

section \<open>A whole session\<close>

lemma hello_sendable: "sendable (message_code MsgHello) (encode_hello m)"
proof -
  have "length (encode_hello m) \<le> 1024"
    unfolding encode_hello_def by (subst take_record_length, (rule writes_intros)+) (simp_all add: kDefaultLimit_def kMaxLabelBytes_def)
  then show ?thesis by (simp add: sendable_def kMaxMessageType_def)
qed

lemma hello_ack_sendable: "sendable (message_code MsgHelloAck) (encode_hello_ack m)"
proof -
  have "length (encode_hello_ack m) \<le> 2048"
    unfolding encode_hello_ack_def by (subst take_record_length, (rule writes_intros)+) (simp_all add: kDefaultLimit_def kMaxDetailBytes_def)
  then show ?thesis by (simp add: sendable_def kMaxMessageType_def)
qed

lemma connect_with_retry_fresh:
  "connect_with_retry turns users = (Inr s, users') \<Longrightarrow> sk_outbound s = [] \<and>
     (\<exists>t \<in> set turns. sk_inbound s = ct_inbound t \<and> sk_sends s = ct_sends t)"
  by (induction turns users rule: connect_with_retry.induct)
    (auto simp: connect_def transport_init_def fresh_socket_def
      split: prod.splits sum.splits option.splits list.splits if_splits)

text \<open>The frames a coordinator sends in one session.\<close>

definition session_frames :: "hello_ack_message \<Rightarrow> dispatch_message list \<Rightarrow> bytes \<Rightarrow> (u16 \<times> bytes) list" where
  "session_frames ack ds reason = (message_code MsgHelloAck, encode_hello_ack ack)
     # map (\<lambda>d. (message_code MsgDispatch, encode_dispatch d)) ds @ [(message_code MsgShutdown, encode_shutdown reason)]"

lemma worker_run_session:
  assumes "connect_with_retry turns 1 = (Inr s, users)" "socket_valid s"
    and "sk_inbound s = map Received segments" "list_all (\<lambda>d. d \<noteq> []) segments"
    and "concat segments = wire_stream (session_frames ack ds reason)"
    and "list_all harmless (sk_sends s)" "1 \<le> fd_setsize" "sk_handle s \<in> set ready"
    and ack: "ha_accepted ack" "decode_hello_ack (encode_hello_ack ack) = Inr ack"
    and ds: "list_all (\<lambda>d. ticket_encodable (dm_ticket d)) ds" "wo_exit_after opts = 0"
  shows "\<exists>w. worker_run opts turns fd_setsize ((SelectReady ready, elapsed) # slices) = (0, Some w)
    \<and> sk_outbound (fc_socket (ws_channel w))
      = wire_stream ((message_code MsgHello, encode_hello (offer opts)) # answers opts 0 ds)"
proof -
  let ?w = "\<lparr>ws_channel = \<lparr>fc_socket = s, fc_accumulator = frame_accumulator_new\<rparr>, ws_observed_tick = 0, ws_completions = 0\<rparr>"
  let ?rest = "wire_stream (map (\<lambda>d. (message_code MsgDispatch, encode_dispatch d)) ds @ [(message_code MsgShutdown, encode_shutdown reason)])"
  have stream: "streaming (ws_channel ?w) (frame_bytes (message_code MsgHelloAck) (encode_hello_ack ack) @ ?rest)"
    using streaming_segments [of "ws_channel ?w" segments] assms(2-5)
    by (simp add: frame_accumulator_new_def session_frames_def wire_stream_def del: message_code.simps)
  obtain c1 where c1: "worker_send MsgHello (encode_hello (offer opts)) ?w = (Ok, ?w\<lparr>ws_channel := c1\<rparr>)"
    "streaming c1 (frame_bytes (message_code MsgHelloAck) (encode_hello_ack ack) @ ?rest)"
    "sk_outbound (fc_socket c1) = sk_outbound s @ frame_bytes (message_code MsgHello) (encode_hello (offer opts))"
    "list_all harmless (sk_sends (fc_socket c1))" "sk_handle (fc_socket c1) = sk_handle s"
    using worker_send_streaming [OF stream hello_sendable [of "offer opts"]] assms(6) by auto
  obtain c2 where c2: "channel_read c1 = (Inr (Some (message_code MsgHelloAck, encode_hello_ack ack)), c2)"
    "streaming c2 ?rest" "sk_outbound (fc_socket c2) = sk_outbound (fc_socket c1)" "sk_sends (fc_socket c2) = sk_sends (fc_socket c1)"
    using streaming_read [OF hello_ack_sendable c1(2)] by blast
  have "wait_readable fd_setsize [Some (fc_socket c1)] (SelectReady ready) = Inr [0]"
    using assms(2,7,8) c1(5) by (simp add: wait_readable_def socket_valid_def)
  then have read: "read_frame_bounded fd_setsize kHandshakeBudgetMs ((SelectReady ready, elapsed) # slices) c1
      = (Inr (Some (message_code MsgHelloAck, encode_hello_ack ack)), c2)"
    using c2(1) by simp
  obtain w where w: "worker_loop opts (?w\<lparr>ws_channel := c2\<rparr>) = (0, w)" "sk_outbound (fc_socket (ws_channel w)) =
      sk_outbound (fc_socket c2) @ wire_stream (answers opts 0 ds)"
    using worker_loop_answers [OF ds, of "?w\<lparr>ws_channel := c2\<rparr>" reason] c2 c1(4) by auto
  show ?thesis
    using c1(1,3) c2(3) read ack w connect_with_retry_fresh [OF assms(1)]
    by (simp add: worker_run_def transport_init_def assms(1) [unfolded One_nat_def] Let_def wire_stream_def
        del: message_code.simps read_frame_bounded.simps)
qed

text \<open>A concrete session: one accepted connection, one dispatch, then the shutdown.\<close>

definition ex_ack :: hello_ack_message where
  "ex_ack = \<lparr>ha_accepted = True, ha_reason = 0, ha_detail = [], ha_worker = Ident 7, ha_boot = Ident 9,
     ha_epoch = Ident 1, ha_policy = Ident 1, ha_policy_generation = Ident 1, ha_policy_digest = 0,
     ha_max_frame_payload = kMaxFramePayload, ha_heartbeat_ticks = 0\<rparr>"

definition ex_dispatch :: dispatch_message where
  "ex_dispatch = \<lparr>dm_ticket = ex_ticket, dm_nominal_work = 4\<rparr>"

definition ex_session :: "(u16 \<times> bytes) list" where
  "ex_session = session_frames ex_ack [ex_dispatch] []"

definition ex_turn :: connect_turn where
  "ex_turn = \<lparr>ct_resolved = Some [\<lparr>ca_socket = Some 3, ca_nonblocking = True, ca_connect = 0, ca_would_block = False,
       ca_ready = 0, ca_error_clear = False, ca_blocking = True\<rparr>],
     ct_inbound = [Received (wire_stream ex_session)], ct_sends = [], ct_elapsed = 0\<rparr>"

end
