(* ===== verification/Spec2Isabelle.thy ===== *)
theory Spec2Isabelle
  imports Placement Runs Durability Reboot Worker
begin

text \<open>
  Flow Scheduler.
\<close>

section \<open>Invariants of the scheduler\<close>

text \<open>
  C5.  In every state that calls can reach, each of the three lifecycle indexes is in
  order and holds exactly the flows whose lifecycle belongs to it, so that an arbitration round
  misses no flow and visits none that is gone.
\<close>

theorem indexes_exact:
  assumes "reachable s"
  shows "sorted_wrt (<) (im_waiting_index s) \<and> sorted_wrt (<) (im_ready_index s)
    \<and> sorted_wrt (<) (im_inflight_index s)
    \<and> set (im_waiting_index s) = {k. \<exists>r. om_find k (im_flows s) = Some r
        \<and> fr_lifecycle r \<in> {FlowWaiting, FlowAmbiguous}}
    \<and> set (im_ready_index s) = {k. \<exists>r. om_find k (im_flows s) = Some r \<and> fr_lifecycle r = FlowReady}
    \<and> set (im_inflight_index s) = {k. \<exists>r. om_find k (im_flows s) = Some r
        \<and> fr_lifecycle r \<in> {FlowDispatched, FlowRunning, FlowCompletionReported, FlowCancelling, FlowPreempting}}"
proof -
  have "index_slot l = 1 \<longleftrightarrow> l \<in> {FlowWaiting, FlowAmbiguous}" "index_slot l = 2 \<longleftrightarrow> l = FlowReady"
    "index_slot l = 3 \<longleftrightarrow>
      l \<in> {FlowDispatched, FlowRunning, FlowCompletionReported, FlowCancelling, FlowPreempting}" for l
    by (cases l; simp)+
  moreover have "index_wf s"
    using reachable_core_wf [OF assms] by (simp add: core_wf_def tables_wf_def)
  ultimately show ?thesis by (simp add: index_wf_def os_wf_def in_slot_def)
qed

theorem indexes_exact_witness:
  "set (im_inflight_index ex_running) = {Ident 1} \<and> im_ready_index ex_running = []"
proof -
  obtain r where "im_flows ex_running = [(Ident 1, r)]" "fr_lifecycle r = FlowDispatched"
    using ex_running_state by (auto simp: observed_flow_def)
  then show ?thesis using indexes_exact [OF reachable_ex_running] by (auto split: if_splits)
qed

text \<open>
  C1.  In every reachable state dispatch authority is exclusive: a live attempt is
  the open attempt of exactly the flow its ticket names, that flow is Dispatched or Running, and
  conversely every flow in those states holds a live attempt.  No flow has two live attempts.
\<close>

theorem live_attempts_held:
  assumes "reachable s"
  shows "(\<exists>rec. om_find a (im_attempts s) = Some rec \<and> \<not> is_attempt_terminal (ar_state rec)
      \<and> dt_flow (ar_ticket rec) = k)
    \<longleftrightarrow> (\<exists>r. om_find k (im_flows s) = Some r \<and> fr_lifecycle r \<in> {FlowDispatched, FlowRunning}
      \<and> fr_open_attempt r = a)"
proof -
  note wf = reachable_core_wf [OF assms]
  have "flow_ok r" if "om_find k (im_flows s) = Some r" for r using core_wf_flow [OF wf that] .
  then show ?thesis
    using core_wf_authority [OF wf]
    unfolding authority_wf_def holders_wf_def attempt_held_def attempt_live_def flow_ok_def holds_attempt_def
    by fastforce
qed

theorem live_attempts_held_witness:
  "\<exists>r. om_find (Ident 1) (im_flows ex_running) = Some r \<and> fr_lifecycle r \<in> {FlowDispatched, FlowRunning}
    \<and> fr_open_attempt r = Ident 1"
  using live_attempts_held [OF reachable_ex_running, of "Ident 1" "Ident 1"] ex_running_state
  by (auto simp: observed_attempt_def)

text \<open>
  C16.  The counter of open attempts of a retained schedule is the number of its
  live attempts, so a schedule is retired only when no worker holds a ticket of it.
\<close>

theorem open_counters_exact:
  assumes "reachable s" "find_schedule s i = Some sr"
  shows "unat (sr_open_attempts sr) = card {a. \<exists>rec. om_find a (im_attempts s) = Some rec
    \<and> \<not> is_attempt_terminal (ar_state rec) \<and> dt_schedule (ar_ticket rec) = i}"
  using core_wf_authority [OF reachable_core_wf [OF assms(1)]] assms(2)
  by (simp add: authority_wf_def counters_wf_def live_of_def attempt_live_def find_schedule_def)

theorem open_counters_exact_witness:
  "card {a. \<exists>rec. om_find a (im_attempts ex_running) = Some rec
    \<and> \<not> is_attempt_terminal (ar_state rec) \<and> dt_schedule (ar_ticket rec) = Ident 1} = 1"
proof -
  obtain sr where sr: "find_schedule ex_running (Ident 1) = Some sr" "sr_open_attempts sr = 1"
    using ex_running_state by (auto simp: find_schedule_def)
  show ?thesis using open_counters_exact [OF reachable_ex_running sr(1)] sr(2) by simp
qed

text \<open>
  C4.  No call except the retirement of the flow itself loses or rewinds a flow:
  it stays registered, its generation and its credited work never decrease, and a flow that completed,
  failed or was cancelled stays as it ended, whatever calls, reports and journal failures follow.
\<close>

theorem flows_only_progress:
  assumes "reachable s" "ids_left (perform c s)" "om_find k (im_flows s) = Some r"
    and "\<And>g. c \<noteq> RetireFlow k g"
  shows "\<exists>r'. om_find k (im_flows (perform c s)) = Some r'
    \<and> fd_generation (fr_descriptor r) \<le> fd_generation (fr_descriptor r')
    \<and> fr_served_work r \<le> fr_served_work r'
    \<and> (is_terminal (fr_lifecycle r) \<longrightarrow>
         fr_lifecycle r' = fr_lifecycle r \<and> fr_served_work r' = fr_served_work r)"
  using call_keeps [OF reachable_core_wf [OF assms(1)] assms(2), of k] assms(3,4)
  by (auto simp: evolves_def progress_def)

theorem flows_only_progress_witness:
  "\<exists>r'. om_find (Ident 1) (im_flows (perform (Complete ex_evidence 3) ex_running)) = Some r'
    \<and> Ident 1 \<le> fd_generation (fr_descriptor r')"
proof -
  obtain r where r: "om_find (Ident 1) (im_flows ex_running) = Some r" "fd_generation (fr_descriptor r) = Ident 1"
    using ex_running_state by (auto simp: observed_flow_def)
  have "ids_left (perform (Complete ex_evidence 3) ex_running)"
    using ids_left_ex_running next_ids_complete [of ex_evidence 3 ex_running]
    by (simp add: ids_left_def next_ids_def)
  from flows_only_progress [OF reachable_ex_running this r(1)] r(2) show ?thesis by auto
qed

section \<open>Completion evidence\<close>


lemma ex_evidence_creditable:
  "\<exists>r rec. creditable ex_running ex_evidence 3 r rec"
proof -
  obtain r rec where s: "im_flows ex_running = [(Ident 1, r)]" "im_attempts ex_running = [(Ident 1, rec)]"
      "im_epoch ex_running = Ident 1"
    and o: "observed_flow (Ident 1, r) = (Ident 1, FlowDispatched, Ident 1, Ident 1)"
      "observed_attempt (Ident 1, rec)
        = (Ident 1, AttemptOpen, Ident 1, (Ident 1, Ident 1), (Ident 7, Ident 9), 4, kNoDeadline)"
    using ex_running_state by blast
  have "established ex_provenance" "evidence_bound ex_evidence" by code_simp+
  moreover have "ce_served ex_evidence \<le> kMaxServiceUnits" by code_simp
  ultimately show ?thesis
    using s o by (intro exI [of _ r] exI [of _ rec])
      (simp add: creditable_def matches_def names_attempt_def observed_flow_def observed_attempt_def
        ex_evidence_def has_deadline_def)
qed

lemma ex_evidence_applied:
  "\<exists>out t. complete ex_evidence 3 ex_running = (Inr out, t) \<and> co_disposition out = CommitApplied"
proof -
  obtain r rec where "creditable ex_running ex_evidence 3 r rec" using ex_evidence_creditable by blast
  moreover have "im_store ex_running = None" using ex_running_state by blast
  then have "fst (journal RecCompletionCommitted payload (received 3 ex_running)) = Ok" for payload
    by (simp add: journal_def received_def observe_tick_def)
  ultimately have "applied (fst (complete ex_evidence 3 ex_running))" by (rule creditable_applied)
  then show ?thesis by (cases "complete ex_evidence 3 ex_running") (auto simp: applied_def)
qed


text \<open>
  C2.  Evidence is applied at most once: after a commit the same evidence is
  acknowledged as a duplicate with the credit of the first time, different evidence for the same
  attempt is rejected as contradictory, and neither changes anything but counters.
\<close>

theorem evidence_applied_once:
  assumes "complete ev now s = (Inr out, t)" "co_disposition out = CommitApplied"
    and "ce_attempt ev' = ce_attempt ev" "ce_epoch ev' = ce_epoch ev" "ce_flow ev' = ce_flow ev"
    and "ce_flow_generation ev' = ce_flow_generation ev" "ce_schedule ev' = ce_schedule ev"
    and "ce_schedule_generation ev' = ce_schedule_generation ev" "ce_worker ev' = ce_worker ev"
    and "ce_boot ev' = ce_boot ev" "established (ce_provenance ev')" "ce_served ev' \<le> kMaxServiceUnits"
  shows "\<exists>out' u. complete ev' now' t = (Inr out', u) \<and> forget_counts u = forget_counts t
    \<and> (if evidence_digest ev' = evidence_digest ev
       then co_disposition out' = CommitIdempotentDuplicate \<and> co_credited out' = co_credited out
       else co_disposition out' = CommitRejected \<and> co_code out' = ContradictoryCompletion)"
proof -
  obtain r rec r' where c: "creditable s ev now r rec" and t: "committed ev r now s out r' t"
    using complete_credits [OF assms(1,2)] by blast
  let ?rec = "commit_record ev (credited_units ev) now rec"
  have "evidence_bound ev" using c by (simp add: creditable_def matches_def)
  then have "evidence_bound ev'" by (simp add: evidence_bound_def assms(3-10))
  then have "matches t ev' r' ?rec"
    using c assms(3-12)
    by (intro matches_after_commit [OF c t]) (simp_all add: creditable_def matches_def names_attempt_def)
  then obtain out' u where run: "complete ev' now' t = (Inr out', u)"
    and out: "if evidence_digest ev' = evidence_digest ev
       then co_disposition out' = CommitIdempotentDuplicate \<and> co_credited out' = credited_units ev
       else co_disposition out' = CommitRejected \<and> co_code out' = ContradictoryCompletion"
    using committed_attempt_closed [of t ev' r' ?rec now'] by (auto simp: commit_record_def)
  have "forget_counts u = forget_counts t"
    using complete_unapplied [of ev' now' t] out run by (auto simp: applied_def split: if_splits)
  with run out t show ?thesis by (auto simp: committed_def)
qed

theorem evidence_applied_once_witness:
  "\<exists>out u. complete ex_evidence 4 (snd (complete ex_evidence 3 ex_running)) = (Inr out, u)
    \<and> co_disposition out = CommitIdempotentDuplicate"
proof -
  obtain out t where run: "complete ex_evidence 3 ex_running = (Inr out, t)" "co_disposition out = CommitApplied"
    using ex_evidence_applied by blast
  have "established (ce_provenance ex_evidence)" "ce_served ex_evidence \<le> kMaxServiceUnits" by code_simp+
  from evidence_applied_once [OF run refl refl refl refl refl refl refl refl this, of 4] run(1)
  show ?thesis by auto
qed

text \<open>
  C10.  A report that is rejected, that repeats a commit, or whose journal
  record could not be written leaves every table, index and identity as it was; only the report
  counters, the clock and the store differ.
\<close>

theorem unapplied_evidence_inert:
  assumes "complete ev now s = (res, t)" "\<And>out. res = Inr out \<Longrightarrow> co_disposition out \<noteq> CommitApplied"
  shows "forget_counts t = forget_counts s"
  using complete_unapplied [of ev now s] assms by (auto simp: applied_def)

theorem unapplied_evidence_inert_witness:
  "forget_counts (snd (complete (ex_evidence\<lparr>ce_epoch := Ident 5\<rparr>) 3 ex_running)) = forget_counts ex_running"
proof -
  have ev: "established ex_provenance" "evidence_bound (ex_evidence\<lparr>ce_epoch := Ident 5\<rparr>)"
    "ce_served ex_evidence \<le> kMaxServiceUnits" by code_simp+
  moreover have "im_epoch ex_running = Ident 1" using ex_running_state by blast
  ultimately have "complete (ex_evidence\<lparr>ce_epoch := Ident 5\<rparr>) 3 ex_running
      = reject StaleEpoch (lit ''completion evidence was produced under a retired coordinator epoch'')
          (received 3 ex_running)"
    by (simp add: complete_def Let_def received_eq) (simp add: ex_evidence_def linorder_not_less [symmetric])
  then show ?thesis
    by (intro unapplied_evidence_inert [OF prod.collapse [symmetric]]) (auto simp: reject_def rejected_outcome_def)
qed

section \<open>Arbitration\<close>



text \<open>
  C7.  The Run entries of a round together never exceed the capacity that was
  left in the interval of their resource, nor the capacity that was left in their reservation.
\<close>

theorem round_within_capacity:
  assumes "reachable s" "arbitrate now s = (Inr out, t)"
  shows "(om_find i (im_resources s) = Some rr \<longrightarrow>
      sum_list (map (unat \<circ> se_quantum) (filter (\<lambda>e. se_kind e = KindRun \<and> se_resource e = i)
        (sc_entries (ao_schedule out)))) \<le> unat (capacity_remaining rr now))
    \<and> (om_find v (im_reservations s) = Some rv \<longrightarrow>
      sum_list (map (unat \<circ> se_quantum) (filter (\<lambda>e. se_kind e = KindRun \<and> se_reservation e = v
          \<and> id_valid v \<and> id_valid (se_reservation_generation e))
        (sc_entries (ao_schedule out))))
      \<le> unat (rsv_capacity (rv_descriptor rv)) - unat (rv_reserved_units rv))"
proof -
  obtain s1 rn where g: "granted_round now s out t s1 rn"
    using arbitrate_grants [OF reachable_core_wf [OF assms(1)] assms(2)] by blast
  then have inv: "round_inv (entry_limit (im_policy s)) now (round_base now s1) (map fst (ranked_candidates now s1)) rn"
    and entries: "sc_entries (ao_schedule out) = rn_entries rn" and same1: "same_setup now s s1"
    by (simp_all add: granted_round_def)
  have base: "same_setup now s (round_base now s1)" by (rule same_setup_trans [OF same1 round_base_setup])
  have sums: "units P es = sum_list (map (unat \<circ> se_quantum) (filter (\<lambda>e. se_kind e = KindRun \<and> P e) es))" for P es
    by (simp add: units_def run_entries_def o_def conj_commute)
  have "resource_terms now (round_base now s1) i = Some (rr_descriptor rr, capacity_remaining rr now)"
    if "om_find i (im_resources s) = Some rr"
    using base that by (simp add: same_setup_def) (simp add: resource_terms_def)
  moreover have "im_reservations (round_base now s1) = im_reservations s" using base by (simp add: same_setup_def)
  ultimately show ?thesis
    using inv unfolding round_inv_def within_limits_def entries
    by (simp add: sums bound_to_def reservation_left_def)
qed

theorem round_within_capacity_witness:
  "\<exists>out t. arbitrate 1 ex_admitted = (Inr out, t) \<and>
    (\<forall>rr. om_find (Ident 1) (im_resources ex_admitted) = Some rr \<longrightarrow> 4 \<le> unat (capacity_remaining rr 1))"
proof -
  obtain out t e where run: "arbitrate 1 ex_admitted = (Inr out, t)" "sc_entries (ao_schedule out) = [e]"
      "se_kind e = KindRun" "se_resource e = Ident 1" "se_quantum e = 4"
    using ex_round by blast
  from round_within_capacity [OF reachable_ex_admitted run(1), of "Ident 1"] run show ?thesis by auto
qed

text \<open>
  C9.  The flows that a round runs are ready flows in the order of their ranking
  keys, each at most once, and the entries are numbered by their position; a round has at most one
  entry more than the policy allows.
\<close>

theorem round_in_rank_order:
  assumes "reachable s" "arbitrate now s = (Inr out, t)"
  shows "\<exists>s1 outcome. prepare_round now s = ((Ok, s1), outcome)
    \<and> sorted (map snd (ranked_candidates now s1))
    \<and> subseq (map se_flow (filter (\<lambda>e. se_kind e = KindRun) (sc_entries (ao_schedule out))))
        (map fst (ranked_candidates now s1))
    \<and> distinct (map fst (ranked_candidates now s1))
    \<and> map se_ordinal (sc_entries (ao_schedule out)) = map of_nat [0..<length (sc_entries (ao_schedule out))]
    \<and> length (sc_entries (ao_schedule out)) \<le> entry_limit (im_policy s) + 1"
proof -
  obtain s1 rn where g: "granted_round now s out t s1 rn"
    using arbitrate_grants [OF reachable_core_wf [OF assms(1)] assms(2)] by blast
  then have "distinct (map fst (ranked_candidates now s1))" by (simp add: granted_round_def distinct_ranked)
  moreover have "sorted (map snd (ranked_candidates now s1))" by (simp add: ranked_candidates_def)
  ultimately show ?thesis
    using g by (auto simp: granted_round_def round_inv_def legal_round_def numbered_def run_entries_def)
qed

theorem round_in_rank_order_witness:
  "\<exists>s1 outcome. prepare_round 1 ex_admitted = ((Ok, s1), outcome)
    \<and> Ident 1 \<in> set (map fst (ranked_candidates 1 s1))"
proof -
  obtain out t e where run: "arbitrate 1 ex_admitted = (Inr out, t)" "sc_entries (ao_schedule out) = [e]"
      "se_kind e = KindRun" "se_flow e = Ident 1"
    using ex_round by blast
  from round_in_rank_order [OF reachable_ex_admitted run(1)] run(2-4) show ?thesis
    by (auto dest: list_emb_set)
qed



section \<open>Framed wire protocol\<close>



text \<open>
  C20.  A frame whose payload was altered within four consecutive bytes after it was encoded
  is answered with \<^verbatim>\<open>CorruptData\<close>, whatever was written over those bytes.
\<close>

theorem corrupted_payload_rejected:
  assumes "encode_frame type (p @ bs @ q) 0 = Inr frame" "length cs = length bs" "length bs \<le> 4"
    and "cs \<noteq> bs"
  shows "fst (decode_frame (take (kFrameHeaderBytes + length p) frame @ cs
    @ drop (kFrameHeaderBytes + length p + length bs) frame)) = Inl CorruptData"
proof -
  let ?h = "frame_header_bytes type (p @ bs @ q) 0"
  have frame: "frame = ?h @ encode_u32_le (crc32c ?h) @ (p @ bs @ q) @ encode_u32_le (crc32c (p @ bs @ q))"
    and sendable: "sendable type (p @ bs @ q)"
    using assms(1) by (auto simp: encode_frame_sendable frame_bytes_def Let_def)
  have cut: "take (20 + length p) (h @ e @ (p @ bs @ q) @ t) @ cs
      @ drop (20 + length p + length bs) (h @ e @ (p @ bs @ q) @ t) = h @ e @ (p @ cs @ q) @ t"
    if "length h = 16" "length e = 4" for h e t :: bytes
    using that by simp
  show ?thesis
    unfolding frame kFrameHeaderBytes_def
    by (simp only: cut length_header_bytes length_encode payload_burst_rejected [OF sendable assms(2-4)]
        fst_conv)
qed

theorem corrupted_payload_rejected_witness:
  "fst (decode_frame (take (kFrameHeaderBytes + 1) (frame_bytes 5 [1, 2]) @ [9]
    @ drop (kFrameHeaderBytes + 2) (frame_bytes 5 [1, 2]))) = Inl CorruptData"
  using corrupted_payload_rejected [of 5 "[1]" "[2]" "[]" "frame_bytes 5 [1, 2]" "[9]"]
  by (simp add: encode_frame_sendable sendable_def kMaxMessageType_def)

section \<open>Channels and the worker\<close>

text \<open>
  C18.  A channel delivers: when no send fails for good, \<^verbatim>\<open>send_frame\<close> accepts every
  message, and a channel whose socket receives those bytes in segments of any size gets exactly the
  messages, in order, and then the end of the stream.
\<close>

theorem channel_delivers:
  assumes "list_all (\<lambda>(type, payload). type \<noteq> 0 \<and> type \<le> kMaxMessageType \<and> length payload \<le> unat kMaxFramePayload) messages"
    and "socket_valid (fc_socket sender)" "sk_outbound (fc_socket sender) = []"
    and "list_all harmless (sk_sends (fc_socket sender))"
    and "socket_valid (fc_socket receiver)" "ac_buffer (fc_accumulator receiver) = []"
    and "sk_inbound (fc_socket receiver) = map Received segments" "list_all (\<lambda>d. d \<noteq> []) segments"
    and "send_frames messages sender = (code, sender')" "concat segments = sk_outbound (fc_socket sender')"
  shows "code = Ok \<and> (\<exists>ch last. channel_reads (length messages) receiver = (messages, ch)
    \<and> channel_read ch = (Inr None, last))"
proof -
  have ok: "list_all (\<lambda>(type, payload). sendable type payload) messages"
    using assms(1) by (simp add: sendable_def)
  from send_frames_deliver [OF ok assms(2,4)] assms(3,9)
  have sent: "code = Ok" "sk_outbound (fc_socket sender') = wire_stream messages" by auto
  have "streaming receiver (wire_stream messages @ [])"
    using streaming_segments [OF assms(5,7,8,6)] assms(10) sent(2) by simp
  from streaming_reads [OF ok this] streaming_end sent(1) show ?thesis by blast
qed

theorem channel_delivers_witness:
  "\<exists>ch last. channel_reads 1 \<lparr>fc_socket = fresh_socket 4 [Received (take 3 (frame_bytes 5 [1, 2])),
        Received (drop 3 (frame_bytes 5 [1, 2]))] [], fc_accumulator = frame_accumulator_new\<rparr> = ([(5, [1, 2])], ch)
    \<and> channel_read ch = (Inr None, last)"
proof -
  let ?m = "[(5, [1, 2])] :: (u16 \<times> bytes) list"
  let ?s = "\<lparr>fc_socket = fresh_socket 3 [] [Wrote 4, SendBlocked], fc_accumulator = frame_accumulator_new\<rparr>"
  have ok: "sendable 5 [1, 2]" by (simp add: sendable_def kMaxMessageType_def kMaxFramePayload_def)
  have valid: "socket_valid (fresh_socket n inb outs)" if "n \<noteq> u64_max" for n inb outs
    using that by (simp add: socket_valid_def fresh_socket_def kInvalidHandle_def)
  obtain sent where sent: "send_frames ?m ?s = (Ok, sent)" "sk_outbound (fc_socket sent) = frame_bytes 5 [1, 2]"
    using send_frames_deliver [of ?m ?s] ok valid [of 3] by (auto simp: fresh_socket_def wire_stream_def)
  have "length (frame_bytes 5 [1, 2]) = 26" by (simp add: length_frame_bytes frame_consts)
  then have "frame_bytes 5 [1, 2] \<noteq> []" "drop 3 (frame_bytes 5 [1, 2]) \<noteq> []" by auto
  from channel_delivers [of ?m ?s "\<lparr>fc_socket = fresh_socket 4 [Received (take 3 (frame_bytes 5 [1, 2])),
        Received (drop 3 (frame_bytes 5 [1, 2]))] [], fc_accumulator = frame_accumulator_new\<rparr>"
      "[take 3 (frame_bytes 5 [1, 2]), drop 3 (frame_bytes 5 [1, 2])]" Ok sent] this sent ok valid [of 3] valid [of 4]
  show ?thesis by (simp add: sendable_def fresh_socket_def frame_accumulator_new_def)
qed



section \<open>Durable store\<close>

text \<open>
  C21.  The store refines an append-only list of records: an append that is acknowledged extends the
  list by exactly the record given, whatever the file system answered on the way, a torn tail left
  by a crash included.
\<close>

theorem append_refines_journal:
  assumes "store_holds rs st" "ty \<in> set record_types" "store_append ty payload st = (Ok, st')"
  shows "store_holds (rs @ [(ty, payload)]) st'"
  using store_append_holds [OF assms] by simp

lemma empty_store_holds: "store_holds [] empty_store"
  by (simp add: store_holds_def empty_store_def)

lemma empty_store_append:
  "\<exists>st. store_append RecFlowAdmitted [1, 2, 3] empty_store = (Ok, st) \<and> dk_io st = []"
  by (rule store_append_quiet)
    (simp_all add: empty_store_def journal_consts journal_record_bytes_def kMaxJournalBytes_def)

theorem append_refines_journal_witness:
  "store_holds [(RecFlowAdmitted, [1, 2, 3])]
     (snd (store_append RecFlowAdmitted [1, 2, 3] empty_store))"
  using append_refines_journal [OF empty_store_holds, of RecFlowAdmitted "[1, 2, 3]"]
    empty_store_append
  by (auto simp: record_types_def)

text \<open>
  C22.  A crash while a record is being appended loses nothing that was acknowledged before: the
  journal opens again, and holds the old records when the new one was cut at any byte, and the new
  one too when all of it reached the disk.
\<close>

theorem crash_keeps_acknowledged:
  assumes "store_holds rs st" "\<not> ds_torn_tail_pending st" "ds_last_sequence st \<noteq> u64_max"
    and "ty \<in> set record_types" "length payload \<le> kMaxJournalRecordPayload"
    and "unat (ds_valid_bytes st) + journal_record_bytes (length payload) \<le> kMaxJournalBytes"
    and "dk_journal d = dk_journal st
      @ take n (build_journal_record ty (ds_last_sequence st + 1) payload)"
    and "dk_io d = []" "directory \<noteq> []"
  shows "\<exists>st'. store_open directory flush d = Inr st' \<and>
    store_holds (if n < journal_record_bytes (length payload) then rs else rs @ [(ty, payload)]) st'"
  using crash_during_append [OF assms(1-3) _ refl _ assms(7-9)] assms(4-6)
  by (simp add: entry_ok_def kMaxJournalBytes_def)

theorem crash_keeps_acknowledged_witness:
  "\<exists>st'. store_open [47] True \<lparr>dk_journal = take 7 (build_journal_record RecFlowAdmitted 1 [1, 2, 3]),
     dk_snapshot = None, dk_io = []\<rparr> = Inr st' \<and> store_holds [] st'"
  using crash_keeps_acknowledged [OF empty_store_holds, of RecFlowAdmitted "[1, 2, 3]"
      "\<lparr>dk_journal = take 7 (build_journal_record RecFlowAdmitted 1 [1, 2, 3]),
         dk_snapshot = None, dk_io = []\<rparr>" 7 "[47]" True]
  by (simp add: empty_store_def record_types_def journal_consts journal_record_bytes_def
      kMaxJournalBytes_def)

text \<open>
  C23.  Replay hands the visitor every record the store holds, in order, with the sequence numbers
  from 1, and reports their number.
\<close>

theorem replay_visits_every_record:
  assumes "store_holds rs st" "visit_all visit 1 rs v = (Ok, v')" "dk_io st = []"
  shows "\<exists>report st'. store_replay repair visit v st = (Ok, Some report, v', st') \<and>
    jr_records report = of_nat (length rs) \<and> store_holds rs st'"
  using store_replay_visits [OF assms] by blast

theorem replay_visits_every_record_witness:
  "\<exists>st report st'. store_append RecFlowAdmitted [1, 2, 3] empty_store = (Ok, st) \<and>
     store_replay True (\<lambda>view seen. (Ok, seen @ [(jv_sequence view, jv_payload view)])) [] st
       = (Ok, Some report, [(1, [1, 2, 3])], st') \<and> jr_records report = 1"
proof -
  let ?visit = "\<lambda>view seen. (Ok, seen @ [(jv_sequence view, jv_payload view)])"
  obtain st where st: "store_append RecFlowAdmitted [1, 2, 3] empty_store = (Ok, st)" "dk_io st = []"
    using empty_store_append by blast
  have "store_holds [(RecFlowAdmitted, [1, 2, 3])] st"
    using store_append_holds [OF empty_store_holds _ st(1)] by (simp add: record_types_def)
  from replay_visits_every_record [OF this _ st(2), of ?visit "[]" "[(1, [1, 2, 3])]" True] st(1)
  show ?thesis by (auto simp: and_then_def)
qed

text \<open>
  C24.  After a compaction that is acknowledged the journal is empty and the snapshot reads back as
  the payload that was given.
\<close>

theorem compaction_installs_snapshot:
  assumes "store_compact payload st = (Ok, st')" "dk_io st' = []"
  shows "store_holds [] st' \<and> fst (store_read_snapshot st') = Inr payload"
proof -
  note compact = store_compact_holds [OF assms(1)]
  have "length (build_snapshot_blob payload) = kSnapshotHeaderBytes + length payload"
    by (simp add: build_snapshot_blob_def Let_def kSnapshotHeaderBytes_def)
  with compact assms(2) show ?thesis
    by (simp add: store_read_snapshot_def quiet_io snapshot_roundtrip)
qed

theorem compaction_installs_snapshot_witness:
  "fst (store_read_snapshot (snd (store_compact [4, 5] empty_store))) = Inr [4, 5]"
proof -
  have "store_compact [4, 5] empty_store
      = (Ok, empty_store\<lparr>dk_snapshot := Some (build_snapshot_blob [4, 5])\<rparr>)"
    by (simp add: store_compact_def store_write_snapshot_def and_then_def quiet_io empty_store_def
        journal_consts)
  with compaction_installs_snapshot [OF this] show ?thesis by (simp add: empty_store_def)
qed

section \<open>Restart\<close>



text \<open>
  C14.  A configuring call that answers Ok appends at most one record, and replaying that
  record on the state before the call gives the state after it, up to the clock, the store and the
  recovery report.
\<close>

theorem calls_are_logged:
  assumes "configure c = Some f" "f s = (Ok, t)" "im_store s = Some st" "store_holds rs st"
  shows "\<exists>st' new u. im_store t = Some st' \<and> store_holds (rs @ new) st' \<and> length new \<le> 1
    \<and> visit_all replay_visitor (1 + of_nat (length rs)) new s = (Ok, u) \<and> alike u t"
proof -
  from call_logs [OF assms(1,2)] consider "im_store t = im_store s" "alike s t"
    | ty payload where "appended ty payload s t" "repeats ty payload s t"
    unfolding logs_def by blast
  then show ?thesis
  proof cases
    case 1
    then show ?thesis using assms(3,4) by (intro exI [of _ st] exI [of _ "[]"] exI [of _ s]) simp
  next
    case 2
    obtain st' where st': "im_store t = Some st'" "store_append ty payload st = (Ok, st')" "ty \<in> set record_types"
      using 2(1) assms(3) by (auto simp: appended_def)
    obtain u where "apply_record ty payload s = (Ok, u)" "alike t u"
      using 2(2) unfolding repeats_def by blast
    then show ?thesis
      using st' store_append_holds [OF assms(4) st'(3,2)]
      by (intro exI [of _ st'] exI [of _ "[(ty, payload)]"] exI [of _ u])
        (simp add: alike_sym replay_visitor_def and_then_def)
  qed
qed

theorem calls_are_logged_witness:
  "\<exists>s t st rs new u. register_resource ex_resource s = (Ok, t) \<and> im_store t = Some st \<and> store_holds (rs @ new) st
     \<and> length new \<le> 1 \<and> visit_all replay_visitor (1 + of_nat (length rs)) new s = (Ok, u) \<and> alike u t"
proof -
  obtain s t where s: "settled 1 s" "register_resource ex_resource s = (Ok, t)" using ex_registered by blast
  then obtain st rs where st: "im_store s = Some st" "store_holds rs st" by (auto simp: settled_def)
  from calls_are_logged [OF configure.simps(1) s(2) st] s(2) show ?thesis by blast
qed





text \<open>
  C15.  The record of a cancellation cannot be replayed: after an acknowledged \<^verbatim>\<open>cancel_flow\<close>
  that wrote its record, every restart from that journal fails with CorruptData, although nothing is
  wrong with the disk.
\<close>

theorem cancellation_blocks_restart:
  assumes "configured options s" "im_store s = Some st" "cancel_flow k g reason now s = (Ok, t)"
    and "im_store t = Some st'" "st' \<noteq> st" "left_by st' d" "dk_io d = []"
  shows "create options d = Inl CorruptData"
  using cancelled_journal_refused [OF assms] .

theorem cancellation_blocks_restart_witness:
  "\<exists>s t d. configured ex_durable s \<and> cancel_flow (Ident 1) (Ident 1) [] 0 s = (Ok, t)
     \<and> create ex_durable d = Inl CorruptData"
proof -
  obtain s st t st' d where "configured ex_durable s" "im_store s = Some st"
    "cancel_flow (Ident 1) (Ident 1) [] 0 s = (Ok, t)" "im_store t = Some st'" "st' \<noteq> st" "left_by st' d" "dk_io d = []"
    using ex_cancelled by blast
  then show ?thesis using cancellation_blocks_restart by blast
qed

section \<open>Checksums and random numbers\<close>

text \<open>
  C31.  The table-driven CRC-32C computes the bit-serial polynomial division for every input.
\<close>

theorem crc32c_table_equals_division: "crc32c data = crc32c_serial data"
  by (rule crc32c_serial_eq)

text \<open>
  C29.  \<^verbatim>\<open>Rng::next_below\<close> returns for every state and bound, and the value is below the bound: the
  rejection loop ends because the mixer is a bijection and the state runs through all words.
\<close>

theorem next_below_in_range:
  assumes "0 < limit"
  shows "\<exists>v state'. next_below limit state = Some (v, state') \<and> v < limit"
  by (rule next_below_returns [OF assms])

theorem next_below_in_range_witness: "\<exists>v state'. next_below 10 0 = Some (v, state') \<and> v < 10"
  using next_below_in_range [of 10 0] by simp

text \<open>
  C30.  The checked operations return the exact sum, difference and product or
  \<^verbatim>\<open>ArithmeticOverflow\<close>, and the saturating ones clamp: no result is ever wrapped.
\<close>

theorem checked_arithmetic_exact:
  "(case checked_add a b of Inr c \<Rightarrow> unat c = unat a + unat b
      | Inl e \<Rightarrow> e = ArithmeticOverflow \<and> 2 ^ 64 \<le> unat a + unat b) \<and>
   (case checked_sub a b of Inr c \<Rightarrow> unat a = unat b + unat c
      | Inl e \<Rightarrow> e = ArithmeticOverflow \<and> unat a < unat b) \<and>
   (case checked_mul a b of Inr c \<Rightarrow> unat c = unat a * unat b
      | Inl e \<Rightarrow> e = ArithmeticOverflow \<and> 2 ^ 64 \<le> unat a * unat b) \<and>
   unat (saturating_add a b) = min (unat a + unat b) (2 ^ 64 - 1)"
  using unat_le_u64_max [of a]
  by (auto simp: checked_nat saturating_nat unat_of_nat_u64 unat_sub_le word_le_nat_alt of_nat_diff
      simp del: of_nat_add of_nat_mult)

section \<open>Record codecs and messages\<close>

text \<open>
  C25.  A flow descriptor that passed validation is read back from the record it was written to,
  unless the record writer reported an overflow.
\<close>

theorem flow_descriptor_roundtrip:
  assumes "validate_flow d = Ok" "\<not> rw_overflowed (write_flow_descriptor d (record_writer limit))"
  shows "read_flow_descriptor (rw_buffer (write_flow_descriptor d (record_writer limit)) @ rest)
    = Inr (d, rest)"
  using assms by (intro flow_codec.roundtrip) (simp_all add: flow_encodable_def validate_flow_Ok)

theorem flow_descriptor_roundtrip_witness:
  "read_flow_descriptor (rw_buffer (write_flow_descriptor (ex_flow 1) (record_writer 4096)) @ [9])
    = Inr (ex_flow 1, [9])"
proof (rule flow_descriptor_roundtrip)
  show "validate_flow (ex_flow 1) = Ok"
    by (simp add: validate_flow_Ok ex_flow_def ex_provenance_def bound_def established_def bound_defs
        has_deadline_def id_valid_iff)
  show "\<not> rw_overflowed (write_flow_descriptor (ex_flow 1) (record_writer 4096))" by code_simp
qed

text \<open>
  C26.  A schedule whose entries carry a reason the reader accepts (a code below 16) and a
  bounded detail is read back from its journal record field by field, entries in order.
\<close>

theorem schedule_roundtrip:
  assumes "list_all (\<lambda>e. reason_code (se_reason e) < 16 \<and> length (se_detail e) \<le> kMaxExplanationBytes)
      (sc_entries sched)"
    and "length (sc_entries sched) \<le> unat kMaxEntriesPerSchedule"
    and "\<not> rw_overflowed (write_schedule sched (record_writer limit))"
  shows "read_schedule (rw_buffer (write_schedule sched (record_writer limit)) @ rest)
    = Inr (sched, rest)"
  using assms
  by (intro schedule_codec.roundtrip)
    (simp_all add: schedule_encodable_def entry_encodable_def list_all_iff kMaxEntriesPerSchedule_def)

theorem schedule_roundtrip_witness:
  "read_schedule (rw_buffer (write_schedule ex_schedule (record_writer 4096)) @ [9])
    = Inr (ex_schedule, [9])"
proof (rule schedule_roundtrip)
  show "\<not> rw_overflowed (write_schedule ex_schedule (record_writer 4096))"
    by code_simp
qed (simp_all add: ex_schedule_def ex_entry_def lit_def kMaxExplanationBytes_def
    kMaxEntriesPerSchedule_def)

text \<open>
  C27.  A dispatch ticket with its authority fields bound and a legal quantum survives the trip of a
  \<^verbatim>\<open>Dispatch\<close> message from the coordinator to the worker unchanged.
\<close>

theorem ticket_survives_the_wire:
  assumes "ticket_bound (dm_ticket m)" "0 < dt_quantum (dm_ticket m)"
    "dt_quantum (dm_ticket m) \<le> kMaxQuantum"
  shows "decode_dispatch (encode_dispatch m) = Inr m"
  using assms by (intro dispatch_roundtrip) (simp add: ticket_encodable_def)

theorem ticket_survives_the_wire_witness:
  "decode_dispatch (encode_dispatch \<lparr>dm_ticket = ex_ticket, dm_nominal_work = 4\<rparr>)
    = Inr \<lparr>dm_ticket = ex_ticket, dm_nominal_work = 4\<rparr>"
  by (rule ticket_survives_the_wire)
    (simp_all add: ticket_bound_def ex_ticket_def kMaxQuantum_def id_valid_iff)

section \<open>Validation and diagnostics\<close>


text \<open>
  C32.  Every diagnostic that reaches a log, a journal record or a message through
  \<^verbatim>\<open>bounded_detail\<close> has at most \<^verbatim>\<open>kMaxExplanationBytes\<close> bytes and no control character.
\<close>

theorem bounded_detail_safe:
  "length (bounded_detail input) \<le> kMaxExplanationBytes \<and>
   list_all (\<lambda>b. 0x20 \<le> b \<and> b \<noteq> 0x7F) (bounded_detail input)"
  using bounded_detail_length bounded_detail_printable by (auto simp: list_all_iff)

end
